theory Spec2Isabelle
  imports Main
begin

unbundle bit_operations_syntax

section \<open>The tiny shell \<^verbatim>\<open>tsh.c\<close>: data model\<close>

text \<open>
  The development embeds the job-control code of \<^verbatim>\<open>src/tsh-lab/tshlab-handout/tsh.c\<close>.
  C \<^verbatim>\<open>int\<close> and \<^verbatim>\<open>pid_t\<close> values are modelled as \<open>int\<close>: the only arithmetic the code
  does on them is \<^verbatim>\<open>nextjid++\<close> and \<^verbatim>\<open>maxjid(job_list)+1\<close>, on values that one insertion
  or deletion moves by at most one, so the 32-bit range is not reached in any run of
  feasible length. A C string is modelled by the list of its characters before the
  terminating NUL.
\<close>

abbreviation (input) MAXLINE :: nat where "MAXLINE \<equiv> 1024"
abbreviation (input) MAXARGS :: nat where "MAXARGS \<equiv> 128"
abbreviation (input) MAXJOBS :: int where "MAXJOBS \<equiv> 16"

text \<open>Job states, as the \<^verbatim>\<open>#define\<close>s of the source.\<close>

abbreviation (input) UNDEF :: int where "UNDEF \<equiv> 0"
abbreviation (input) FG :: int where "FG \<equiv> 1"
abbreviation (input) BG :: int where "BG \<equiv> 2"
abbreviation (input) ST :: int where "ST \<equiv> 3"

text \<open>
  Constants of the C library headers (not part of the repository), with their Linux
  values: signal numbers, \<^verbatim>\<open>ECHILD\<close>, the options of \<^verbatim>\<open>waitpid\<close>, and the standard descriptors.
\<close>

abbreviation (input) SIGINT :: int where "SIGINT \<equiv> 2"
abbreviation (input) SIGKILL :: int where "SIGKILL \<equiv> 9"
abbreviation (input) SIGCHLD :: int where "SIGCHLD \<equiv> 17"
abbreviation (input) SIGCONT :: int where "SIGCONT \<equiv> 18"
abbreviation (input) SIGTSTP :: int where "SIGTSTP \<equiv> 20"
abbreviation (input) ECHILD :: int where "ECHILD \<equiv> 10"
abbreviation (input) WNOHANG :: int where "WNOHANG \<equiv> 1"
abbreviation (input) WUNTRACED :: int where "WUNTRACED \<equiv> 2"
abbreviation (input) STDIN_FILENO :: int where "STDIN_FILENO \<equiv> 0"
abbreviation (input) STDOUT_FILENO :: int where "STDOUT_FILENO \<equiv> 1"

record job_t =
  pid :: int
  jid :: int
  state :: int
  cmdline :: string

text \<open>
  What the process has written, in the order of the calls: \<open>Printf\<close> is
  \<^verbatim>\<open>printf\<close> (buffered standard output), \<open>Stderr\<close> is \<^verbatim>\<open>fprintf(stderr, ...)\<close>,
  \<open>Write fd\<close> is \<^verbatim>\<open>write(fd, ...)\<close>, and \<open>Unix_error msg e\<close> is the line
  \<^verbatim>\<open>"%s: %s\n"\<close> that \<^verbatim>\<open>unix_error\<close> prints from \<open>msg\<close> and \<^verbatim>\<open>strerror(e)\<close>.
\<close>

datatype written = Printf string | Stderr string | Write int string | Unix_error string int

text \<open>
  The calls a function makes to the operating system and to the job table's two updating
  routines, as events. The trace of the shell state stamps each event with the set of
  signals blocked when the call is made.
\<close>

datatype call =
    Getpid
  | Sigprocmask_block "int set"
  | Sigprocmask_unblock "int set"
  | Fork int
  | Setpgid int int
  | Signal_dfl int
  | Open_rdonly string int
  | Open_wronly string int
  | Dup2 int int
  | Close int
  | Execve string "string list"
  | Waitpid int int
  | Kill int int
  | Addjob int
  | Deletejob int

text \<open>
  The global variables of the program, and what the model keeps of the process's
  environment: the blocked signals, \<^verbatim>\<open>errno\<close>, the output, the trace, and the descriptors
  on which \<^verbatim>\<open>write\<close> fails.
\<close>

record shell =
  job_list :: "job_t list"
  nextjid :: int
  verbose :: int
  fg_pid :: int
  tsh_pid :: int
  blocked :: "int set"
  errno :: int
  out :: "written list"
  trace :: "(call \<times> int set) list"
  bad_fds :: "int set"

text \<open>
  How a C function of return type \<^verbatim>\<open>void\<close> ends: it returns, the process exits with a
  status, the process image is replaced by \<^verbatim>\<open>execve\<close>, or the behaviour is undefined
  (a null pointer or an uninitialised variable is read).
\<close>

datatype outcome = Return shell | Exit int shell | Replaced shell | Undefined shell

definition andthen :: "outcome \<Rightarrow> (shell \<Rightarrow> outcome) \<Rightarrow> outcome" where
  "andthen r k = (case r of Return s \<Rightarrow> k s | Exit n s \<Rightarrow> Exit n s
                  | Replaced s \<Rightarrow> Replaced s | Undefined s \<Rightarrow> Undefined s)"

definition emit :: "written \<Rightarrow> shell \<Rightarrow> shell" where
  "emit x s = s\<lparr>out := out s @ [x]\<rparr>"

definition log_call :: "call \<Rightarrow> shell \<Rightarrow> shell" where
  "log_call c s = s\<lparr>trace := trace s @ [(c, blocked s)]\<rparr>"

text \<open>\<^verbatim>\<open>%d\<close> of \<^verbatim>\<open>printf\<close>: the decimal digits, with a minus sign for a negative number.\<close>

fun show_nat :: "nat \<Rightarrow> string" where
  "show_nat n = (if n < 10 then [''0123456789'' ! n]
                 else show_nat (n div 10) @ [''0123456789'' ! (n mod 10)])"

declare show_nat.simps [simp del]

definition show_int :: "int \<Rightarrow> string" where
  "show_int i = (if i < 0 then CHR ''-'' # show_nat (nat (- i)) else show_nat (nat i))"

section \<open>The job list\<close>

text \<open>
  Every routine of the source scans the array with
  \<^verbatim>\<open>for (i = 0; i < MAXJOBS; i++) if (test(job_list[i])) ...\<close> and acts on the first slot
  that passes the test. \<open>first_index\<close> is that scan: the least index whose element
  passes, if any. The list \<open>job_list\<close> stands for the array, of \<open>MAXJOBS\<close> slots
  (\<open>wf_shell\<close>).
\<close>

fun first_index :: "('a \<Rightarrow> bool) \<Rightarrow> 'a list \<Rightarrow> nat option" where
  "first_index P [] = None"
| "first_index P (x # xs) = (if P x then Some 0 else map_option Suc (first_index P xs))"

definition wf_shell :: "shell \<Rightarrow> bool" where
  "wf_shell s = (int (length (job_list s)) = MAXJOBS)"

definition clearjob :: job_t where
  "clearjob = \<lparr>pid = 0, jid = 0, state = UNDEF, cmdline = ''''\<rparr>"

definition initjobs :: "shell \<Rightarrow> shell" where
  "initjobs s = s\<lparr>job_list := map (\<lambda>_. clearjob) (job_list s)\<rparr>"

text \<open>The state in which \<^verbatim>\<open>main\<close> enters its read/eval loop (without \<^verbatim>\<open>-v\<close>).\<close>

definition shell0 :: shell where
  "shell0 = \<lparr>job_list = replicate (nat MAXJOBS) clearjob, nextjid = 1, verbose = 0,
     fg_pid = 0, tsh_pid = 0, blocked = {}, errno = 0, out = [], trace = [], bad_fds = {}\<rparr>"

definition maxjid :: "job_t list \<Rightarrow> int" where
  "maxjid js = fold (\<lambda>j m. if jid j > m then jid j else m) js 0"

definition addjob :: "int \<Rightarrow> int \<Rightarrow> string \<Rightarrow> shell \<Rightarrow> int \<times> shell" where
  "addjob p st cl s =
     (if p < 1 then (0, s)
      else case first_index (\<lambda>j. pid j = 0) (job_list s) of
        Some i \<Rightarrow>
          (let j = \<lparr>pid = p, jid = nextjid s, state = st, cmdline = cl\<rparr>;
               n = nextjid s + 1;
               s1 = s\<lparr>job_list := (job_list s)[i := j],
                      nextjid := (if n > MAXJOBS then 1 else n)\<rparr>;
               s2 = (if verbose s1 \<noteq> 0
                     then emit (Printf (''Added job ['' @ show_int (jid j) @ ''] '' @
                                  show_int (pid j) @ '' '' @ cmdline j @ [CHR 0x0A])) s1
                     else s1)
           in (1, s2))
      | None \<Rightarrow> (0, emit (Printf (''Tried to create too many jobs'' @ [CHR 0x0A])) s))"

definition deletejob :: "int \<Rightarrow> shell \<Rightarrow> int \<times> shell" where
  "deletejob p s =
     (if p < 1 then (0, s)
      else case first_index (\<lambda>j. pid j = p) (job_list s) of
        Some i \<Rightarrow>
          (let js = (job_list s)[i := clearjob]
           in (1, s\<lparr>job_list := js, nextjid := maxjid js + 1\<rparr>))
      | None \<Rightarrow> (0, s))"

definition fgpid :: "shell \<Rightarrow> int" where
  "fgpid s = (case first_index (\<lambda>j. state j = FG) (job_list s) of
                Some i \<Rightarrow> pid (job_list s ! i) | None \<Rightarrow> 0)"

definition pid2jid :: "int \<Rightarrow> shell \<Rightarrow> int" where
  "pid2jid p s =
     (if p < 1 then 0
      else case first_index (\<lambda>j. pid j = p) (job_list s) of
        Some i \<Rightarrow> jid (job_list s ! i) | None \<Rightarrow> 0)"

definition jid2pid :: "int \<Rightarrow> shell \<Rightarrow> int" where
  "jid2pid n s = (case first_index (\<lambda>j. jid j = n) (job_list s) of
                    Some i \<Rightarrow> pid (job_list s ! i) | None \<Rightarrow> 0)"

definition job_not_present :: "shell \<Rightarrow> outcome" where
  "job_not_present s = Exit 1 (emit (Stderr (''Job not present in job list'' @ [CHR 0x0A])) s)"

definition change_job_state :: "int \<Rightarrow> int \<Rightarrow> shell \<Rightarrow> outcome" where
  "change_job_state p new_state s =
     (let job_id = pid2jid p s in
      if job_id = 0 then job_not_present s
      else case first_index (\<lambda>j. jid j = job_id) (job_list s) of
        Some i \<Rightarrow> Return (s\<lparr>job_list := (job_list s)[i := (job_list s ! i)\<lparr>state := new_state\<rparr>]\<rparr>)
      | None \<Rightarrow> Return s)"

text \<open>
  \<^verbatim>\<open>write(fd, buf, strlen(buf))\<close> as the printing routines call it: when it fails they
  print a message and exit.
\<close>

definition write_fd :: "int \<Rightarrow> string \<Rightarrow> shell \<Rightarrow> outcome" where
  "write_fd fd buf s =
     (if fd \<in> bad_fds s
      then Exit 1 (emit (Stderr (''Error writing to output file'' @ [CHR 0x0A])) s)
      else Return (emit (Write fd buf) s))"

definition close_unless_stdout :: "int \<Rightarrow> shell \<Rightarrow> outcome" where
  "close_unless_stdout fd s = Return (if fd \<noteq> STDOUT_FILENO then log_call (Close fd) s else s)"

definition state_label :: "nat \<Rightarrow> job_t \<Rightarrow> string" where
  "state_label i j =
     (if state j = BG then ''Running    ''
      else if state j = FG then ''Foreground ''
      else if state j = ST then ''Stopped    ''
      else ''listjobs: Internal error: job['' @ show_nat i @ ''].state='' @
           show_int (state j) @ '' '')"

fun listjobs_from :: "nat \<Rightarrow> job_t list \<Rightarrow> int \<Rightarrow> shell \<Rightarrow> outcome" where
  "listjobs_from i [] fd s = Return s"
| "listjobs_from i (j # js) fd s =
     (if pid j \<noteq> 0
      then andthen (write_fd fd (''['' @ show_int (jid j) @ ''] ('' @ show_int (pid j) @ '') '') s)
             (\<lambda>s. andthen (write_fd fd (state_label i j) s)
               (\<lambda>s. andthen (write_fd fd (cmdline j @ [CHR 0x0A]) s)
                 (listjobs_from (Suc i) js fd)))
      else listjobs_from (Suc i) js fd s)"

definition listjobs :: "int \<Rightarrow> shell \<Rightarrow> outcome" where
  "listjobs fd s = andthen (listjobs_from 0 (job_list s) fd s) (close_unless_stdout fd)"

text \<open>
  \<^verbatim>\<open>printjob\<close>, \<^verbatim>\<open>print_sigint_job\<close> and \<^verbatim>\<open>print_sigtstp_job\<close> share their shape:
  the job id of the pid, a first write of \<open>pre\<close> with the ids, and a second write of a
  text filled in the scan for the job id (empty if the scan finds nothing).
\<close>

definition print_with :: "string \<Rightarrow> (job_t \<Rightarrow> string) \<Rightarrow> int \<Rightarrow> int \<Rightarrow> shell \<Rightarrow> outcome" where
  "print_with pre line p fd s =
     (let job_id = pid2jid p s in
      if job_id = 0 then job_not_present s
      else andthen (write_fd fd (pre @ show_int job_id @ ''] ('' @ show_int p @ '') '') s)
        (\<lambda>s. andthen
           (write_fd fd (case first_index (\<lambda>j. jid j = job_id) (job_list s) of
                           Some i \<Rightarrow> line (job_list s ! i) | None \<Rightarrow> []) s)
           (close_unless_stdout fd)))"

definition printjob :: "int \<Rightarrow> int \<Rightarrow> shell \<Rightarrow> outcome" where
  "printjob p fd s = print_with ''['' (\<lambda>j. cmdline j @ [CHR 0x0A]) p fd s"

definition print_sigint_job :: "int \<Rightarrow> int \<Rightarrow> int \<Rightarrow> shell \<Rightarrow> outcome" where
  "print_sigint_job p sig fd s =
     print_with ''Job ['' (\<lambda>j. ''terminated by signal '' @ show_int sig @ [CHR 0x0A]) p fd s"

definition print_sigtstp_job :: "int \<Rightarrow> int \<Rightarrow> int \<Rightarrow> shell \<Rightarrow> outcome" where
  "print_sigtstp_job p sig fd s =
     print_with ''Job ['' (\<lambda>j. ''stopped by signal '' @ show_int sig @ [CHR 0x0A]) p fd s"

definition unix_error :: "string \<Rightarrow> shell \<Rightarrow> outcome" where
  "unix_error msg s = Exit 1 (emit (Unix_error msg (errno s)) s)"

section \<open>The command line parser\<close>

datatype builtins_t = BUILTIN_NONE | BUILTIN_QUIT | BUILTIN_JOBS | BUILTIN_BG | BUILTIN_FG

text \<open>
  \<open>argv\<close> is the argument array up to its terminating null pointer, so \<^verbatim>\<open>argc\<close> is its
  length; a null \<^verbatim>\<open>infile\<close> or \<^verbatim>\<open>outfile\<close> is \<open>None\<close>; \<open>builtins\<close> is \<open>None\<close> as long as
  the field has not been assigned (the structure is a local variable of \<^verbatim>\<open>eval\<close>).
\<close>

record cmdline_tokens =
  argv :: "string list"
  infile :: "string option"
  outfile :: "string option"
  builtins :: "builtins_t option"

abbreviation (input) ST_NORMAL :: int where "ST_NORMAL \<equiv> 0"
abbreviation (input) ST_INFILE :: int where "ST_INFILE \<equiv> 1"
abbreviation (input) ST_OUTFILE :: int where "ST_OUTFILE \<equiv> 2"

text \<open>
  The ways \<^verbatim>\<open>parseline\<close> returns -1, each with the message it prints; and
  \<open>Line_too_long\<close> for a line of \<open>MAXLINE\<close> characters or more, which \<^verbatim>\<open>strncpy\<close> copies
  without a terminator (the behaviour of the following \<^verbatim>\<open>strlen\<close> is undefined).
\<close>

datatype parse_error =
    Null_cmdline
  | Ambiguous_redirection
  | Unmatched_quote char
  | Missing_file_name
  | Line_too_long

definition parse_error_text :: "parse_error \<Rightarrow> string" where
  "parse_error_text e = (case e of
       Null_cmdline \<Rightarrow> ''Error: command line is NULL'' @ [CHR 0x0A]
     | Ambiguous_redirection \<Rightarrow> ''Error: Ambiguous I/O redirection'' @ [CHR 0x0A]
     | Unmatched_quote c \<Rightarrow> ''Error: unmatched '' @ [c] @ ''.'' @ [CHR 0x0A]
     | Missing_file_name \<Rightarrow> ''Error: must provide file name for redirection'' @ [CHR 0x0A]
     | Line_too_long \<Rightarrow> [])"

definition delims :: string where
  "delims = [CHR '' '', CHR 0x09, CHR 0x0D, CHR 0x0A]"

definition is_quote :: "char \<Rightarrow> bool" where
  "is_quote c = (c = CHR 0x27 \<or> c = CHR 0x22)"

text \<open>
  The \<^verbatim>\<open>while (buf < endbuf)\<close> loop of \<^verbatim>\<open>parseline\<close>. \<open>buf\<close> is the text from the pointer
  \<^verbatim>\<open>buf\<close> to \<^verbatim>\<open>endbuf\<close>, \<open>ps\<close> is \<^verbatim>\<open>parsing_state\<close>. The loop ends with the state and the
  tokens, or with an error. \<open>dropWhile\<close> is \<^verbatim>\<open>strspn\<close>, \<open>takeWhile\<close> is \<^verbatim>\<open>strcspn\<close> or
  \<^verbatim>\<open>strchr\<close>; \<open>drop (length word + 1)\<close> is \<^verbatim>\<open>buf = next + 1\<close>.
\<close>

function tokenize :: "string \<Rightarrow> int \<Rightarrow> cmdline_tokens \<Rightarrow> parse_error + (int \<times> cmdline_tokens)" where
  "tokenize buf ps tok =
     (let b = dropWhile (\<lambda>c. c \<in> set delims) buf in
      if b = [] then Inr (ps, tok)
      else if hd b = CHR ''<'' then
        (if infile tok \<noteq> None then Inl Ambiguous_redirection
         else tokenize (tl b) (ps OR ST_INFILE) tok)
      else if hd b = CHR ''>'' then
        (if outfile tok \<noteq> None then Inl Ambiguous_redirection
         else tokenize (tl b) (ps OR ST_OUTFILE) tok)
      else if is_quote (hd b) \<and> hd b \<notin> set (tl b) then Inl (Unmatched_quote (hd b))
      else
        (let word = (if is_quote (hd b) then takeWhile (\<lambda>c. c \<noteq> hd b) (tl b)
                     else takeWhile (\<lambda>c. c \<notin> set delims) b);
             rest = (if is_quote (hd b) then drop (length word + 1) (tl b)
                     else drop (length word + 1) b)
         in if ps \<noteq> ST_NORMAL \<and> ps \<noteq> ST_INFILE \<and> ps \<noteq> ST_OUTFILE
            then Inl Ambiguous_redirection
            else
              (let tok' = (if ps = ST_NORMAL then tok\<lparr>argv := argv tok @ [word]\<rparr>
                           else if ps = ST_INFILE then tok\<lparr>infile := Some word\<rparr>
                           else tok\<lparr>outfile := Some word\<rparr>)
               in if length (argv tok') \<ge> MAXARGS - 1 then Inr (ST_NORMAL, tok')
                  else tokenize rest ST_NORMAL tok')))"
  by pat_completeness auto
termination
proof (relation "measure (\<lambda>(buf, ps, tok). length buf)")
  show "wf (measure (\<lambda>(buf, ps, tok). length buf))"
    by simp
next
  fix buf :: string and ps :: int and tok :: cmdline_tokens and b
  assume b: "b = dropWhile (\<lambda>c. c \<in> set delims) buf" and ne: "b \<noteq> []"
  have le: "length b \<le> length buf"
    unfolding b by (rule length_dropWhile_le)
  from ne have tl: "length (tl b) < length b"
    by (cases b) auto
  from le tl show "((tl b, ps OR ST_INFILE, tok), buf, ps, tok) \<in> measure (\<lambda>(buf, ps, tok). length buf)"
    by simp
  from le tl show "((tl b, ps OR ST_OUTFILE, tok), buf, ps, tok) \<in> measure (\<lambda>(buf, ps, tok). length buf)"
    by simp
  fix word rest tok'
  assume rest: "rest = (if is_quote (hd b) then drop (length word + 1) (tl b)
                        else drop (length word + 1) b)"
  from ne have "length rest < length b"
    unfolding rest by (cases b) auto
  with le show "((rest, ST_NORMAL, tok'), buf, ps, tok) \<in> measure (\<lambda>(buf, ps, tok). length buf)"
    by simp
qed

declare tokenize.simps [simp del]

definition classify :: "string \<Rightarrow> builtins_t" where
  "classify a =
     (if a = ''quit'' then BUILTIN_QUIT
      else if a = ''jobs'' then BUILTIN_JOBS
      else if a = ''bg'' then BUILTIN_BG
      else if a = ''fg'' then BUILTIN_FG
      else BUILTIN_NONE)"

definition empty_tok :: cmdline_tokens where
  "empty_tok = \<lparr>argv = [], infile = None, outfile = None, builtins = None\<rparr>"

text \<open>
  \<^verbatim>\<open>parseline\<close>: the null check, the copy, the loop, and what follows the loop. The
  argument is \<open>None\<close> for a null pointer. The result is an error (the function returns
  -1) or the returned flag with the tokens. \<open>take 1 (last (argv tok)) = ''&''\<close> is the
  test \<^verbatim>\<open>*tok->argv[tok->argc-1] == '&'\<close> on the first character of the last argument.
\<close>

definition parseline :: "string option \<Rightarrow> parse_error + (int \<times> cmdline_tokens)" where
  "parseline line =
     (case line of
        None \<Rightarrow> Inl Null_cmdline
      | Some l \<Rightarrow>
          if length l \<ge> MAXLINE then Inl Line_too_long
          else case tokenize l ST_NORMAL empty_tok of
            Inl e \<Rightarrow> Inl e
          | Inr (ps, tok) \<Rightarrow>
              if ps \<noteq> ST_NORMAL then Inl Missing_file_name
              else if argv tok = [] then Inr (1, tok)
              else
                (let tok1 = tok\<lparr>builtins := Some (classify (hd (argv tok)))\<rparr>
                 in if take 1 (last (argv tok)) = ''&''
                    then Inr (1, tok1\<lparr>argv := butlast (argv tok)\<rparr>)
                    else Inr (0, tok1)))"

section \<open>The dispatcher \<^verbatim>\<open>eval\<close>\<close>

text \<open>
  What the operating system answers during one call of \<^verbatim>\<open>eval\<close>: the value of
  \<^verbatim>\<open>getpid\<close> in the shell (lines 239 and 261, before any \<^verbatim>\<open>fork\<close>) and in the child
  (line 345), of \<^verbatim>\<open>fork\<close> (0 in the child), of the two \<^verbatim>\<open>open\<close> calls, whether
  \<^verbatim>\<open>execve\<close> fails (and so returns), and the answer of \<^verbatim>\<open>waitpid\<close>. The status word is
  modelled as decoded by the macros \<^verbatim>\<open>WIFSTOPPED\<close>, \<^verbatim>\<open>WIFSIGNALED\<close>, \<^verbatim>\<open>WTERMSIG\<close>.
  \<open>Wait_pid\<close> is a return of a child's pid with its status, \<open>Wait_none\<close> the return of 0
  (which leaves \<^verbatim>\<open>errno\<close> and the status as they are), \<open>Wait_err e\<close> the return of -1
  with \<^verbatim>\<open>errno\<close> set to \<open>e\<close>.
\<close>

datatype wstatus = WExited int | WSignaled int | WStopped int

datatype wait_ret = Wait_pid int wstatus | Wait_none | Wait_err int

record os_t =
  getpid_ret :: int
  child_getpid_ret :: int
  fork_ret :: int
  open_in_ret :: int
  open_out_ret :: int
  execve_fails :: bool
  wait_ret :: wait_ret

definition sigprocmask_block :: "int set \<Rightarrow> shell \<Rightarrow> shell" where
  "sigprocmask_block m s = (log_call (Sigprocmask_block m) s)\<lparr>blocked := blocked s \<union> m\<rparr>"

definition sigprocmask_unblock :: "int set \<Rightarrow> shell \<Rightarrow> shell" where
  "sigprocmask_unblock m s = (log_call (Sigprocmask_unblock m) s)\<lparr>blocked := blocked s - m\<rparr>"

text \<open>
  The two signal sets that \<^verbatim>\<open>eval\<close> builds: \<^verbatim>\<open>mask\<close> (here \<open>mask_sigs\<close>) and \<^verbatim>\<open>mask2\<close>.
\<close>

definition mask_sigs :: "int set" where
  "mask_sigs = {SIGCHLD, SIGINT, SIGTSTP}"

definition mask2 :: "int set" where
  "mask2 = {SIGINT, SIGTSTP}"

text \<open>
  \<^verbatim>\<open>atoi\<close> of the C library: white space, an optional sign, then decimal digits up
  to the first other character. The value is the number that the digits denote: a
  number beyond the range of \<^verbatim>\<open>int\<close>, for which the C library does not define the result,
  is outside the model.
\<close>

definition isspace :: "char \<Rightarrow> bool" where
  "isspace c = (c \<in> set [CHR '' '', CHR 0x09, CHR 0x0A, CHR 0x0B, CHR 0x0C, CHR 0x0D])"

fun atoi_digits :: "string \<Rightarrow> int \<Rightarrow> int" where
  "atoi_digits [] acc = acc"
| "atoi_digits (c # cs) acc =
     (case first_index (\<lambda>d. d = c) ''0123456789'' of
        Some d \<Rightarrow> atoi_digits cs (acc * 10 + int d)
      | None \<Rightarrow> acc)"

definition atoi :: "string \<Rightarrow> int" where
  "atoi a =
     (let b = dropWhile isspace a in
      if take 1 b = ''-'' then - atoi_digits (drop 1 b) 0
      else if take 1 b = ''+'' then atoi_digits (drop 1 b) 0
      else atoi_digits b 0)"

text \<open>
  The pid that \<^verbatim>\<open>fg\<close> and \<^verbatim>\<open>bg\<close> compute from their argument \<^verbatim>\<open>argv[1]\<close>: a job id after
  \<^verbatim>\<open>%\<close>, or a pid.
\<close>

definition job_arg :: "string \<Rightarrow> shell \<Rightarrow> int" where
  "job_arg a s = (if take 1 a = ''%'' then jid2pid (atoi (drop 1 a)) s else atoi a)"

text \<open>
  The \<^verbatim>\<open>switch\<close> over the builtin commands (lines 261 to 320). For \<^verbatim>\<open>quit\<close> the call
  \<^verbatim>\<open>kill(-tsh_pid, SIGKILL)\<close> is recorded and the function returns, as it does when the
  shell does not lead a process group; a shell that leads its process group is killed
  by this call and goes no further, so the model lets it reach more states than it can.
\<close>

definition eval_builtin :: "os_t \<Rightarrow> cmdline_tokens \<Rightarrow> builtins_t \<Rightarrow> shell \<Rightarrow> outcome" where
  "eval_builtin os tok b s =
     (case b of
        BUILTIN_QUIT \<Rightarrow>
          (let s1 = (log_call Getpid s)\<lparr>tsh_pid := getpid_ret os\<rparr>
           in Return (log_call (Kill (- tsh_pid s1) SIGKILL) s1))
      | BUILTIN_JOBS \<Rightarrow>
          (case outfile tok of
             Some f \<Rightarrow> listjobs (open_out_ret os) (log_call (Open_wronly f (open_out_ret os)) s)
           | None \<Rightarrow> listjobs STDOUT_FILENO s)
      | BUILTIN_FG \<Rightarrow>
          (case tl (argv tok) of
             [] \<Rightarrow> Undefined s
           | a # _ \<Rightarrow>
               (let p = job_arg a s
                in andthen (change_job_state p FG s)
                     (\<lambda>s. Return (log_call (Kill (- p) SIGCONT) s))))
      | BUILTIN_BG \<Rightarrow>
          (case tl (argv tok) of
             [] \<Rightarrow> Undefined s
           | a # _ \<Rightarrow>
               (let p = job_arg a s
                in andthen (printjob p STDOUT_FILENO s)
                     (\<lambda>s. andthen (change_job_state p BG s)
                       (\<lambda>s. Return (log_call (Kill (- p) SIGCONT) s)))))
      | BUILTIN_NONE \<Rightarrow> Return s)"

text \<open>
  The child's block (lines 340 to 364) up to the call of \<^verbatim>\<open>Execve\<close>. The wrapper
  \<^verbatim>\<open>Execve\<close> calls \<^verbatim>\<open>execve\<close> and returns; whether the image was replaced is decided
  by the caller of this function from \<open>execve_fails\<close>.
\<close>

definition eval_child :: "os_t \<Rightarrow> cmdline_tokens \<Rightarrow> int \<Rightarrow> string \<Rightarrow> shell \<Rightarrow> shell" where
  "eval_child os tok job_state cl s =
     (let s1 = log_call (Signal_dfl SIGINT) (log_call (Setpgid 0 0) s);
          s2 = snd (addjob (child_getpid_ret os) job_state cl
                      (log_call (Addjob (child_getpid_ret os)) (log_call Getpid s1)));
          s3 = (case infile tok of
                  Some f \<Rightarrow> log_call (Dup2 (open_in_ret os) STDIN_FILENO)
                              (log_call (Open_rdonly f (open_in_ret os)) s2)
                | None \<Rightarrow> s2);
          s4 = (case outfile tok of
                  Some f \<Rightarrow> log_call (Dup2 (open_out_ret os) STDOUT_FILENO)
                              (log_call (Open_wronly f (open_out_ret os)) s3)
                | None \<Rightarrow> s3);
          s5 = sigprocmask_unblock mask_sigs s4
      in log_call (Execve (hd (argv tok)) (argv tok)) s5)"

text \<open>
  The foreground wait (lines 377 to 394), for the pid \<open>p\<close> that \<^verbatim>\<open>Fork\<close> returned:
  \<open>wait_check\<close> is the value that \<^verbatim>\<open>waitpid\<close> returns, \<open>wait_errno\<close> its effect on
  \<^verbatim>\<open>errno\<close>, \<open>wait_status\<close> the status it stores. The variable \<^verbatim>\<open>status\<close> is assigned
  only when \<^verbatim>\<open>waitpid\<close> returns a pid; reading it otherwise is undefined. \<open>finish_fg\<close> is
  the end of the branch (lines 393 and 394).
\<close>

definition wait_check :: "wait_ret \<Rightarrow> int" where
  "wait_check r = (case r of Wait_pid c st \<Rightarrow> c | Wait_none \<Rightarrow> 0 | Wait_err e \<Rightarrow> - 1)"

definition wait_status :: "wait_ret \<Rightarrow> wstatus option" where
  "wait_status r = (case r of Wait_pid c st \<Rightarrow> Some st | Wait_none \<Rightarrow> None | Wait_err e \<Rightarrow> None)"

definition wait_errno :: "wait_ret \<Rightarrow> shell \<Rightarrow> shell" where
  "wait_errno r s = (case r of Wait_pid c st \<Rightarrow> s | Wait_none \<Rightarrow> s | Wait_err e \<Rightarrow> s\<lparr>errno := e\<rparr>)"

definition finish_fg :: "int \<Rightarrow> shell \<Rightarrow> outcome" where
  "finish_fg p s =
     Return (sigprocmask_unblock mask_sigs (snd (deletejob p (log_call (Deletejob p) s))))"

definition eval_wait :: "os_t \<Rightarrow> int \<Rightarrow> shell \<Rightarrow> outcome" where
  "eval_wait os p s =
     (let s2 = wait_errno (wait_ret os) (log_call (Waitpid p WUNTRACED) s);
          check = wait_check (wait_ret os)
      in if check < 0 \<and> errno s2 \<noteq> ECHILD
         then unix_error (''waitfg : wait pid error'' @ [CHR 0x0A]) s2
         else if check = p then
           (case wait_status (wait_ret os) of
              None \<Rightarrow> Undefined s2
            | Some (WStopped sig) \<Rightarrow>
                andthen (print_sigtstp_job p SIGTSTP STDOUT_FILENO s2) (change_job_state p ST)
            | Some (WSignaled sig) \<Rightarrow>
                andthen (print_sigint_job p sig STDOUT_FILENO s2) (finish_fg p)
            | Some (WExited code) \<Rightarrow> finish_fg p s2)
         else finish_fg p s2)"

text \<open>
  The branch for an external program (lines 326 to 405). In the child, when
  \<^verbatim>\<open>execve\<close> fails, \<^verbatim>\<open>Execve\<close> returns and control leaves the child's block into the
  code that follows it, with \<^verbatim>\<open>pid\<close> equal to 0.
\<close>

definition eval_external :: "os_t \<Rightarrow> cmdline_tokens \<Rightarrow> int \<Rightarrow> string \<Rightarrow> shell \<Rightarrow> outcome" where
  "eval_external os tok bg cl s =
     (let job_state = (if bg = 0 then FG else BG);
          p = fork_ret os;
          s1 = log_call (Fork p) s;
          s2 = (if p = 0 then eval_child os tok job_state cl s1 else s1)
      in if p = 0 \<and> \<not> execve_fails os then Replaced s2
         else
           (let s3 = snd (addjob p job_state cl (log_call (Addjob p) s2));
                s4 = (if bg = 0 then s3\<lparr>fg_pid := p\<rparr> else s3);
                s5 = sigprocmask_unblock mask2 s4
            in if bg = 0 then eval_wait os p s5
               else printjob p STDOUT_FILENO (sigprocmask_unblock mask_sigs s5)))"

text \<open>
  \<^verbatim>\<open>eval\<close>. The builtin branch and the branch for an external program are the two arms
  of one \<^verbatim>\<open>if ... else if\<close>: after a builtin command the function returns.
\<close>

definition eval :: "os_t \<Rightarrow> string \<Rightarrow> shell \<Rightarrow> outcome" where
  "eval os cl s =
     (let s1 = (log_call Getpid s)\<lparr>tsh_pid := getpid_ret os\<rparr>;
          s2 = sigprocmask_block mask_sigs s1
      in case parseline (Some cl) of
           Inl e \<Rightarrow>
             (if e = Line_too_long then Undefined s2
              else Return (emit (Stderr (parse_error_text e)) s2))
         | Inr (bg, tok) \<Rightarrow>
             if argv tok = [] then Return s2
             else case builtins tok of
               None \<Rightarrow> Undefined s2
             | Some b \<Rightarrow>
                 if b \<noteq> BUILTIN_NONE then eval_builtin os tok b s2
                 else eval_external os tok bg cl s2)"

section \<open>The signal handlers\<close>

text \<open>
  \<^verbatim>\<open>sigchld_handler\<close>. The loop calls \<^verbatim>\<open>waitpid(-1, &status, WNOHANG)\<close> until the
  answer is not positive; \<open>answers\<close> are the answers of the successive calls, and the
  result is \<open>None\<close> when they run out before the loop ends. \<open>reap_notice\<close> is the
  notice in the body of the loop, printed for a child that a signal terminated.
\<close>

definition reap_notice :: "int \<Rightarrow> wstatus \<Rightarrow> shell \<Rightarrow> outcome" where
  "reap_notice p st s =
     (case st of
        WSignaled sig \<Rightarrow> print_sigint_job p sig STDOUT_FILENO s
      | WExited code \<Rightarrow> Return s
      | WStopped sig \<Rightarrow> Return s)"

fun sigchld_loop :: "wait_ret list \<Rightarrow> shell \<Rightarrow> outcome option" where
  "sigchld_loop [] s = None"
| "sigchld_loop (Wait_pid p st # answers) s =
     (if p > 0 then
        (case reap_notice p st (log_call (Waitpid (- 1) WNOHANG) s) of
           Return s2 \<Rightarrow> sigchld_loop answers (snd (deletejob p (log_call (Deletejob p) s2)))
         | Exit n s2 \<Rightarrow> Some (Exit n s2)
         | Replaced s2 \<Rightarrow> Some (Replaced s2)
         | Undefined s2 \<Rightarrow> Some (Undefined s2))
      else Some (Return (log_call (Waitpid (- 1) WNOHANG) s)))"
| "sigchld_loop (Wait_none # answers) s = Some (Return (log_call (Waitpid (- 1) WNOHANG) s))"
| "sigchld_loop (Wait_err e # answers) s =
     Some (Return ((log_call (Waitpid (- 1) WNOHANG) s)\<lparr>errno := e\<rparr>))"

definition sigchld_handler :: "wait_ret list \<Rightarrow> shell \<Rightarrow> outcome option" where
  "sigchld_handler answers s =
     (case sigchld_loop answers s of
        Some (Return s1) \<Rightarrow>
          Some (if errno s1 \<noteq> ECHILD then unix_error ''waitpid error'' s1 else Return s1)
      | other \<Rightarrow> other)"

text \<open>\<^verbatim>\<open>sigint_handler\<close> and \<^verbatim>\<open>sigtstp_handler\<close>, run by the process whose pid is \<open>self\<close>.\<close>

definition sigint_handler :: "int \<Rightarrow> shell \<Rightarrow> shell" where
  "sigint_handler self s =
     (let s1 = log_call Getpid s
      in if self = tsh_pid s1 \<or> self = fg_pid s1
         then log_call (Kill (- fg_pid s1) SIGINT) s1 else s1)"

definition sigtstp_handler :: "int \<Rightarrow> shell \<Rightarrow> shell" where
  "sigtstp_handler self s =
     (let s1 = log_call Getpid s
      in if self = tsh_pid s1 \<or> self = fg_pid s1
         then log_call (Kill (- fg_pid s1) SIGTSTP) s1
         else log_call (Kill self SIGTSTP) s1)"

section \<open>Runs of the program\<close>

text \<open>
  The job list and \<^verbatim>\<open>nextjid\<close> are written by \<^verbatim>\<open>addjob\<close>, \<^verbatim>\<open>deletejob\<close> and
  \<^verbatim>\<open>change_job_state\<close> only (and by \<^verbatim>\<open>initjobs\<close> at the start), whoever calls them. A run
  of the job list is a sequence of such calls from the initial state; a call of
  \<^verbatim>\<open>change_job_state\<close> that exits leaves the state as it was.
\<close>

datatype table_op = Add int int string | Del int | Chg int int

fun apply_op :: "table_op \<Rightarrow> shell \<Rightarrow> shell" where
  "apply_op (Add p st cl) s = snd (addjob p st cl s)"
| "apply_op (Del p) s = snd (deletejob p s)"
| "apply_op (Chg p st) s = (case change_job_state p st s of Return s' \<Rightarrow> s' | _ \<Rightarrow> s)"

definition run :: "table_op list \<Rightarrow> shell \<Rightarrow> shell" where
  "run ops s = fold apply_op ops s"

text \<open>The job ids of the live entries (those with a pid), in slot order.\<close>

definition live_jids :: "shell \<Rightarrow> int list" where
  "live_jids s = map jid (filter (\<lambda>j. pid j \<noteq> 0) (job_list s))"

definition jid_inv :: "shell \<Rightarrow> bool" where
  "jid_inv s = (1 \<le> nextjid s \<and>
     (\<forall>j\<in>set (job_list s). if pid j = 0 then jid j = 0 else 1 \<le> jid j))"

text \<open>The state in which a function ended, however it ended.\<close>

fun final :: "outcome \<Rightarrow> shell" where
  "final (Return s) = s"
| "final (Exit n s) = s"
| "final (Replaced s) = s"
| "final (Undefined s) = s"

text \<open>
  A run of the program: the read/eval loop of \<^verbatim>\<open>main\<close> evaluates command lines, each
  with the answers of the operating system during its evaluation, and between two
  evaluations the handlers may run. A handler is run here whatever signals are blocked,
  which lets the runs reach more states than the program can. No handler runs in the
  middle of an evaluation: \<^verbatim>\<open>eval\<close> does not write the job list after it has unblocked
  \<^verbatim>\<open>SIGCHLD\<close>, so a handler that runs then finds the job list as \<^verbatim>\<open>eval\<close> leaves it; but
  \<^verbatim>\<open>eval\<close> reads the job list once more in \<^verbatim>\<open>printjob\<close> on line 400, and a handler that
  runs between the lines 399 and 400 is not among these runs. The run goes on as long
  as the functions return; its result is \<open>None\<close> when the answers given to the handler
  of \<^verbatim>\<open>SIGCHLD\<close> run out. A state is reachable when a run from the initial state, verbose
  or not, ends in it.
\<close>

datatype event = Command os_t string | Sigchld "wait_ret list" | Sigint int | Sigtstp int

fun step :: "event \<Rightarrow> shell \<Rightarrow> outcome option" where
  "step (Command os cl) s = Some (eval os cl s)"
| "step (Sigchld answers) s = sigchld_handler answers s"
| "step (Sigint self) s = Some (Return (sigint_handler self s))"
| "step (Sigtstp self) s = Some (Return (sigtstp_handler self s))"

fun run_events :: "event list \<Rightarrow> shell \<Rightarrow> outcome option" where
  "run_events [] s = Some (Return s)"
| "run_events (e # es) s =
     (case step e s of
        Some (Return s') \<Rightarrow> run_events es s'
      | other \<Rightarrow> other)"

definition reachable :: "shell \<Rightarrow> bool" where
  "reachable s = (\<exists>es v r. run_events es (shell0\<lparr>verbose := v\<rparr>) = Some r \<and> s = final r)"

definition after :: "event list \<Rightarrow> shell \<Rightarrow> shell" where
  "after es s = (case run_events es s of Some r \<Rightarrow> final r | None \<Rightarrow> s)"

text \<open>
  \<open>same_table\<close>: two states agree on the job list and on \<^verbatim>\<open>nextjid\<close>. \<open>table_run s s'\<close>:
  the job list and \<^verbatim>\<open>nextjid\<close> of \<open>s'\<close> are those of a run of the job list from \<open>s\<close>.
\<close>

definition same_table :: "shell \<Rightarrow> shell \<Rightarrow> bool" where
  "same_table s t = (job_list s = job_list t \<and> nextjid s = nextjid t)"

definition table_run :: "shell \<Rightarrow> shell \<Rightarrow> bool" where
  "table_run s s' = (\<exists>ops. same_table s' (run ops s))"

definition fg_jobs :: "shell \<Rightarrow> job_t list" where
  "fg_jobs s = filter (\<lambda>j. state j = FG) (job_list s)"

fun is_waitpid :: "call \<Rightarrow> bool" where
  "is_waitpid (Waitpid p opts) = True"
| "is_waitpid _ = False"

definition waits :: "shell \<Rightarrow> call list" where
  "waits s = filter is_waitpid (map fst (trace s))"

fun is_unix_error :: "written \<Rightarrow> bool" where
  "is_unix_error (Unix_error msg e) = True"
| "is_unix_error _ = False"

definition unix_errors :: "shell \<Rightarrow> written list" where
  "unix_errors s = filter is_unix_error (out s)"

text \<open>
  \<open>frame s s'\<close>: the state \<open>s'\<close> differs from \<open>s\<close> at most in the job list, in
  \<^verbatim>\<open>nextjid\<close> and in the output.
\<close>

definition frame :: "shell \<Rightarrow> shell \<Rightarrow> bool" where
  "frame s s' = (verbose s' = verbose s \<and> fg_pid s' = fg_pid s \<and> tsh_pid s' = tsh_pid s \<and>
     blocked s' = blocked s \<and> errno s' = errno s \<and> trace s' = trace s \<and> bad_fds s' = bad_fds s)"

text \<open>
  Answers of the operating system that the examples start from: the shell has the
  pid 40, a child that calls \<^verbatim>\<open>getpid\<close> has the pid 50.
\<close>

definition os0 :: os_t where
  "os0 = \<lparr>getpid_ret = 40, child_getpid_ret = 50, fork_ret = 0, open_in_ret = 3, open_out_ret = 4,
     execve_fails = False, wait_ret = Wait_none\<rparr>"

text \<open>
  The answers of \<^verbatim>\<open>waitpid\<close> to the handler when the children \<open>reaped\<close> (pid and status)
  have terminated and \<^verbatim>\<open>waitpid\<close> then fails with \<open>e\<close>; and the calls that the handler
  makes for them.
\<close>

definition reaped_answers :: "(int \<times> wstatus) list \<Rightarrow> int \<Rightarrow> wait_ret list" where
  "reaped_answers reaped e = map (\<lambda>(p, st). Wait_pid p st) reaped @ [Wait_err e]"

definition reap_calls :: "(int \<times> wstatus) list \<Rightarrow> call list" where
  "reap_calls reaped =
     concat (map (\<lambda>(p, st). [Waitpid (- 1) WNOHANG, Deletejob p]) reaped) @ [Waitpid (- 1) WNOHANG]"

definition two_reaped :: "(int \<times> wstatus) list" where
  "two_reaped = [(101, WSignaled 9), (102, WExited 0)]"

text \<open>Runs of the job list that the examples evaluate.\<close>

definition ops2 :: "table_op list" where
  "ops2 = [Add 101 BG ''a'', Add 102 BG ''b'']"

definition sixteen :: "int list" where
  "sixteen = [101, 102, 103, 104, 105, 106, 107, 108, 109, 110, 111, 112, 113, 114, 115, 116]"

definition tok_cat :: cmdline_tokens where
  "tok_cat = \<lparr>argv = [''/bin/cat''], infile = None, outfile = None, builtins = Some BUILTIN_NONE\<rparr>"

definition os_stop :: os_t where
  "os_stop = os0\<lparr>fork_ret := 77, wait_ret := Wait_pid 77 (WStopped 20)\<rparr>"

definition os_sig :: os_t where
  "os_sig = os0\<lparr>fork_ret := 77, wait_ret := Wait_pid 77 (WSignaled 2)\<rparr>"

definition os_exit :: os_t where
  "os_exit = os0\<lparr>fork_ret := 77, wait_ret := Wait_pid 77 (WExited 0)\<rparr>"

text \<open>
  A child (\<^verbatim>\<open>fork\<close> returned 0) whose \<^verbatim>\<open>execve\<close> fails, and whose \<^verbatim>\<open>waitpid\<close> then finds no
  child to wait for.
\<close>

definition os_exec_fails :: os_t where
  "os_exec_fails = os0\<lparr>execve_fails := True, wait_ret := Wait_err ECHILD\<rparr>"

text \<open>Two background jobs, then \<^verbatim>\<open>fg\<close> on each of them.\<close>

definition two_fg :: "event list" where
  "two_fg = [Command (os0\<lparr>fork_ret := 100\<rparr>) ''sleep 100 &'',
             Command (os0\<lparr>fork_ret := 101\<rparr>) ''sleep 200 &'',
             Command os0 ''fg %1'', Command os0 ''fg %2'']"

text \<open>
  Runs with background jobs. \<open>fg_exits\<close>: a foreground job runs and exits, and the
  handler of \<^verbatim>\<open>SIGCHLD\<close> then finds no child (which leaves \<^verbatim>\<open>ECHILD\<close> in \<^verbatim>\<open>errno\<close>). In
  \<open>gap_events\<close> two background jobs are launched, the first one exits and is reaped while
  the second one runs on, and a third one is launched. In \<open>dup_events\<close> three are
  launched, the second one exits and is reaped, and fourteen more are launched.
\<close>

definition bg_launch :: "int \<Rightarrow> event" where
  "bg_launch p = Command (os0\<lparr>fork_ret := p\<rparr>) ''sleep 9 &''"

definition two_bg :: "event list" where
  "two_bg = [bg_launch 101, bg_launch 102]"

definition fg_exits :: "event list" where
  "fg_exits = [Command (os0\<lparr>fork_ret := 99, wait_ret := Wait_pid 99 (WExited 0)\<rparr>) ''/bin/true'',
               Sigchld [Wait_err ECHILD]]"

definition gap_events :: "event list" where
  "gap_events = fg_exits @ [bg_launch 101, bg_launch 102,
     Sigchld [Wait_pid 101 (WExited 0), Wait_none], bg_launch 103]"

text \<open>The state of the shell after sixteen background launches.\<close>

definition full_shell :: shell where
  "full_shell = after (map bg_launch sixteen) shell0"

definition dup_events :: "event list" where
  "dup_events = fg_exits @ [bg_launch 101, bg_launch 102, bg_launch 103,
     Sigchld [Wait_pid 102 (WExited 0), Wait_none]] @
     map bg_launch [104, 105, 106, 107, 108, 109, 110, 111, 112, 113, 114, 115, 116, 117]"

text \<open>
  Lines of plain words: \<open>join\<close> separates the words by single blanks; a word is plain
  when it is not empty, has no white space, and does not begin with \<^verbatim>\<open><\<close>, \<^verbatim>\<open>>\<close> or a
  quote.
\<close>

fun join :: "string list \<Rightarrow> string" where
  "join [] = []"
| "join [w] = w"
| "join (w # v # ws) = w @ CHR '' '' # join (v # ws)"

definition plain :: "string \<Rightarrow> bool" where
  "plain w = (w \<noteq> [] \<and> (\<forall>c\<in>set w. c \<notin> set delims) \<and>
     hd w \<noteq> CHR ''<'' \<and> hd w \<noteq> CHR ''>'' \<and> \<not> is_quote (hd w))"

text \<open>
  Command lines written out from their tokens. A word is written plain, or quoted:
  any text without the quote character, between two quote characters of one kind. A
  token is an argument word or a redirection, which is the sign \<^verbatim>\<open><\<close> or \<^verbatim>\<open>>\<close>, white
  space (possibly none) and the word that names the file. A line is a list of tokens,
  each paired with the white space that follows it on the line; a plain word ends at
  white space only, so the white space after a plain word is not empty unless the word
  is the last token (\<open>line_ok\<close>). \<open>word_text\<close> is what is written on the line for a
  word, \<open>word_value\<close> the word itself. \<open>args_of\<close>, \<open>infiles_of\<close> and \<open>outfiles_of\<close> are the
  argument words and the redirection targets of a line, in order.
\<close>

datatype arg_word = Plain string | Quoted char string

datatype token = Arg arg_word | In_file string arg_word | Out_file string arg_word

fun word_text :: "arg_word \<Rightarrow> string" where
  "word_text (Plain w) = w"
| "word_text (Quoted q w) = q # w @ [q]"

fun word_value :: "arg_word \<Rightarrow> string" where
  "word_value (Plain w) = w"
| "word_value (Quoted q w) = w"

fun word_ok :: "arg_word \<Rightarrow> bool" where
  "word_ok (Plain w) = plain w"
| "word_ok (Quoted q w) = (is_quote q \<and> q \<notin> set w)"

fun is_plain :: "arg_word \<Rightarrow> bool" where
  "is_plain (Plain w) = True"
| "is_plain (Quoted q w) = False"

definition blank :: "string \<Rightarrow> bool" where
  "blank sp = (\<forall>c\<in>set sp. c \<in> set delims)"

fun token_text :: "token \<Rightarrow> string" where
  "token_text (Arg w) = word_text w"
| "token_text (In_file sp w) = CHR ''<'' # sp @ word_text w"
| "token_text (Out_file sp w) = CHR ''>'' # sp @ word_text w"

fun token_word :: "token \<Rightarrow> arg_word" where
  "token_word (Arg w) = w"
| "token_word (In_file sp w) = w"
| "token_word (Out_file sp w) = w"

fun token_ok :: "token \<Rightarrow> bool" where
  "token_ok (Arg w) = word_ok w"
| "token_ok (In_file sp w) = (blank sp \<and> word_ok w)"
| "token_ok (Out_file sp w) = (blank sp \<and> word_ok w)"

fun line_of :: "(token \<times> string) list \<Rightarrow> string" where
  "line_of [] = []"
| "line_of ((t, sp) # ts) = token_text t @ sp @ line_of ts"

fun line_ok :: "(token \<times> string) list \<Rightarrow> bool" where
  "line_ok [] = True"
| "line_ok ((t, sp) # ts) =
     (token_ok t \<and> blank sp \<and> (is_plain (token_word t) \<and> ts \<noteq> [] \<longrightarrow> sp \<noteq> []) \<and> line_ok ts)"

fun arg_of :: "token \<Rightarrow> string list" where
  "arg_of (Arg w) = [word_value w]"
| "arg_of (In_file sp w) = []"
| "arg_of (Out_file sp w) = []"

fun infile_of :: "token \<Rightarrow> string list" where
  "infile_of (Arg w) = []"
| "infile_of (In_file sp w) = [word_value w]"
| "infile_of (Out_file sp w) = []"

fun outfile_of :: "token \<Rightarrow> string list" where
  "outfile_of (Arg w) = []"
| "outfile_of (In_file sp w) = []"
| "outfile_of (Out_file sp w) = [word_value w]"

definition args_of :: "(token \<times> string) list \<Rightarrow> string list" where
  "args_of ts = concat (map (\<lambda>(t, sp). arg_of t) ts)"

definition infiles_of :: "(token \<times> string) list \<Rightarrow> string list" where
  "infiles_of ts = concat (map (\<lambda>(t, sp). infile_of t) ts)"

definition outfiles_of :: "(token \<times> string) list \<Rightarrow> string list" where
  "outfiles_of ts = concat (map (\<lambda>(t, sp). outfile_of t) ts)"

text \<open>
  The \<^verbatim>\<open>switch (parsing_state)\<close> of \<^verbatim>\<open>parseline\<close> in its three regular cases, and its
  effect for a token.
\<close>

definition store :: "int \<Rightarrow> string \<Rightarrow> cmdline_tokens \<Rightarrow> cmdline_tokens" where
  "store ps w tok = (if ps = ST_NORMAL then tok\<lparr>argv := argv tok @ [w]\<rparr>
                     else if ps = ST_INFILE then tok\<lparr>infile := Some w\<rparr>
                     else tok\<lparr>outfile := Some w\<rparr>)"

fun put :: "token \<Rightarrow> cmdline_tokens \<Rightarrow> cmdline_tokens" where
  "put (Arg w) tok = tok\<lparr>argv := argv tok @ [word_value w]\<rparr>"
| "put (In_file sp w) tok = tok\<lparr>infile := Some (word_value w)\<rparr>"
| "put (Out_file sp w) tok = tok\<lparr>outfile := Some (word_value w)\<rparr>"

text \<open>
  Two lines. \<open>sleep_line\<close>: the word \<^verbatim>\<open>sleep\<close>, the word \<^verbatim>\<open>5 6\<close> in double quotes, a
  redirection of the output to \<^verbatim>\<open>out\<close>, and \<^verbatim>\<open>&\<close>. \<open>ls_line\<close>: the word \<^verbatim>\<open>ls\<close>, a redirection
  of the input from \<^verbatim>\<open>names\<close>, a tab, the word \<^verbatim>\<open>x&\<close> and a blank.
\<close>

definition sleep_line :: "(token \<times> string) list" where
  "sleep_line = [(Arg (Plain ''sleep''), '' ''), (Arg (Quoted (CHR 0x22) ''5 6''), ''''),
                 (Out_file '' '' (Plain ''out''), ''  ''), (Arg (Plain ''&''), '''')]"

definition ls_line :: "(token \<times> string) list" where
  "ls_line = [(Arg (Plain ''ls''), '' ''), (In_file '''' (Plain ''names''), [CHR 0x09]),
              (Arg (Plain ''x&''), '' '')]"

text \<open>
  Launches in a row: the command line \<open>cl\<close> is evaluated once for each pid of \<open>qs\<close>, which
  is what \<^verbatim>\<open>fork\<close> returns in that evaluation. \<open>tok_sleep\<close> is what \<^verbatim>\<open>parseline\<close> makes of
  \<^verbatim>\<open>sleep 9 &\<close>. In \<open>one_exits\<close> two background jobs are launched, the first one exits,
  and the handler of \<^verbatim>\<open>SIGCHLD\<close> runs while the second one is running.
\<close>

definition launches :: "os_t \<Rightarrow> string \<Rightarrow> int list \<Rightarrow> event list" where
  "launches os cl qs = map (\<lambda>q. Command (os\<lparr>fork_ret := q\<rparr>) cl) qs"

definition tok_sleep :: cmdline_tokens where
  "tok_sleep = \<lparr>argv = [''sleep'', ''9''], infile = None, outfile = None, builtins = Some BUILTIN_NONE\<rparr>"

definition one_exits :: "event list" where
  "one_exits = [bg_launch 101, bg_launch 102, Sigchld [Wait_pid 101 (WExited 0), Wait_none]]"

section \<open>Facts about the scan\<close>

lemma first_index_None: "first_index P xs = None \<longleftrightarrow> (\<forall>x\<in>set xs. \<not> P x)"
  by (induction xs) auto

lemma first_index_Some:
  "first_index P xs = Some i \<Longrightarrow> i < length xs \<and> P (xs ! i) \<and> (\<forall>k<i. \<not> P (xs ! k))"
proof (induction xs arbitrary: i)
  case Nil
  then show ?case by simp
next
  case (Cons x xs)
  show ?case
  proof (cases "P x")
    case True
    with Cons.prems show ?thesis by simp
  next
    case False
    with Cons.prems obtain k where k: "first_index P xs = Some k" "i = Suc k"
      by auto
    from Cons.IH [OF k(1)] False k(2) show ?thesis
      by (auto simp: less_Suc_eq_0_disj)
  qed
qed

lemma first_index_eq:
  "i < length xs \<Longrightarrow> P (xs ! i) \<Longrightarrow> (\<forall>k<i. \<not> P (xs ! k)) \<Longrightarrow> first_index P xs = Some i"
proof (induction xs arbitrary: i)
  case Nil
  then show ?case by simp
next
  case (Cons x xs)
  show ?case
  proof (cases i)
    case 0
    with Cons.prems show ?thesis by simp
  next
    case (Suc k)
    with Cons.prems have "\<not> P x" by auto
    moreover from Suc Cons.prems have "first_index P xs = Some k"
      by (intro Cons.IH) auto
    ultimately show ?thesis using Suc by simp
  qed
qed

lemma set_update_cases: "x \<in> set (xs[i := y]) \<Longrightarrow> x = y \<or> x \<in> set xs"
  using set_update_subset_insert [of xs i y] by auto

section \<open>Job ids\<close>

lemma fold_max_jid:
  "fold (\<lambda>j m. if jid j > m then jid j else m) js a = Max (insert a (jid ` set js))"
proof (induction js arbitrary: a)
  case Nil
  then show ?case by simp
next
  case (Cons j js)
  have "Max (insert (max a (jid j)) (jid ` set js)) = Max (insert a (insert (jid j) (jid ` set js)))"
    by (cases "js = []") (simp_all add: max.assoc)
  moreover have "(if jid j > a then jid j else a) = max a (jid j)"
    by (simp add: max_def)
  ultimately show ?case using Cons.IH by simp
qed

lemma maxjid_Max: "maxjid js = Max (insert 0 (jid ` set js))"
  by (simp add: maxjid_def fold_max_jid)

lemma maxjid_nonneg: "0 \<le> maxjid js"
  by (simp add: maxjid_Max)

lemma jid_inv_addjob: "jid_inv s \<Longrightarrow> jid_inv (snd (addjob p st cl s))"
  by (auto simp: jid_inv_def addjob_def emit_def Let_def split: option.splits dest!: set_update_cases)

lemma jid_inv_deletejob: "jid_inv s \<Longrightarrow> jid_inv (snd (deletejob p s))"
  using maxjid_nonneg
  by (auto simp: jid_inv_def deletejob_def clearjob_def Let_def add_increasing
      split: option.splits dest!: set_update_cases)

lemma jid_inv_change: "jid_inv s \<Longrightarrow> change_job_state p st s = Return s' \<Longrightarrow> jid_inv s'"
proof -
  assume inv: "jid_inv s" and c: "change_job_state p st s = Return s'"
  show ?thesis
  proof (cases "first_index (\<lambda>j. jid j = pid2jid p s) (job_list s)")
    case None
    with c have "s' = s"
      by (auto simp: change_job_state_def job_not_present_def Let_def split: if_splits)
    with inv show ?thesis by simp
  next
    case (Some i)
    with c have s': "s' = s\<lparr>job_list := (job_list s)[i := (job_list s ! i)\<lparr>state := st\<rparr>]\<rparr>"
      by (auto simp: change_job_state_def job_not_present_def Let_def split: if_splits)
    from first_index_Some [OF Some] have "job_list s ! i \<in> set (job_list s)"
      by simp
    with inv show ?thesis
      unfolding s' jid_inv_def by (auto dest!: set_update_cases)
  qed
qed

lemma jid_inv_apply: "jid_inv s \<Longrightarrow> jid_inv (apply_op x s)"
  by (cases x) (auto simp: jid_inv_addjob jid_inv_deletejob jid_inv_change split: outcome.splits)

lemma jid_inv_shell0: "jid_inv shell0"
  by (simp add: jid_inv_def shell0_def clearjob_def)

lemma jid_inv_fold: "jid_inv s \<Longrightarrow> jid_inv (fold apply_op ops s)"
  by (induction ops arbitrary: s) (auto simp: jid_inv_apply)

lemma jid_inv_run: "jid_inv (run ops shell0)"
  by (simp add: run_def jid_inv_fold jid_inv_shell0)

lemma live_jids_Max:
  "jid_inv s \<Longrightarrow> insert 0 (jid ` set (job_list s)) = insert 0 (set (live_jids s))"
  by (auto simp: jid_inv_def live_jids_def split: if_splits)

lemma addjob_assigns:
  "addjob p st cl s = (1, s') \<Longrightarrow>
     \<exists>i<length (job_list s). pid (job_list s ! i) = 0 \<and>
       job_list s' = (job_list s)[i := \<lparr>pid = p, jid = nextjid s, state = st, cmdline = cl\<rparr>] \<and>
       nextjid s' = (if nextjid s + 1 > MAXJOBS then 1 else nextjid s + 1)"
  by (auto simp: addjob_def emit_def Let_def split: option.splits if_splits dest!: first_index_Some)

lemma deletejob_recomputes:
  "deletejob p s = (1, s') \<Longrightarrow> nextjid s' = maxjid (job_list s') + 1"
  by (auto simp: deletejob_def Let_def split: option.splits if_splits)

section \<open>The job list in the runs of the program\<close>

text \<open>
  Whatever \<^verbatim>\<open>eval\<close> and the handlers do, the job list and \<^verbatim>\<open>nextjid\<close> change as in a run of
  the job list.
\<close>

lemma pid2jid_same: "job_list s = job_list t \<Longrightarrow> pid2jid p s = pid2jid p t"
  by (auto simp: pid2jid_def split: option.splits)

lemma same_table_addjob:
  "same_table s t \<Longrightarrow> same_table (snd (addjob p st cl s)) (snd (addjob p st cl t))"
  by (simp add: same_table_def addjob_def Let_def emit_def split: option.splits)

lemma same_table_deletejob:
  "same_table s t \<Longrightarrow> same_table (snd (deletejob p s)) (snd (deletejob p t))"
  by (simp add: same_table_def deletejob_def Let_def split: option.splits)

lemma change_job_state_table:
  "same_table (final (change_job_state p st s)) (apply_op (Chg p st) s)"
  by (simp add: same_table_def change_job_state_def Let_def job_not_present_def emit_def
      split: option.splits)

lemma same_table_change:
  "same_table s t \<Longrightarrow> same_table (apply_op (Chg p st) s) (apply_op (Chg p st) t)"
  using pid2jid_same [of s t p]
  by (simp add: same_table_def change_job_state_def Let_def job_not_present_def
      split: option.splits)

lemma same_table_apply_op: "same_table s t \<Longrightarrow> same_table (apply_op x s) (apply_op x t)"
  by (cases x) (simp_all add: same_table_addjob same_table_deletejob same_table_change del: apply_op.simps(3))

lemma same_table_run: "same_table s t \<Longrightarrow> same_table (run ops s) (run ops t)"
  unfolding run_def by (induction ops arbitrary: s t) (simp_all add: same_table_apply_op)

lemma same_table_refl: "same_table s s"
  by (simp add: same_table_def)

lemma same_table_trans: "same_table s t \<Longrightarrow> same_table t u \<Longrightarrow> same_table s u"
  by (simp add: same_table_def)

lemma same_table_sym: "same_table s t \<Longrightarrow> same_table t s"
  by (simp add: same_table_def)

lemma table_run_same: "same_table s' s \<Longrightarrow> table_run s s'"
  unfolding table_run_def by (rule exI [of _ "[]"]) (simp add: run_def)

lemma table_run_trans:
  assumes "table_run s s1" "table_run s1 s2"
  shows "table_run s s2"
proof -
  from assms obtain a b where a: "same_table s1 (run a s)" and b: "same_table s2 (run b s1)"
    by (auto simp: table_run_def)
  from same_table_run [OF a, of b] have "same_table (run b s1) (run (a @ b) s)"
    by (simp add: run_def)
  with b have "same_table s2 (run (a @ b) s)" by (rule same_table_trans)
  then show ?thesis unfolding table_run_def by blast
qed

lemma table_run_op: "table_run s (apply_op x s)"
  unfolding table_run_def by (rule exI [of _ "[x]"]) (simp add: run_def same_table_refl)

lemma table_run_addjob: "table_run s (snd (addjob p st cl s))"
  using table_run_op [of s "Add p st cl"] by simp

lemma table_run_deletejob: "table_run s (snd (deletejob p s))"
  using table_run_op [of s "Del p"] by simp

lemma table_run_change: "table_run s (final (change_job_state p st s))"
  by (rule table_run_trans [OF table_run_op [of s "Chg p st"]])
     (rule table_run_same, rule change_job_state_table)

lemma table_run_andthen:
  assumes "table_run s (final r)" "\<And>x. r = Return x \<Longrightarrow> table_run x (final (k x))"
  shows "table_run s (final (andthen r k))"
proof (cases r)
  case (Return x)
  with assms(1) have "table_run s x" by simp
  from table_run_trans [OF this assms(2) [OF Return]] Return show ?thesis
    by (simp add: andthen_def)
qed (use assms(1) in \<open>simp_all add: andthen_def\<close>)

lemma frame_table_print_with: "same_table (final (print_with pre line p fd s)) s"
  by (simp add: same_table_def print_with_def Let_def job_not_present_def write_fd_def andthen_def
      emit_def close_unless_stdout_def log_call_def)

lemma same_table_listjobs_from: "same_table (final (listjobs_from i js fd s)) s"
proof (induction js arbitrary: i s)
  case Nil
  then show ?case by (simp add: same_table_def)
next
  case (Cons j js)
  show ?case
  proof (cases "pid j \<noteq> 0 \<and> fd \<notin> bad_fds s")
    case True
    define s3 where "s3 = emit (Write fd (cmdline j @ [CHR 0x0A])) (emit (Write fd (state_label i j))
        (emit (Write fd (''['' @ show_int (jid j) @ ''] ('' @ show_int (pid j) @ '') '')) s))"
    from True have "listjobs_from i (j # js) fd s = listjobs_from (Suc i) js fd s3"
      by (simp add: write_fd_def andthen_def emit_def s3_def)
    moreover have "same_table s3 s" by (simp add: s3_def same_table_def emit_def)
    ultimately show ?thesis
      using Cons.IH [of "Suc i" s3] by (auto intro: same_table_trans)
  next
    case False
    then show ?thesis
      using Cons.IH [of "Suc i" s]
      by (auto simp: write_fd_def andthen_def emit_def same_table_def)
  qed
qed

lemma same_table_listjobs: "same_table (final (listjobs fd s)) s"
  using same_table_listjobs_from [of 0 "job_list s" fd s]
  by (cases "listjobs_from 0 (job_list s) fd s")
     (simp_all add: listjobs_def andthen_def close_unless_stdout_def same_table_def log_call_def)


lemma table_run_pre: "same_table s0 s \<Longrightarrow> table_run s0 s' \<Longrightarrow> table_run s s'"
  by (rule table_run_trans [OF table_run_same]) (simp_all add: same_table_def)

lemma table_run_post: "table_run s s1 \<Longrightarrow> same_table s' s1 \<Longrightarrow> table_run s s'"
  by (erule table_run_trans) (rule table_run_same)

lemma table_run_print_then:
  assumes "\<And>x. same_table x s \<Longrightarrow> table_run x (final (k x))"
  shows "table_run s (final (andthen (print_with pre line p fd s) k))"
proof (rule table_run_andthen)
  show "table_run s (final (print_with pre line p fd s))"
    by (rule table_run_same) (rule frame_table_print_with)
  fix x assume "print_with pre line p fd s = Return x"
  with frame_table_print_with [of pre line p fd s] have "same_table x s" by simp
  then show "table_run x (final (k x))" by (rule assms)
qed

lemma table_run_finish_fg: "table_run s (final (finish_fg p s))"
proof -
  have "table_run (log_call (Deletejob p) s) (snd (deletejob p (log_call (Deletejob p) s)))"
    by (rule table_run_deletejob)
  then have "table_run s (snd (deletejob p (log_call (Deletejob p) s)))"
    by (rule table_run_pre [rotated]) (simp add: same_table_def log_call_def)
  then show ?thesis
    by (rule table_run_post) (simp add: finish_fg_def same_table_def sigprocmask_unblock_def log_call_def)
qed

lemma table_run_eval_wait: "table_run s (final (eval_wait os p s))"
proof -
  define s2 where "s2 = wait_errno (wait_ret os) (log_call (Waitpid p WUNTRACED) s)"
  have st: "same_table s2 s"
    by (simp add: s2_def same_table_def wait_errno_def log_call_def split: wait_ret.splits)
  have stop: "table_run s2 (final (andthen (print_sigtstp_job p SIGTSTP STDOUT_FILENO s2)
                                     (change_job_state p ST)))"
    unfolding print_sigtstp_job_def by (rule table_run_print_then) (rule table_run_change)
  have sig: "table_run s2 (final (andthen (print_sigint_job p sg STDOUT_FILENO s2) (finish_fg p)))" for sg
    unfolding print_sigint_job_def by (rule table_run_print_then) (rule table_run_finish_fg)
  have err: "table_run s2 (final (unix_error msg s2))" for msg
    by (rule table_run_same) (simp add: unix_error_def emit_def same_table_def)
  have "table_run s2 (final (eval_wait os p s))"
    unfolding eval_wait_def Let_def s2_def [symmetric]
    by (simp add: stop sig err table_run_finish_fg table_run_same same_table_refl
        split: option.splits wstatus.splits)
  then show ?thesis by (rule table_run_pre [OF st])
qed

lemma same_table_eval_child:
  "same_table (eval_child os tok js cl s) (snd (addjob (child_getpid_ret os) js cl s))"
proof -
  have "same_table (snd (addjob (child_getpid_ret os) js cl
                      (log_call (Addjob (child_getpid_ret os)) (log_call Getpid
                         (log_call (Signal_dfl SIGINT) (log_call (Setpgid 0 0) s))))))
           (snd (addjob (child_getpid_ret os) js cl s))"
    by (rule same_table_addjob) (simp add: same_table_def log_call_def)
  then show ?thesis
    by (simp add: eval_child_def Let_def same_table_def log_call_def sigprocmask_unblock_def
        split: option.splits)
qed

lemma table_run_eval_child: "table_run s (eval_child os tok js cl s)"
  by (rule table_run_post [OF table_run_addjob same_table_eval_child])

lemma table_run_eval_external: "table_run s (final (eval_external os tok bg cl s))"
proof -
  define p where "p = fork_ret os"
  define s2 where "s2 = (if p = 0 then eval_child os tok (if bg = 0 then FG else BG) cl (log_call (Fork p) s)
                         else log_call (Fork p) s)"
  have r2: "table_run s s2"
  proof (cases "p = 0")
    case True
    have "table_run (log_call (Fork p) s) s2"
      unfolding s2_def using True by (simp add: table_run_eval_child)
    then show ?thesis
      by (rule table_run_pre [rotated]) (simp add: same_table_def log_call_def)
  next
    case False
    then show ?thesis
      by (simp add: s2_def table_run_same same_table_def log_call_def)
  qed
  define s5 where "s5 = sigprocmask_unblock mask2
      (let s3 = snd (addjob p (if bg = 0 then FG else BG) cl (log_call (Addjob p) s2))
       in if bg = 0 then s3\<lparr>fg_pid := p\<rparr> else s3)"
  have "table_run (log_call (Addjob p) s2) (snd (addjob p (if bg = 0 then FG else BG) cl (log_call (Addjob p) s2)))"
    by (rule table_run_addjob)
  then have "table_run s2 (snd (addjob p (if bg = 0 then FG else BG) cl (log_call (Addjob p) s2)))"
    by (rule table_run_pre [rotated]) (simp add: same_table_def log_call_def)
  then have "table_run s2 s5"
    by (rule table_run_post)
       (simp add: s5_def Let_def same_table_def sigprocmask_unblock_def log_call_def)
  with r2 have r5: "table_run s s5" by (rule table_run_trans)
  have bgp: "table_run s5 (final (printjob p STDOUT_FILENO (sigprocmask_unblock mask_sigs s5)))"
    by (rule table_run_same)
       (use frame_table_print_with [of "''[''" _ p STDOUT_FILENO "sigprocmask_unblock mask_sigs s5"] in
        \<open>simp add: printjob_def same_table_def sigprocmask_unblock_def log_call_def\<close>)
  have "final (eval_external os tok bg cl s) = s2 \<or>
        final (eval_external os tok bg cl s) = final (eval_wait os p s5) \<or>
        final (eval_external os tok bg cl s) = final (printjob p STDOUT_FILENO (sigprocmask_unblock mask_sigs s5))"
    by (simp add: eval_external_def Let_def p_def s2_def s5_def)
  with r2 table_run_trans [OF r5 table_run_eval_wait [of s5 os p]] table_run_trans [OF r5 bgp]
  show ?thesis by auto
qed

lemma table_run_eval_builtin: "table_run s (final (eval_builtin os tok b s))"
proof (cases b)
  case BUILTIN_NONE
  then show ?thesis by (simp add: eval_builtin_def table_run_same same_table_refl)
next
  case BUILTIN_QUIT
  then show ?thesis
    by (simp add: eval_builtin_def Let_def table_run_same same_table_def log_call_def)
next
  case BUILTIN_JOBS
  have "table_run s (final (listjobs fd (log_call c s)))" for fd c
    by (rule table_run_same)
       (use same_table_listjobs [of fd "log_call c s"] in \<open>simp add: same_table_def log_call_def\<close>)
  moreover have "table_run s (final (listjobs fd s))" for fd
    by (rule table_run_same) (rule same_table_listjobs)
  ultimately show ?thesis
    using BUILTIN_JOBS by (simp add: eval_builtin_def split: option.splits)
next
  case BUILTIN_BG
  have k: "table_run x (final (andthen (change_job_state p BG x) (\<lambda>s. Return (log_call (Kill (- p) SIGCONT) s))))"
    for x p
    by (rule table_run_andthen [OF table_run_change])
       (simp add: table_run_same same_table_def log_call_def)
  have "table_run s (final (andthen (printjob p STDOUT_FILENO s)
                     (\<lambda>s. andthen (change_job_state p BG s)
                       (\<lambda>s. Return (log_call (Kill (- p) SIGCONT) s)))))" for p
    unfolding printjob_def by (rule table_run_print_then) (rule k)
  with BUILTIN_BG show ?thesis
    by (simp add: eval_builtin_def Let_def table_run_same same_table_refl split: list.splits)
next
  case BUILTIN_FG
  have "table_run x (final (andthen (change_job_state p FG x) (\<lambda>s. Return (log_call (Kill (- p) SIGCONT) s))))"
    for x p
    by (rule table_run_andthen [OF table_run_change])
       (simp add: table_run_same same_table_def log_call_def)
  with BUILTIN_FG show ?thesis
    by (simp add: eval_builtin_def Let_def table_run_same same_table_refl split: list.splits)
qed

lemma table_run_eval: "table_run s (final (eval os cl s))"
proof -
  define s2 where "s2 = sigprocmask_block mask_sigs ((log_call Getpid s)\<lparr>tsh_pid := getpid_ret os\<rparr>)"
  have st: "same_table s2 s"
    by (simp add: s2_def same_table_def sigprocmask_block_def log_call_def)
  have e: "table_run s2 (emit x s2)" for x
    by (rule table_run_same) (simp add: emit_def same_table_def)
  have "table_run s2 (final (eval os cl s))"
    unfolding eval_def Let_def s2_def [symmetric]
    by (simp add: e table_run_same same_table_refl table_run_eval_builtin table_run_eval_external
        split: sum.splits option.splits prod.splits)
  then show ?thesis by (rule table_run_pre [OF st])
qed

lemma jid_inv_same_table: "same_table s' s \<Longrightarrow> jid_inv s \<Longrightarrow> jid_inv s'"
  by (simp add: same_table_def jid_inv_def)

lemma jid_inv_table_run: "table_run s s' \<Longrightarrow> jid_inv s \<Longrightarrow> jid_inv s'"
  unfolding table_run_def run_def
  by (auto intro: jid_inv_same_table jid_inv_fold)

lemma jid_inv_eval: "jid_inv s \<Longrightarrow> jid_inv (final (eval os cl s))"
  using table_run_eval by (rule jid_inv_table_run)


lemma same_table_reap_notice: "same_table (final (reap_notice p st s)) s"
  by (cases st) (simp_all add: reap_notice_def print_sigint_job_def frame_table_print_with same_table_refl)

lemma table_run_sigchld_loop: "sigchld_loop answers s = Some r \<Longrightarrow> table_run s (final r)"
proof (induction answers s arbitrary: r rule: sigchld_loop.induct)
  case (1 s)
  then show ?case by simp
next
  case (2 p st answers s)
  define s1 where "s1 = log_call (Waitpid (- 1) WNOHANG) s"
  have st1: "same_table s1 s" by (simp add: s1_def same_table_def log_call_def)
  show ?case
  proof (cases "p > 0")
    case False
    with "2.prems" have "r = Return s1" by (simp add: s1_def)
    with st1 show ?thesis by (simp add: table_run_same)
  next
    case True
    note n = same_table_reap_notice [of p st s1]
    show ?thesis
    proof (cases "reap_notice p st s1")
      case (Return s2)
      define s3 where "s3 = snd (deletejob p (log_call (Deletejob p) s2))"
      from Return True "2.prems" have "sigchld_loop answers s3 = Some r"
        by (simp add: s1_def s3_def)
      from "2.IH" [OF True Return [unfolded s1_def] this [unfolded s3_def]]
      have r3: "table_run s3 (final r)" by (simp add: s3_def)
      from n Return st1 have "same_table (log_call (Deletejob p) s2) s"
        by (simp add: same_table_def log_call_def)
      from table_run_pre [OF this table_run_deletejob [of "log_call (Deletejob p) s2" p]]
      have "table_run s s3" by (simp add: s3_def)
      from this r3 show ?thesis by (rule table_run_trans)
    next
      case (Exit k x)
      with True "2.prems" have "r = Exit k x" by (simp add: s1_def)
      with n Exit st1 show ?thesis by (simp add: table_run_same same_table_def)
    next
      case (Replaced x)
      with True "2.prems" have "r = Replaced x" by (simp add: s1_def)
      with n Replaced st1 show ?thesis by (simp add: table_run_same same_table_def)
    next
      case (Undefined x)
      with True "2.prems" have "r = Undefined x" by (simp add: s1_def)
      with n Undefined st1 show ?thesis by (simp add: table_run_same same_table_def)
    qed
  qed
next
  case (3 answers s)
  then show ?case by (auto simp: table_run_same same_table_def log_call_def)
next
  case (4 e answers s)
  then show ?case by (auto simp: table_run_same same_table_def log_call_def)
qed

lemma table_run_sigchld_handler:
  assumes "sigchld_handler answers s = Some r"
  shows "table_run s (final r)"
proof (cases "sigchld_loop answers s")
  case None
  with assms show ?thesis by (simp add: sigchld_handler_def)
next
  case (Some r0)
  from table_run_sigchld_loop [OF Some] have t: "table_run s (final r0)" .
  show ?thesis
  proof (cases r0)
    case (Return s1)
    with Some assms have "final r = s1 \<or> final r = emit (Unix_error ''waitpid error'' (errno s1)) s1"
      by (auto simp: sigchld_handler_def unix_error_def split: if_splits)
    then have "same_table (final r) s1" by (auto simp: same_table_def emit_def)
    with t Return show ?thesis by (simp add: table_run_post)
  qed (use Some assms t in \<open>auto simp: sigchld_handler_def\<close>)
qed

lemma table_run_step: "step e s = Some r \<Longrightarrow> table_run s (final r)"
proof (cases e)
  case (Command os cl)
  then show "step e s = Some r \<Longrightarrow> table_run s (final r)"
    using table_run_eval [of s os cl] by auto
next
  case (Sigchld answers)
  then show "step e s = Some r \<Longrightarrow> table_run s (final r)"
    by (simp add: table_run_sigchld_handler)
next
  case (Sigint self)
  then show "step e s = Some r \<Longrightarrow> table_run s (final r)"
    by (auto simp: sigint_handler_def Let_def log_call_def same_table_def intro!: table_run_same)
next
  case (Sigtstp self)
  then show "step e s = Some r \<Longrightarrow> table_run s (final r)"
    by (auto simp: sigtstp_handler_def Let_def log_call_def same_table_def intro!: table_run_same)
qed

lemma table_run_events: "run_events es s = Some r \<Longrightarrow> table_run s (final r)"
proof (induction es arbitrary: s)
  case Nil
  then show ?case by (auto simp: table_run_same same_table_refl)
next
  case (Cons e es)
  show ?case
  proof (cases "step e s")
    case None
    with Cons.prems show ?thesis by simp
  next
    case (Some r0)
    note t0 = table_run_step [OF Some]
    show ?thesis
    proof (cases r0)
      case (Return s')
      with Some Cons.prems have "run_events es s' = Some r" by simp
      from Cons.IH [OF this] t0 Return show ?thesis
        by (auto intro: table_run_trans)
    qed (use Some Cons.prems t0 in auto)
  qed
qed

lemma reachable_jid_inv: "reachable s \<Longrightarrow> jid_inv s"
proof -
  assume "reachable s"
  then obtain es v r where r: "run_events es (shell0\<lparr>verbose := v\<rparr>) = Some r" "s = final r"
    by (auto simp: reachable_def)
  have "jid_inv (shell0\<lparr>verbose := v\<rparr>)"
    using jid_inv_shell0 by (simp add: jid_inv_def)
  with table_run_events [OF r(1)] r(2) show ?thesis
    by (auto intro: jid_inv_table_run)
qed


lemma reachable_after: "run_events es shell0 \<noteq> None \<Longrightarrow> reachable (after es shell0)"
proof -
  assume "run_events es shell0 \<noteq> None"
  then obtain r where r: "run_events es shell0 = Some r" by auto
  have "shell0 = shell0\<lparr>verbose := 0\<rparr>" by (simp add: shell0_def)
  with r have "run_events es (shell0\<lparr>verbose := 0\<rparr>) = Some r" by simp
  with r show ?thesis unfolding reachable_def after_def by auto
qed

text \<open>
  C7, as the code has it. In every reachable state the job ids of the live entries are
  at least 1. A successful \<^verbatim>\<open>addjob\<close> fills a free slot, gives the job the current value
  of \<^verbatim>\<open>nextjid\<close>, and advances \<^verbatim>\<open>nextjid\<close> by one, back to 1 when the new value would
  exceed \<open>MAXJOBS\<close>. A successful \<^verbatim>\<open>deletejob\<close> sets \<^verbatim>\<open>nextjid\<close> to one more than the
  largest job id of the live entries (to 1 when none is left).
\<close>

theorem C7_job_ids:
  assumes "reachable s"
  shows "(\<forall>j\<in>set (job_list s). pid j \<noteq> 0 \<longrightarrow> 1 \<le> jid j)
       \<and> (addjob p st cl s = (1, s1) \<longrightarrow>
            (\<exists>i<length (job_list s). pid (job_list s ! i) = 0 \<and>
               job_list s1 = (job_list s)[i := \<lparr>pid = p, jid = nextjid s, state = st, cmdline = cl\<rparr>])
            \<and> nextjid s1 = (if nextjid s + 1 > MAXJOBS then 1 else nextjid s + 1))
       \<and> (deletejob q s = (1, s2) \<longrightarrow> nextjid s2 = Max (insert 0 (set (live_jids s2))) + 1)"
proof (intro conjI impI)
  have inv: "jid_inv s"
    using assms by (rule reachable_jid_inv)
  then show "\<forall>j\<in>set (job_list s). pid j \<noteq> 0 \<longrightarrow> 1 \<le> jid j"
    by (auto simp: jid_inv_def split: if_splits)
  {
    assume a: "addjob p st cl s = (1, s1)"
    from addjob_assigns [OF a]
    show "\<exists>i<length (job_list s). pid (job_list s ! i) = 0 \<and>
            job_list s1 = (job_list s)[i := \<lparr>pid = p, jid = nextjid s, state = st, cmdline = cl\<rparr>]"
      by blast
    from addjob_assigns [OF a]
    show "nextjid s1 = (if nextjid s + 1 > MAXJOBS then 1 else nextjid s + 1)"
      by blast
  }
  {
    assume d: "deletejob q s = (1, s2)"
    from inv have "jid_inv (snd (deletejob q s))"
      by (rule jid_inv_deletejob)
    with d have "jid_inv s2" by simp
    from live_jids_Max [OF this] deletejob_recomputes [OF d]
    show "nextjid s2 = Max (insert 0 (set (live_jids s2))) + 1"
      by (simp add: maxjid_Max)
  }
qed

theorem C7_job_ids_witness:
  "reachable (after two_bg shell0)
   \<and> live_jids (after two_bg shell0) = [1, 2]
   \<and> fst (addjob 103 BG ''c'' (after two_bg shell0)) = 1
   \<and> nextjid (snd (addjob 103 BG ''c'' (after two_bg shell0))) = 4
   \<and> fst (deletejob 101 (after two_bg shell0)) = 1
   \<and> live_jids (snd (deletejob 101 (after two_bg shell0))) = [2]
   \<and> nextjid (snd (deletejob 101 (after two_bg shell0))) = 3"
proof -
  have "run_events two_bg shell0 \<noteq> None"
    by code_simp
  then have r: "reachable (after two_bg shell0)"
    by (rule reachable_after)
  have fa: "fst (addjob 103 BG ''c'' (after two_bg shell0)) = 1"
    by code_simp
  have fd: "fst (deletejob 101 (after two_bg shell0)) = 1"
    by code_simp
  have a: "addjob 103 BG ''c'' (after two_bg shell0) = (1, snd (addjob 103 BG ''c'' (after two_bg shell0)))"
    using fa by (simp add: prod_eq_iff)
  have d: "deletejob 101 (after two_bg shell0) = (1, snd (deletejob 101 (after two_bg shell0)))"
    using fd by (simp add: prod_eq_iff)
  have n: "nextjid (after two_bg shell0) = 3"
    by code_simp
  have l: "live_jids (after two_bg shell0) = [1, 2]"
    by code_simp
  have l2: "live_jids (snd (deletejob 101 (after two_bg shell0))) = [2]"
    by code_simp
  from C7_job_ids [OF r, of 103 BG "''c''" "snd (addjob 103 BG ''c'' (after two_bg shell0))"
      101 "snd (deletejob 101 (after two_bg shell0))"] a d
  have "nextjid (snd (addjob 103 BG ''c'' (after two_bg shell0)))
          = (if nextjid (after two_bg shell0) + 1 > MAXJOBS then 1 else nextjid (after two_bg shell0) + 1)"
    and "nextjid (snd (deletejob 101 (after two_bg shell0)))
          = Max (insert 0 (set (live_jids (snd (deletejob 101 (after two_bg shell0)))))) + 1"
    by blast+
  with r fa fd n l l2 show ?thesis by simp
qed

text \<open>
  C7 as the specification states it fails in both of its further parts. In the run
  \<open>gap_events\<close> (two background jobs, the first one exits and is reaped, a third one is
  launched) the shell is back in its loop with the live job ids 3 and 2: the id 1 is
  unused, and the new job did not get the smallest unused id. In the run \<open>dup_events\<close>
  (three background jobs, the second one exits and is reaped, fourteen more are
  launched) the sixteen live entries carry the job id 1 twice.
\<close>

theorem C7_ids_not_minimal_not_distinct:
  "(case run_events gap_events shell0 of
      Some (Return s) \<Rightarrow> live_jids s = [3, 2]
    | _ \<Rightarrow> False)
   \<and> (case run_events dup_events shell0 of
        Some (Return s) \<Rightarrow> live_jids s = [1, 4, 3, 5, 6, 7, 8, 9, 10, 11, 12, 13, 14, 15, 16, 1]
      | _ \<Rightarrow> False)"
  by code_simp

section \<open>The foreground wait\<close>

lemma first_index_update_fresh:
  assumes "i < length xs" "P y" "\<forall>x\<in>set xs. \<not> P x"
  shows "first_index P (xs[i := y]) = Some i"
proof (rule first_index_eq)
  show "i < length (xs[i := y])" using assms(1) by simp
  show "P (xs[i := y] ! i)" using assms(1,2) by simp
  show "\<forall>k<i. \<not> P (xs[i := y] ! k)"
    using assms(1,3) by (auto simp: nth_list_update)
qed

lemma addjob_free:
  assumes "1 \<le> p" "first_index (\<lambda>j. pid j = 0) (job_list s) = Some i" "verbose s = 0"
  shows "addjob p st cl s =
     (1, s\<lparr>job_list := (job_list s)[i := \<lparr>pid = p, jid = nextjid s, state = st, cmdline = cl\<rparr>],
           nextjid := (if nextjid s + 1 > MAXJOBS then 1 else nextjid s + 1)\<rparr>)"
  using assms by (simp add: addjob_def Let_def)

lemma deletejob_present:
  assumes "1 \<le> p" "first_index (\<lambda>j. pid j = p) (job_list s) = Some i"
  shows "deletejob p s =
     (1, s\<lparr>job_list := (job_list s)[i := clearjob],
           nextjid := maxjid ((job_list s)[i := clearjob]) + 1\<rparr>)"
  using assms by (simp add: deletejob_def Let_def)

lemma print_with_stdout:
  assumes "pid2jid p s = k" "k \<noteq> 0" "first_index (\<lambda>j. jid j = k) (job_list s) = Some i"
    "STDOUT_FILENO \<notin> bad_fds s"
  shows "print_with pre line p STDOUT_FILENO s =
     Return (s\<lparr>out := out s @ [Write STDOUT_FILENO (pre @ show_int k @ ''] ('' @ show_int p @ '') ''),
                                Write STDOUT_FILENO (line (job_list s ! i))]\<rparr>)"
  using assms
  by (simp add: print_with_def Let_def write_fd_def andthen_def emit_def close_unless_stdout_def)


lemma frame_refl: "frame s s"
  by (simp add: frame_def)

lemma frame_trans: "frame s s1 \<Longrightarrow> frame s1 s2 \<Longrightarrow> frame s s2"
  by (simp add: frame_def)

lemma final_andthen:
  "final (andthen r k) = (case r of Return s \<Rightarrow> final (k s) | _ \<Rightarrow> final r)"
  by (cases r) (simp_all add: andthen_def)

lemma print_with_stdout_frame: "frame s (final (print_with pre line p STDOUT_FILENO s))"
  by (simp add: print_with_def Let_def job_not_present_def write_fd_def andthen_def emit_def
      close_unless_stdout_def frame_def)

lemma print_sigtstp_job_frame: "frame s (final (print_sigtstp_job p sg STDOUT_FILENO s))"
  by (simp add: print_sigtstp_job_def print_with_stdout_frame)

lemma print_sigint_job_frame: "frame s (final (print_sigint_job p sg STDOUT_FILENO s))"
  by (simp add: print_sigint_job_def print_with_stdout_frame)

lemma printjob_frame: "frame s (final (printjob p STDOUT_FILENO s))"
  by (simp add: printjob_def print_with_stdout_frame)

lemma change_job_state_frame: "frame s (final (change_job_state p st s))"
  by (simp add: change_job_state_def Let_def job_not_present_def emit_def frame_def
      split: option.splits)

lemma deletejob_frame: "frame s (snd (deletejob p s))"
  by (simp add: deletejob_def Let_def frame_def split: option.splits)

lemma deletejob_out: "out (snd (deletejob p s)) = out s"
  by (simp add: deletejob_def Let_def split: option.splits)

lemma addjob_frame: "frame s (snd (addjob p st cl s))"
  by (simp add: addjob_def Let_def emit_def frame_def split: option.splits)

lemma trace_finish_fg:
  "trace (final (finish_fg p x)) = trace x @ [(Deletejob p, blocked x), (Sigprocmask_unblock mask_sigs, blocked x)]"
  using deletejob_frame [of "log_call (Deletejob p) x" p]
  by (simp add: finish_fg_def sigprocmask_unblock_def log_call_def frame_def)

lemma trace_eval_wait:
  "\<exists>post. trace (final (eval_wait os p s)) = trace s @ (Waitpid p WUNTRACED, blocked s) # post
      \<and> (post = [] \<or> post = [(Deletejob p, blocked s), (Sigprocmask_unblock mask_sigs, blocked s)])"
proof -
  define s2 where "s2 = wait_errno (wait_ret os) (log_call (Waitpid p WUNTRACED) s)"
  have t2: "trace s2 = trace s @ [(Waitpid p WUNTRACED, blocked s)]" and b2: "blocked s2 = blocked s"
    by (simp_all add: s2_def wait_errno_def log_call_def split: wait_ret.splits)
  have stop: "trace (final (andthen (print_sigtstp_job p SIGTSTP STDOUT_FILENO s2) (change_job_state p ST))) = trace s2"
  proof (cases "print_sigtstp_job p SIGTSTP STDOUT_FILENO s2")
    case (Return x)
    with print_sigtstp_job_frame [of s2 p SIGTSTP] have "frame s2 x"
      by simp
    with change_job_state_frame [of x p ST] Return show ?thesis
      by (simp add: final_andthen frame_def)
  qed (use print_sigtstp_job_frame [of s2 p SIGTSTP] in
       \<open>simp_all add: final_andthen frame_def\<close>)
  have sig: "\<exists>post. trace (final (andthen (print_sigint_job p sg STDOUT_FILENO s2) (finish_fg p))) = trace s2 @ post
      \<and> (post = [] \<or> post = [(Deletejob p, blocked s), (Sigprocmask_unblock mask_sigs, blocked s)])" for sg
  proof (cases "print_sigint_job p sg STDOUT_FILENO s2")
    case (Return x)
    with print_sigint_job_frame [of s2 p sg] have "frame s2 x"
      by simp
    with Return b2 show ?thesis
      by (simp add: final_andthen trace_finish_fg frame_def)
  qed (use print_sigint_job_frame [of s2 p sg] in
       \<open>simp_all add: final_andthen frame_def\<close>)
  have "\<exists>post. trace (final (eval_wait os p s)) = trace s2 @ post
      \<and> (post = [] \<or> post = [(Deletejob p, blocked s), (Sigprocmask_unblock mask_sigs, blocked s)])"
    unfolding eval_wait_def Let_def s2_def [symmetric]
    using stop sig trace_finish_fg [of p s2] b2
    by (auto simp: unix_error_def emit_def split: option.splits wstatus.splits)
  then show ?thesis
    by (simp add: t2)
qed


lemma eval_fg_external:
  assumes "parseline (Some cl) = Inr (0, tok)" "builtins tok = Some BUILTIN_NONE" "argv tok \<noteq> []"
    "fork_ret os = p" "p \<noteq> 0"
  shows "eval os cl s = eval_wait os p (sigprocmask_unblock mask2
           ((snd (addjob p FG cl (log_call (Addjob p) (log_call (Fork p)
              (sigprocmask_block mask_sigs ((log_call Getpid s)\<lparr>tsh_pid := getpid_ret os\<rparr>))))))
            \<lparr>fg_pid := p\<rparr>))"
  using assms by (simp add: eval_def eval_external_def Let_def)

lemma trace_eval_fg:
  assumes "parseline (Some cl) = Inr (0, tok)" "builtins tok = Some BUILTIN_NONE" "argv tok \<noteq> []"
    and "fork_ret os = p" "p \<noteq> 0"
  shows "\<exists>post. trace (final (eval os cl s)) =
           trace s @ [(Getpid, blocked s),
                      (Sigprocmask_block mask_sigs, blocked s),
                      (Fork p, blocked s \<union> mask_sigs),
                      (Addjob p, blocked s \<union> mask_sigs),
                      (Sigprocmask_unblock mask2, blocked s \<union> mask_sigs),
                      (Waitpid p WUNTRACED, (blocked s \<union> mask_sigs) - mask2)] @ post
         \<and> (post = [] \<or>
              post = [(Deletejob p, (blocked s \<union> mask_sigs) - mask2),
                      (Sigprocmask_unblock mask_sigs, (blocked s \<union> mask_sigs) - mask2)])"
proof -
  define s3 where "s3 = log_call (Addjob p) (log_call (Fork p)
              (sigprocmask_block mask_sigs ((log_call Getpid s)\<lparr>tsh_pid := getpid_ret os\<rparr>)))"
  define s5 where "s5 = sigprocmask_unblock mask2 ((snd (addjob p FG cl s3))\<lparr>fg_pid := p\<rparr>)"
  have t3: "trace s3 = trace s @ [(Getpid, blocked s), (Sigprocmask_block mask_sigs, blocked s),
                      (Fork p, blocked s \<union> mask_sigs), (Addjob p, blocked s \<union> mask_sigs)]"
    and b3: "blocked s3 = blocked s \<union> mask_sigs"
    by (simp_all add: s3_def log_call_def sigprocmask_block_def)
  from addjob_frame [of s3 p FG cl] t3 b3
  have t5: "trace s5 = trace s @ [(Getpid, blocked s), (Sigprocmask_block mask_sigs, blocked s),
                      (Fork p, blocked s \<union> mask_sigs), (Addjob p, blocked s \<union> mask_sigs),
                      (Sigprocmask_unblock mask2, blocked s \<union> mask_sigs)]"
    and b5: "blocked s5 = (blocked s \<union> mask_sigs) - mask2"
    by (simp_all add: s5_def frame_def log_call_def sigprocmask_unblock_def)
  have "eval os cl s = eval_wait os p s5"
    unfolding s5_def s3_def using assms by (rule eval_fg_external)
  with trace_eval_wait [of os p s5] t5 b5 show ?thesis
    by auto
qed

text \<open>
  C5. In the evaluation of a foreground command that is not a builtin, by the process
  in which \<^verbatim>\<open>fork\<close> did not return 0, the calls are, in this order: \<^verbatim>\<open>getpid\<close>; the
  blocking of \<^verbatim>\<open>SIGCHLD\<close>, \<^verbatim>\<open>SIGINT\<close> and \<^verbatim>\<open>SIGTSTP\<close>; \<^verbatim>\<open>fork\<close>; the registration
  \<^verbatim>\<open>addjob\<close>; the unblocking of \<^verbatim>\<open>SIGINT\<close> and \<^verbatim>\<open>SIGTSTP\<close> only; \<^verbatim>\<open>waitpid\<close>; and then
  either nothing more, or \<^verbatim>\<open>deletejob\<close> and the unblocking of the three signals. Each
  call is stamped with the signals blocked when it is made: \<^verbatim>\<open>SIGCHLD\<close> is blocked at the
  registration, at the wait and at every later call, so its handler cannot run until
  the last of them has been made; \<^verbatim>\<open>SIGINT\<close> and \<^verbatim>\<open>SIGTSTP\<close> are unblocked at the wait.
\<close>

theorem C5_sigchld_blocked:
  assumes "parseline (Some cl) = Inr (0, tok)" "builtins tok = Some BUILTIN_NONE" "argv tok \<noteq> []"
    and "fork_ret os = p" "p \<noteq> 0"
  shows "\<exists>post. trace (final (eval os cl s)) =
           trace s @ [(Getpid, blocked s),
                      (Sigprocmask_block mask_sigs, blocked s),
                      (Fork p, blocked s \<union> mask_sigs),
                      (Addjob p, blocked s \<union> mask_sigs),
                      (Sigprocmask_unblock mask2, blocked s \<union> mask_sigs),
                      (Waitpid p WUNTRACED, (blocked s \<union> mask_sigs) - mask2)] @ post
         \<and> (post = [] \<or>
              post = [(Deletejob p, (blocked s \<union> mask_sigs) - mask2),
                      (Sigprocmask_unblock mask_sigs, (blocked s \<union> mask_sigs) - mask2)])
         \<and> SIGCHLD \<in> blocked s \<union> mask_sigs
         \<and> SIGCHLD \<in> (blocked s \<union> mask_sigs) - mask2
         \<and> SIGINT \<notin> (blocked s \<union> mask_sigs) - mask2
         \<and> SIGTSTP \<notin> (blocked s \<union> mask_sigs) - mask2"
proof -
  have "SIGCHLD \<in> blocked s \<union> mask_sigs" "SIGCHLD \<in> (blocked s \<union> mask_sigs) - mask2"
    "SIGINT \<notin> (blocked s \<union> mask_sigs) - mask2" "SIGTSTP \<notin> (blocked s \<union> mask_sigs) - mask2"
    by (simp_all add: mask_sigs_def mask2_def)
  with trace_eval_fg [OF assms, of s] show ?thesis
    by blast
qed

theorem C5_sigchld_blocked_witness:
  "parseline (Some ''/bin/cat'') = Inr (0, tok_cat) \<and> builtins tok_cat = Some BUILTIN_NONE
   \<and> argv tok_cat \<noteq> [] \<and> fork_ret os_exit = 77 \<and> (77::int) \<noteq> 0
   \<and> trace (final (eval os_exit ''/bin/cat'' shell0)) =
        [(Getpid, {}),
         (Sigprocmask_block mask_sigs, {}),
         (Fork 77, mask_sigs),
         (Addjob 77, mask_sigs),
         (Sigprocmask_unblock mask2, mask_sigs),
         (Waitpid 77 WUNTRACED, {SIGCHLD}),
         (Deletejob 77, {SIGCHLD}),
         (Sigprocmask_unblock mask_sigs, {SIGCHLD})]"
proof -
  have h1: "parseline (Some ''/bin/cat'') = Inr (0, tok_cat)"
    by code_simp
  have h2: "builtins tok_cat = Some BUILTIN_NONE" and h3: "argv tok_cat \<noteq> []"
    by (simp_all add: tok_cat_def)
  have h4: "fork_ret os_exit = 77" and h5: "(77::int) \<noteq> 0"
    by (simp_all add: os_exit_def)
  have n: "length (trace (final (eval os_exit ''/bin/cat'' shell0))) = 8"
    by code_simp
  have m: "blocked shell0 = {}" "trace shell0 = []" "mask_sigs - mask2 = {SIGCHLD}"
    by (auto simp: shell0_def mask_sigs_def mask2_def)
  from C5_sigchld_blocked [OF h1 h2 h3 h4 h5, of shell0] n
  have "trace (final (eval os_exit ''/bin/cat'' shell0)) =
        [(Getpid, {}),
         (Sigprocmask_block mask_sigs, {}),
         (Fork 77, mask_sigs),
         (Addjob 77, mask_sigs),
         (Sigprocmask_unblock mask2, mask_sigs),
         (Waitpid 77 WUNTRACED, {SIGCHLD}),
         (Deletejob 77, {SIGCHLD}),
         (Sigprocmask_unblock mask_sigs, {SIGCHLD})]"
    by (auto simp: m)
  with h1 h2 h3 h4 h5 show ?thesis by blast
qed


lemma pid2jid_present:
  assumes "1 \<le> p" "first_index (\<lambda>j. pid j = p) (job_list s) = Some i"
  shows "pid2jid p s = jid (job_list s ! i)"
  using assms by (simp add: pid2jid_def)

lemma pid2jid_cong: "job_list s' = job_list s \<Longrightarrow> pid2jid p s' = pid2jid p s"
  by (auto simp: pid2jid_def split: option.splits)

lemma change_job_state_present:
  assumes "pid2jid p s = k" "k \<noteq> 0" "first_index (\<lambda>j. jid j = k) (job_list s) = Some i"
  shows "change_job_state p st s =
           Return (s\<lparr>job_list := (job_list s)[i := (job_list s ! i)\<lparr>state := st\<rparr>]\<rparr>)"
  using assms by (simp add: change_job_state_def Let_def)

text \<open>
  C4, as the code has it. Take a foreground command that is not a builtin, evaluated by
  the shell (\<^verbatim>\<open>fork\<close> returned the child's pid \<open>p\<close>, at least 1) in a state where the job
  list has a free slot (the first one is slot \<open>i\<close>), no entry has the pid \<open>p\<close> or the job
  id \<^verbatim>\<open>nextjid\<close>, \<^verbatim>\<open>nextjid\<close> is not 0, the shell is not verbose, and writing to the
  standard output succeeds. Then \<^verbatim>\<open>eval\<close> calls \<^verbatim>\<open>waitpid\<close> once, for the pid \<open>p\<close> with \<^verbatim>\<open>WUNTRACED\<close>.
  If the child stopped, \<^verbatim>\<open>eval\<close> returns, the job is in slot \<open>i\<close> with state \<open>ST\<close>, and
  the stop notice has been written. If a signal terminated it, \<^verbatim>\<open>eval\<close> returns, the
  termination notice has been written, and no entry has the pid \<open>p\<close>. If it exited,
  \<^verbatim>\<open>eval\<close> returns, nothing has been written, and no entry has the pid \<open>p\<close>.
\<close>

theorem C4_foreground_wait:
  assumes parse: "parseline (Some cl) = Inr (0, tok)" "builtins tok = Some BUILTIN_NONE" "argv tok \<noteq> []"
    and fork: "fork_ret os = p" "1 \<le> p"
    and free: "first_index (\<lambda>j. pid j = 0) (job_list s) = Some i"
    and fresh: "p \<notin> set (map pid (job_list s))" "nextjid s \<notin> set (map jid (job_list s))"
    and next_id: "nextjid s \<noteq> 0"
    and quiet: "verbose s = 0"
    and wr: "STDOUT_FILENO \<notin> bad_fds s"
  shows "waits (final (eval os cl s)) = waits s @ [Waitpid p WUNTRACED]
       \<and> (wait_ret os = Wait_pid p (WStopped sg) \<longrightarrow>
            (\<exists>s'. eval os cl s = Return s'
               \<and> job_list s' = (job_list s)[i := \<lparr>pid = p, jid = nextjid s, state = ST, cmdline = cl\<rparr>]
               \<and> out s' = out s @
                    [Write STDOUT_FILENO (''Job ['' @ show_int (nextjid s) @ ''] ('' @ show_int p @ '') ''),
                     Write STDOUT_FILENO (''stopped by signal '' @ show_int SIGTSTP @ [CHR 0x0A])]))
       \<and> (wait_ret os = Wait_pid p (WSignaled sg) \<longrightarrow>
            (\<exists>s'. eval os cl s = Return s'
               \<and> job_list s' = (job_list s)[i := clearjob]
               \<and> p \<notin> set (map pid (job_list s'))
               \<and> out s' = out s @
                    [Write STDOUT_FILENO (''Job ['' @ show_int (nextjid s) @ ''] ('' @ show_int p @ '') ''),
                     Write STDOUT_FILENO (''terminated by signal '' @ show_int sg @ [CHR 0x0A])]))
       \<and> (wait_ret os = Wait_pid p (WExited code) \<longrightarrow>
            (\<exists>s'. eval os cl s = Return s'
               \<and> job_list s' = (job_list s)[i := clearjob]
               \<and> p \<notin> set (map pid (job_list s'))
               \<and> out s' = out s))"
proof -
  define new where "new = \<lparr>pid = p, jid = nextjid s, state = FG, cmdline = cl\<rparr>"
  define s3 where "s3 = log_call (Addjob p) (log_call (Fork p)
              (sigprocmask_block mask_sigs ((log_call Getpid s)\<lparr>tsh_pid := getpid_ret os\<rparr>)))"
  define s5 where "s5 = sigprocmask_unblock mask2 ((snd (addjob p FG cl s3))\<lparr>fg_pid := p\<rparr>)"
  define s6 where "s6 = log_call (Waitpid p WUNTRACED) s5"
  from fork have p0: "p \<noteq> 0" by simp
  have ev: "eval os cl s = eval_wait os p s5"
    unfolding s5_def s3_def using parse fork(1) p0 by (rule eval_fg_external)
  from first_index_Some [OF free] have i: "i < length (job_list s)" by simp
  have j3: "job_list s3 = job_list s" "verbose s3 = 0" "nextjid s3 = nextjid s" "out s3 = out s"
    "bad_fds s3 = bad_fds s"
    using quiet by (simp_all add: s3_def log_call_def sigprocmask_block_def)
  from addjob_free [OF fork(2), of s3 i FG cl] free j3
  have a: "addjob p FG cl s3 = (1, s3\<lparr>job_list := (job_list s)[i := new],
           nextjid := (if nextjid s + 1 > MAXJOBS then 1 else nextjid s + 1)\<rparr>)"
    by (simp add: new_def)
  have j6: "job_list s6 = (job_list s)[i := new]" "out s6 = out s" "bad_fds s6 = bad_fds s"
    using a j3 by (simp_all add: s6_def s5_def log_call_def sigprocmask_unblock_def)
  have fp: "first_index (\<lambda>j. pid j = p) (job_list s6) = Some i"
    unfolding j6 using i fresh(1) by (intro first_index_update_fresh) (auto simp: new_def)
  from fresh(2) have nj: "\<forall>x\<in>set (job_list s). jid x \<noteq> nextjid s"
    by (metis image_eqI list.set_map)
  have fj: "first_index (\<lambda>j. jid j = nextjid s) (job_list s6) = Some i"
    unfolding j6 using i nj by (intro first_index_update_fresh) (auto simp: new_def)
  from pid2jid_present [OF fork(2) fp] i have k: "pid2jid p s6 = nextjid s"
    by (simp add: j6 new_def)
  note k0 = next_id
  have w6: "STDOUT_FILENO \<notin> bad_fds s6" using wr by (simp add: j6)
  have pr: "print_with ''Job ['' line p STDOUT_FILENO s6 =
     Return (s6\<lparr>out := out s @ [Write STDOUT_FILENO (''Job ['' @ show_int (nextjid s) @ ''] ('' @ show_int p @ '') ''),
                                Write STDOUT_FILENO (line (job_list s6 ! i))]\<rparr>)" for line
    using print_with_stdout [OF k k0 fj w6, of "''Job [''" line] by (simp add: j6)
  have del: "snd (deletejob p (log_call (Deletejob p) x)) =
      (log_call (Deletejob p) x)\<lparr>job_list := (job_list s)[i := clearjob],
           nextjid := maxjid ((job_list s)[i := clearjob]) + 1\<rparr>"
    if "job_list x = job_list s6" for x
  proof -
    from that fp have "first_index (\<lambda>j. pid j = p) (job_list (log_call (Deletejob p) x)) = Some i"
      by (simp add: log_call_def)
    from deletejob_present [OF fork(2) this] that show ?thesis
      by (simp add: log_call_def j6)
  qed
  have gone: "p \<notin> set (map pid ((job_list s)[i := clearjob]))"
  proof
    assume "p \<in> set (map pid ((job_list s)[i := clearjob]))"
    then obtain j where "j \<in> set ((job_list s)[i := clearjob])" "pid j = p" by auto
    with set_update_cases [of j "job_list s" i clearjob] fresh(1) fork(2) show False
      by (auto simp: clearjob_def)
  qed
  have w: "waits (final (eval os cl s)) = waits s @ [Waitpid p WUNTRACED]"
  proof -
    from trace_eval_fg [OF parse fork(1) p0, of s] obtain post where
      t: "trace (final (eval os cl s)) =
           trace s @ [(Getpid, blocked s),
                      (Sigprocmask_block mask_sigs, blocked s),
                      (Fork p, blocked s \<union> mask_sigs),
                      (Addjob p, blocked s \<union> mask_sigs),
                      (Sigprocmask_unblock mask2, blocked s \<union> mask_sigs),
                      (Waitpid p WUNTRACED, (blocked s \<union> mask_sigs) - mask2)] @ post"
      and "post = [] \<or>
              post = [(Deletejob p, (blocked s \<union> mask_sigs) - mask2),
                      (Sigprocmask_unblock mask_sigs, (blocked s \<union> mask_sigs) - mask2)]"
      by blast
    then show ?thesis
      by (auto simp: waits_def)
  qed
  have stop: "\<exists>s'. eval os cl s = Return s'
               \<and> job_list s' = (job_list s)[i := \<lparr>pid = p, jid = nextjid s, state = ST, cmdline = cl\<rparr>]
               \<and> out s' = out s @
                    [Write STDOUT_FILENO (''Job ['' @ show_int (nextjid s) @ ''] ('' @ show_int p @ '') ''),
                     Write STDOUT_FILENO (''stopped by signal '' @ show_int SIGTSTP @ [CHR 0x0A])]"
    if wt: "wait_ret os = Wait_pid p (WStopped sg)"
  proof -
    define s7 where "s7 = s6\<lparr>out := out s @ [Write STDOUT_FILENO (''Job ['' @ show_int (nextjid s) @ ''] ('' @ show_int p @ '') ''),
                                Write STDOUT_FILENO (''stopped by signal '' @ show_int SIGTSTP @ [CHR 0x0A])]\<rparr>"
    have p7: "print_sigtstp_job p SIGTSTP STDOUT_FILENO s6 = Return s7"
      by (simp add: print_sigtstp_job_def pr s7_def)
    have j7: "job_list s7 = job_list s6" by (simp add: s7_def)
    have "pid2jid p s7 = nextjid s" "first_index (\<lambda>j. jid j = nextjid s) (job_list s7) = Some i"
      using k fj pid2jid_cong [OF j7] by (simp_all add: j7)
    from change_job_state_present [OF this(1) k0 this(2), of ST]
    have "change_job_state p ST s7 = Return (s7\<lparr>job_list := (job_list s7)[i := (job_list s7 ! i)\<lparr>state := ST\<rparr>]\<rparr>)" .
    with p7 wt fork(2) have "eval os cl s = Return (s7\<lparr>job_list := (job_list s7)[i := (job_list s7 ! i)\<lparr>state := ST\<rparr>]\<rparr>)"
      by (simp add: ev eval_wait_def Let_def wait_check_def wait_status_def wait_errno_def
          s6_def [symmetric] andthen_def)
    moreover have "(job_list s7)[i := (job_list s7 ! i)\<lparr>state := ST\<rparr>]
        = (job_list s)[i := \<lparr>pid = p, jid = nextjid s, state = ST, cmdline = cl\<rparr>]"
      using i by (simp add: s7_def j6 new_def)
    ultimately show ?thesis by (simp add: s7_def)
  qed
  have sig: "\<exists>s'. eval os cl s = Return s'
               \<and> job_list s' = (job_list s)[i := clearjob]
               \<and> p \<notin> set (map pid (job_list s'))
               \<and> out s' = out s @
                    [Write STDOUT_FILENO (''Job ['' @ show_int (nextjid s) @ ''] ('' @ show_int p @ '') ''),
                     Write STDOUT_FILENO (''terminated by signal '' @ show_int sg @ [CHR 0x0A])]"
    if wt: "wait_ret os = Wait_pid p (WSignaled sg)"
  proof -
    define s7 where "s7 = s6\<lparr>out := out s @ [Write STDOUT_FILENO (''Job ['' @ show_int (nextjid s) @ ''] ('' @ show_int p @ '') ''),
                                Write STDOUT_FILENO (''terminated by signal '' @ show_int sg @ [CHR 0x0A])]\<rparr>"
    have p7: "print_sigint_job p sg STDOUT_FILENO s6 = Return s7"
      by (simp add: print_sigint_job_def pr s7_def)
    have "job_list s7 = job_list s6" by (simp add: s7_def)
    from del [OF this] p7 wt fork(2)
    have "eval os cl s = Return (sigprocmask_unblock mask_sigs ((log_call (Deletejob p) s7)\<lparr>job_list := (job_list s)[i := clearjob],
           nextjid := maxjid ((job_list s)[i := clearjob]) + 1\<rparr>))"
      by (simp add: ev eval_wait_def Let_def wait_check_def wait_status_def wait_errno_def
          s6_def [symmetric] andthen_def finish_fg_def)
    with gone show ?thesis
      by (simp add: sigprocmask_unblock_def log_call_def s7_def)
  qed
  have ex: "\<exists>s'. eval os cl s = Return s'
               \<and> job_list s' = (job_list s)[i := clearjob]
               \<and> p \<notin> set (map pid (job_list s'))
               \<and> out s' = out s"
    if wt: "wait_ret os = Wait_pid p (WExited code)"
  proof -
    from del [OF refl] wt fork(2)
    have "eval os cl s = Return (sigprocmask_unblock mask_sigs ((log_call (Deletejob p) s6)\<lparr>job_list := (job_list s)[i := clearjob],
           nextjid := maxjid ((job_list s)[i := clearjob]) + 1\<rparr>))"
      by (simp add: ev eval_wait_def Let_def wait_check_def wait_status_def wait_errno_def
          s6_def [symmetric] andthen_def finish_fg_def)
    with gone show ?thesis
      by (simp add: sigprocmask_unblock_def log_call_def j6)
  qed
  from w stop sig ex show ?thesis by blast
qed


theorem C4_foreground_wait_witness:
  "parseline (Some ''/bin/cat'') = Inr (0, tok_cat) \<and> builtins tok_cat = Some BUILTIN_NONE
   \<and> argv tok_cat \<noteq> [] \<and> fork_ret os_stop = 77 \<and> fork_ret os_sig = 77 \<and> fork_ret os_exit = 77
   \<and> (1::int) \<le> 77
   \<and> first_index (\<lambda>j. pid j = 0) (job_list shell0) = Some 0
   \<and> 77 \<notin> set (map pid (job_list shell0))
   \<and> nextjid shell0 \<notin> set (map jid (job_list shell0))
   \<and> nextjid shell0 \<noteq> 0 \<and> verbose shell0 = 0 \<and> STDOUT_FILENO \<notin> bad_fds shell0
   \<and> wait_ret os_stop = Wait_pid 77 (WStopped 20)
   \<and> wait_ret os_sig = Wait_pid 77 (WSignaled 2)
   \<and> wait_ret os_exit = Wait_pid 77 (WExited 0)
   \<and> waits (final (eval os_stop ''/bin/cat'' shell0)) = [Waitpid 77 WUNTRACED]
   \<and> (\<exists>s'. eval os_stop ''/bin/cat'' shell0 = Return s'
         \<and> job_list s' = (job_list shell0)[0 := \<lparr>pid = 77, jid = 1, state = ST, cmdline = ''/bin/cat''\<rparr>]
         \<and> out s' = [Write STDOUT_FILENO ''Job [1] (77) '',
                      Write STDOUT_FILENO (''stopped by signal 20'' @ [CHR 0x0A])])
   \<and> (\<exists>s'. eval os_sig ''/bin/cat'' shell0 = Return s'
         \<and> job_list s' = job_list shell0
         \<and> 77 \<notin> set (map pid (job_list s'))
         \<and> out s' = [Write STDOUT_FILENO ''Job [1] (77) '',
                      Write STDOUT_FILENO (''terminated by signal 2'' @ [CHR 0x0A])])
   \<and> (\<exists>s'. eval os_exit ''/bin/cat'' shell0 = Return s'
         \<and> job_list s' = job_list shell0
         \<and> 77 \<notin> set (map pid (job_list s'))
         \<and> out s' = [])"
proof -
  have h1: "parseline (Some ''/bin/cat'') = Inr (0, tok_cat)"
    by code_simp
  have h2: "builtins tok_cat = Some BUILTIN_NONE" and h3: "argv tok_cat \<noteq> []"
    by (simp_all add: tok_cat_def)
  have f: "fork_ret os_stop = 77" "fork_ret os_sig = 77" "fork_ret os_exit = 77"
    and w: "wait_ret os_stop = Wait_pid 77 (WStopped 20)" "wait_ret os_sig = Wait_pid 77 (WSignaled 2)"
      "wait_ret os_exit = Wait_pid 77 (WExited 0)"
    by (simp_all add: os_stop_def os_sig_def os_exit_def)
  have one: "(1::int) \<le> 77" by simp
  have free: "first_index (\<lambda>j. pid j = 0) (job_list shell0) = Some 0"
    by code_simp
  have fresh: "77 \<notin> set (map pid (job_list shell0))" "nextjid shell0 \<notin> set (map jid (job_list shell0))"
    by (simp_all add: shell0_def clearjob_def)
  have q: "verbose shell0 = 0" "STDOUT_FILENO \<notin> bad_fds shell0"
    and nz: "nextjid shell0 \<noteq> 0"
    by (simp_all add: shell0_def)
  have e: "waits shell0 = []" "out shell0 = []" "nextjid shell0 = 1"
    "(job_list shell0)[0 := clearjob] = job_list shell0"
    by (simp_all add: shell0_def waits_def list_update_same_conv)
  have sh: "show_int 1 = ''1''" "show_int 77 = ''77''" "show_int 20 = ''20''" "show_int 2 = ''2''"
    by code_simp+
  note t = C4_foreground_wait [OF h1 h2 h3 _ one free fresh nz q]
  from t [OF f(1), where sg = 20] w(1) have
    a: "waits (final (eval os_stop ''/bin/cat'' shell0)) = [Waitpid 77 WUNTRACED]"
    and b: "\<exists>s'. eval os_stop ''/bin/cat'' shell0 = Return s'
         \<and> job_list s' = (job_list shell0)[0 := \<lparr>pid = 77, jid = 1, state = ST, cmdline = ''/bin/cat''\<rparr>]
         \<and> out s' = [Write STDOUT_FILENO ''Job [1] (77) '',
                      Write STDOUT_FILENO (''stopped by signal 20'' @ [CHR 0x0A])]"
    by (simp_all add: e sh)
  from t [OF f(2), where sg = 2] w(2) have
    c: "\<exists>s'. eval os_sig ''/bin/cat'' shell0 = Return s'
         \<and> job_list s' = job_list shell0
         \<and> 77 \<notin> set (map pid (job_list s'))
         \<and> out s' = [Write STDOUT_FILENO ''Job [1] (77) '',
                      Write STDOUT_FILENO (''terminated by signal 2'' @ [CHR 0x0A])]"
    by (simp add: e sh)
  from t [OF f(3), where code = 0] w(3) have
    d: "\<exists>s'. eval os_exit ''/bin/cat'' shell0 = Return s'
         \<and> job_list s' = job_list shell0
         \<and> 77 \<notin> set (map pid (job_list s'))
         \<and> out s' = []"
    by (simp add: e)
  from h1 h2 h3 f one free fresh nz q w a b c d show ?thesis
    by blast
qed

text \<open>
  C4 as the specification states it fails when the job list is full: the foreground
  job is then not registered, and when it stops the shell prints
  \<^verbatim>\<open>Job not present in job list\<close> and exits with status 1; no stop notice is written and
  no entry holds the pid.
\<close>

theorem C4_stopped_job_on_full_table:
  "reachable full_shell
   \<and> 0 \<notin> set (map pid (job_list full_shell))
   \<and> parseline (Some ''/bin/cat'') = Inr (0, tok_cat)
   \<and> (case eval (os0\<lparr>fork_ret := 300, wait_ret := Wait_pid 300 (WStopped 20)\<rparr>) ''/bin/cat'' full_shell of
         Exit n s' \<Rightarrow> n = 1 \<and> 300 \<notin> set (map pid (job_list s'))
           \<and> drop (length (out full_shell)) (out s')
               = [Printf (''Tried to create too many jobs'' @ [CHR 0x0A]),
                  Stderr (''Job not present in job list'' @ [CHR 0x0A])]
       | _ \<Rightarrow> False)"
proof -
  have "run_events (map bg_launch sixteen) shell0 \<noteq> None"
    by code_simp
  then have "reachable (after (map bg_launch sixteen) shell0)"
    by (rule reachable_after)
  then have "reachable full_shell"
    by (simp add: full_shell_def)
  moreover have "0 \<notin> set (map pid (job_list full_shell))
   \<and> parseline (Some ''/bin/cat'') = Inr (0, tok_cat)
   \<and> (case eval (os0\<lparr>fork_ret := 300, wait_ret := Wait_pid 300 (WStopped 20)\<rparr>) ''/bin/cat'' full_shell of
         Exit n s' \<Rightarrow> n = 1 \<and> 300 \<notin> set (map pid (job_list s'))
           \<and> drop (length (out full_shell)) (out s')
               = [Printf (''Tried to create too many jobs'' @ [CHR 0x0A]),
                  Stderr (''Job not present in job list'' @ [CHR 0x0A])]
       | _ \<Rightarrow> False)"
    by code_simp
  ultimately show ?thesis by blast
qed

section \<open>A failing \<^verbatim>\<open>execve\<close>, and two foreground jobs\<close>

text \<open>
  C2. The code at a failing input of the claim: in the child (\<^verbatim>\<open>fork\<close> returned 0) of the
  foreground command \<^verbatim>\<open>/no/such/program\<close>, \<^verbatim>\<open>execve\<close> fails. The child does not
  terminate: after \<^verbatim>\<open>Execve\<close> it runs the code written for the parent (\<^verbatim>\<open>addjob\<close> with
  pid 0, \<^verbatim>\<open>waitpid\<close> on pid 0, \<^verbatim>\<open>deletejob\<close>), and \<^verbatim>\<open>eval\<close> returns to the read/eval loop.
\<close>

theorem C2_child_returns_after_failed_exec:
  "(case eval os_exec_fails ''/no/such/program'' shell0 of
      Return s \<Rightarrow> map fst (trace s) =
        [Getpid, Sigprocmask_block mask_sigs, Fork 0, Setpgid 0 0, Signal_dfl SIGINT, Getpid, Addjob 50,
         Sigprocmask_unblock mask_sigs, Execve ''/no/such/program'' [''/no/such/program''],
         Addjob 0, Sigprocmask_unblock mask2, Waitpid 0 WUNTRACED, Deletejob 0,
         Sigprocmask_unblock mask_sigs]
    | _ \<Rightarrow> False)"
  by code_simp

text \<open>
  C3. The code at a failing input of the claim: after the command lines
  \<^verbatim>\<open>sleep 100 &\<close>, \<^verbatim>\<open>sleep 200 &\<close>, \<^verbatim>\<open>fg %1\<close> and \<^verbatim>\<open>fg %2\<close> the shell is back in its loop and
  the job list has two entries in state \<open>FG\<close>, those of the pids 100 and 101.
\<close>

theorem C3_two_foreground_jobs:
  "(case run_events two_fg shell0 of
      Some (Return s) \<Rightarrow> map pid (fg_jobs s) = [100, 101] \<and> map state (fg_jobs s) = [FG, FG]
    | _ \<Rightarrow> False)"
  by code_simp

section \<open>The command line parser: the background flag\<close>

lemma tokenize_Nil: "tokenize [] ps tok = Inr (ps, tok)"
  by (simp add: tokenize.simps)

lemma plain_dropWhile: "plain w \<Longrightarrow> dropWhile (\<lambda>c. c \<in> set delims) (w @ r) = w @ r"
  by (cases w) (auto simp: plain_def)

lemma plain_takeWhile:
  "plain w \<Longrightarrow> r = [] \<or> hd r \<in> set delims \<Longrightarrow> takeWhile (\<lambda>c. c \<notin> set delims) (w @ r) = w"
  by (cases r) (auto simp: plain_def takeWhile_append2)

text \<open>One round of the loop, for white space, for a redirection sign, and for a word.\<close>

lemma tokenize_blank:
  assumes "blank sp"
  shows "tokenize (sp @ r) ps tok = tokenize r ps tok"
proof -
  from assms have d: "dropWhile (\<lambda>c. c \<in> set delims) (sp @ r) = dropWhile (\<lambda>c. c \<in> set delims) r"
    by (simp add: blank_def)
  show ?thesis
    by (rule trans [OF tokenize.simps [of "sp @ r"]], rule trans [OF _ tokenize.simps [of r, symmetric]])
       (simp only: d)
qed

lemma tokenize_less:
  assumes "infile tok = None"
  shows "tokenize (CHR ''<'' # r) ST_NORMAL tok = tokenize r ST_INFILE tok"
  using assms by (subst tokenize.simps) (simp add: delims_def Let_def)

lemma tokenize_greater:
  assumes "outfile tok = None"
  shows "tokenize (CHR ''>'' # r) ST_NORMAL tok = tokenize r ST_OUTFILE tok"
  using assms by (subst tokenize.simps) (simp add: delims_def Let_def)

lemma tokenize_plain_step:
  assumes "plain w" "x = [] \<or> hd x \<in> set delims" "ps = ST_NORMAL \<or> ps = ST_INFILE \<or> ps = ST_OUTFILE"
    "length (argv (store ps w tok)) < MAXARGS - 1"
  shows "tokenize (w @ x) ps tok = tokenize (tl x) ST_NORMAL (store ps w tok)"
proof -
  have d: "dropWhile (\<lambda>c. c \<in> set delims) (w @ x) = w @ x"
    using assms(1) by (rule plain_dropWhile)
  have t: "takeWhile (\<lambda>c. c \<notin> set delims) (w @ x) = w"
    using assms(1,2) by (rule plain_takeWhile)
  from assms(1) have h: "hd (w @ x) = hd w" "w \<noteq> []"
    by (auto simp: plain_def)
  from assms(1) have k: "hd w \<noteq> CHR ''<''" "hd w \<noteq> CHR ''>''" "\<not> is_quote (hd w)"
    by (simp_all add: plain_def)
  have r: "drop (length w + 1) (w @ x) = tl x"
    by (simp add: drop_Suc)
  have u: "tokenize (w @ x) ps tok =
     (if ps \<noteq> ST_NORMAL \<and> ps \<noteq> ST_INFILE \<and> ps \<noteq> ST_OUTFILE
      then Inl Ambiguous_redirection
      else
        (let tok' = (if ps = ST_NORMAL then tok\<lparr>argv := argv tok @ [w]\<rparr>
                     else if ps = ST_INFILE then tok\<lparr>infile := Some w\<rparr>
                     else tok\<lparr>outfile := Some w\<rparr>)
         in if length (argv tok') \<ge> MAXARGS - 1 then Inr (ST_NORMAL, tok')
            else tokenize (tl x) ST_NORMAL tok'))"
    apply (subst tokenize.simps)
    apply (simp only: d Let_def)
    apply (simp only: t h k r if_False simp_thms append_is_Nil_conv)
    done
  show ?thesis
    using assms(3,4) unfolding u store_def Let_def by auto
qed

lemma tokenize_plain:
  assumes "plain w" "blank sp" "sp \<noteq> [] \<or> r = []" "ps = ST_NORMAL \<or> ps = ST_INFILE \<or> ps = ST_OUTFILE"
    "length (argv (store ps w tok)) < MAXARGS - 1"
  shows "tokenize (w @ sp @ r) ps tok = tokenize r ST_NORMAL (store ps w tok)"
proof -
  from assms(2,3) have e: "sp @ r = [] \<or> hd (sp @ r) \<in> set delims"
    by (cases sp) (auto simp: blank_def)
  have r: "tokenize (tl (sp @ r)) ST_NORMAL tk = tokenize r ST_NORMAL tk" for tk
  proof (cases sp)
    case Nil
    with assms(3) show ?thesis by (simp add: tokenize_Nil)
  next
    case (Cons c cs)
    with assms(2) have "blank cs" by (simp add: blank_def)
    from tokenize_blank [OF this] Cons show ?thesis by simp
  qed
  from tokenize_plain_step [OF assms(1) e assms(4,5)] show ?thesis
    by (simp only: r)
qed

lemma tokenize_quoted:
  assumes "is_quote q" "q \<notin> set w" "ps = ST_NORMAL \<or> ps = ST_INFILE \<or> ps = ST_OUTFILE"
    "length (argv (store ps w tok)) < MAXARGS - 1"
  shows "tokenize (q # w @ q # r) ps tok = tokenize r ST_NORMAL (store ps w tok)"
proof -
  from assms(1) have d: "dropWhile (\<lambda>c. c \<in> set delims) (q # w @ q # r) = q # w @ q # r"
    and k: "q \<noteq> CHR ''<''" "q \<noteq> CHR ''>''"
    by (auto simp: is_quote_def delims_def)
  have t: "takeWhile (\<lambda>c. c \<noteq> q) (w @ q # r) = w"
    using assms(2) by (induction w) auto
  have dr: "drop (length w + 1) (w @ q # r) = r"
    by simp
  have m: "q \<in> set (w @ q # r)"
    by simp
  have u: "tokenize (q # w @ q # r) ps tok =
     (if ps \<noteq> ST_NORMAL \<and> ps \<noteq> ST_INFILE \<and> ps \<noteq> ST_OUTFILE
      then Inl Ambiguous_redirection
      else
        (let tok' = (if ps = ST_NORMAL then tok\<lparr>argv := argv tok @ [w]\<rparr>
                     else if ps = ST_INFILE then tok\<lparr>infile := Some w\<rparr>
                     else tok\<lparr>outfile := Some w\<rparr>)
         in if length (argv tok') \<ge> MAXARGS - 1 then Inr (ST_NORMAL, tok')
            else tokenize r ST_NORMAL tok'))"
    apply (subst tokenize.simps)
    apply (simp only: d Let_def list.sel)
    apply (simp only: t k dr m assms(1) if_False if_True simp_thms list.simps)
    done
  show ?thesis
    using assms(3,4) unfolding u store_def Let_def by auto
qed

lemma tokenize_word:
  assumes "word_ok w" "blank sp" "is_plain w \<longrightarrow> sp \<noteq> [] \<or> r = []"
    "ps = ST_NORMAL \<or> ps = ST_INFILE \<or> ps = ST_OUTFILE"
    "length (argv (store ps (word_value w) tok)) < MAXARGS - 1"
  shows "tokenize (word_text w @ sp @ r) ps tok = tokenize r ST_NORMAL (store ps (word_value w) tok)"
proof (cases w)
  case (Plain v)
  with assms show ?thesis
    by (simp add: tokenize_plain)
next
  case (Quoted q v)
  with assms(1,4,5) have "tokenize (q # v @ q # sp @ r) ps tok = tokenize (sp @ r) ST_NORMAL (store ps v tok)"
    by (intro tokenize_quoted) simp_all
  also have "\<dots> = tokenize r ST_NORMAL (store ps v tok)"
    using assms(2) by (rule tokenize_blank)
  finally show ?thesis
    using Quoted by simp
qed

lemma tokenize_token:
  assumes "token_ok t" "blank sp" "is_plain (token_word t) \<longrightarrow> sp \<noteq> [] \<or> r = []"
    "length (argv tok) + length (arg_of t) < MAXARGS - 1"
    "infile_of t \<noteq> [] \<longrightarrow> infile tok = None" "outfile_of t \<noteq> [] \<longrightarrow> outfile tok = None"
  shows "tokenize (token_text t @ sp @ r) ST_NORMAL tok = tokenize r ST_NORMAL (put t tok)"
proof (cases t)
  case (Arg w)
  with assms have "tokenize (word_text w @ sp @ r) ST_NORMAL tok
      = tokenize r ST_NORMAL (store ST_NORMAL (word_value w) tok)"
    by (intro tokenize_word) (simp_all add: store_def)
  with Arg show ?thesis
    by (simp add: store_def)
next
  case (In_file gap w)
  with assms have n: "infile tok = None" and g: "blank gap"
    by simp_all
  have "tokenize (CHR ''<'' # gap @ word_text w @ sp @ r) ST_NORMAL tok
      = tokenize (gap @ word_text w @ sp @ r) ST_INFILE tok"
    using n by (rule tokenize_less)
  also have "\<dots> = tokenize (word_text w @ sp @ r) ST_INFILE tok"
    using g by (rule tokenize_blank)
  also from In_file assms have "\<dots> = tokenize r ST_NORMAL (store ST_INFILE (word_value w) tok)"
    by (intro tokenize_word) (simp_all add: store_def)
  finally show ?thesis
    using In_file by (simp add: store_def)
next
  case (Out_file gap w)
  with assms have n: "outfile tok = None" and g: "blank gap"
    by simp_all
  have "tokenize (CHR ''>'' # gap @ word_text w @ sp @ r) ST_NORMAL tok
      = tokenize (gap @ word_text w @ sp @ r) ST_OUTFILE tok"
    using n by (rule tokenize_greater)
  also have "\<dots> = tokenize (word_text w @ sp @ r) ST_OUTFILE tok"
    using g by (rule tokenize_blank)
  also from Out_file assms have "\<dots> = tokenize r ST_NORMAL (store ST_OUTFILE (word_value w) tok)"
    by (intro tokenize_word) (simp_all add: store_def)
  finally show ?thesis
    using Out_file by (simp add: store_def)
qed

text \<open>
  The loop over a whole line: it ends in the normal state, with the argument words of
  the line in \<^verbatim>\<open>argv\<close> and the redirection targets in \<^verbatim>\<open>infile\<close> and \<^verbatim>\<open>outfile\<close>.
\<close>

lemma tokenize_line:
  assumes "line_ok ts" "length (argv tok) + length (args_of ts) < MAXARGS - 1"
    "infiles_of ts = [] \<or> infile tok = None \<and> length (infiles_of ts) = 1"
    "outfiles_of ts = [] \<or> outfile tok = None \<and> length (outfiles_of ts) = 1"
  shows "tokenize (line_of ts) ST_NORMAL tok =
           Inr (ST_NORMAL, tok\<lparr>argv := argv tok @ args_of ts,
                  infile := (if infiles_of ts = [] then infile tok else Some (hd (infiles_of ts))),
                  outfile := (if outfiles_of ts = [] then outfile tok else Some (hd (outfiles_of ts)))\<rparr>)"
  using assms
proof (induction ts arbitrary: tok)
  case Nil
  then show ?case
    by (simp add: tokenize_Nil args_of_def infiles_of_def outfiles_of_def)
next
  case (Cons a ts)
  obtain t sp where a: "a = (t, sp)" by (cases a)
  from Cons.prems(1) have ok: "token_ok t" "blank sp" "line_ok ts"
    and pl: "is_plain (token_word t) \<longrightarrow> sp \<noteq> [] \<or> line_of ts = []"
    by (cases ts; simp add: a)+
  have ar: "args_of (a # ts) = arg_of t @ args_of ts"
    and inf: "infiles_of (a # ts) = infile_of t @ infiles_of ts"
    and outf: "outfiles_of (a # ts) = outfile_of t @ outfiles_of ts"
    by (simp_all add: a args_of_def infiles_of_def outfiles_of_def)
  have step: "tokenize (line_of (a # ts)) ST_NORMAL tok = tokenize (line_of ts) ST_NORMAL (put t tok)"
    unfolding a line_of.simps using ok(1,2) pl
  proof (rule tokenize_token)
    show "length (argv tok) + length (arg_of t) < MAXARGS - 1"
      using Cons.prems(2) by (simp add: ar)
    show "infile_of t \<noteq> [] \<longrightarrow> infile tok = None"
      using Cons.prems(3) by (auto simp: inf)
    show "outfile_of t \<noteq> [] \<longrightarrow> outfile tok = None"
      using Cons.prems(4) by (auto simp: outf)
  qed
  have ih: "tokenize (line_of ts) ST_NORMAL (put t tok) =
           Inr (ST_NORMAL, (put t tok)\<lparr>argv := argv (put t tok) @ args_of ts,
                  infile := (if infiles_of ts = [] then infile (put t tok) else Some (hd (infiles_of ts))),
                  outfile := (if outfiles_of ts = [] then outfile (put t tok) else Some (hd (outfiles_of ts)))\<rparr>)"
    using ok(3)
  proof (rule Cons.IH)
    show "length (argv (put t tok)) + length (args_of ts) < MAXARGS - 1"
      using Cons.prems(2) by (cases t) (simp_all add: ar)
    show "infiles_of ts = [] \<or> infile (put t tok) = None \<and> length (infiles_of ts) = 1"
      using Cons.prems(3) by (cases t) (auto simp: inf)
    show "outfiles_of ts = [] \<or> outfile (put t tok) = None \<and> length (outfiles_of ts) = 1"
      using Cons.prems(4) by (cases t) (auto simp: outf)
  qed
  show ?case
    unfolding step ih using Cons.prems(3,4) by (cases t) (simp_all add: ar inf outf)
qed

text \<open>
  C9, as the code has it. Take a command line shorter than \<open>MAXLINE\<close> that is made of
  tokens separated by white space (and may begin with white space): argument words,
  plain or quoted, at least one and at most 126 of them (\<open>MAXARGS - 2\<close>), and at most one
  redirection of the input and one of the output, each with its file name. Then
  \<^verbatim>\<open>parseline\<close> returns 1 if the last argument word begins with the character \<^verbatim>\<open>&\<close>, and
  0 otherwise. In the first case the argument vector is the argument words of the line
  without the last one, in the second it is all of them. The words after redirection
  signs are not argument words: they are the redirection targets.
\<close>

theorem C9_background_flag:
  assumes "blank lead" "line_ok ts" "length (lead @ line_of ts) < MAXLINE"
    and "args_of ts \<noteq> []" "length (args_of ts) < MAXARGS - 1"
    and "length (infiles_of ts) \<le> 1" "length (outfiles_of ts) \<le> 1"
  shows "parseline (Some (lead @ line_of ts)) =
           Inr (if take 1 (last (args_of ts)) = ''&'' then 1 else 0,
                \<lparr>argv = (if take 1 (last (args_of ts)) = ''&'' then butlast (args_of ts) else args_of ts),
                 infile = (if infiles_of ts = [] then None else Some (hd (infiles_of ts))),
                 outfile = (if outfiles_of ts = [] then None else Some (hd (outfiles_of ts))),
                 builtins = Some (classify (hd (args_of ts)))\<rparr>)"
proof -
  have "tokenize (lead @ line_of ts) ST_NORMAL empty_tok = tokenize (line_of ts) ST_NORMAL empty_tok"
    using assms(1) by (rule tokenize_blank)
  also have "\<dots> = Inr (ST_NORMAL, empty_tok\<lparr>argv := argv empty_tok @ args_of ts,
                  infile := (if infiles_of ts = [] then infile empty_tok else Some (hd (infiles_of ts))),
                  outfile := (if outfiles_of ts = [] then outfile empty_tok else Some (hd (outfiles_of ts)))\<rparr>)"
    using assms(2)
  proof (rule tokenize_line)
    show "length (argv empty_tok) + length (args_of ts) < MAXARGS - 1"
      using assms(5) by (simp add: empty_tok_def)
    show "infiles_of ts = [] \<or> infile empty_tok = None \<and> length (infiles_of ts) = 1"
      using assms(6) by (cases "infiles_of ts") (simp_all add: empty_tok_def)
    show "outfiles_of ts = [] \<or> outfile empty_tok = None \<and> length (outfiles_of ts) = 1"
      using assms(7) by (cases "outfiles_of ts") (simp_all add: empty_tok_def)
  qed
  finally have "tokenize (lead @ line_of ts) ST_NORMAL empty_tok =
      Inr (ST_NORMAL, \<lparr>argv = args_of ts,
                  infile = (if infiles_of ts = [] then None else Some (hd (infiles_of ts))),
                  outfile = (if outfiles_of ts = [] then None else Some (hd (outfiles_of ts))),
                  builtins = None\<rparr>)"
    by (simp add: empty_tok_def)
  with assms(3,4) show ?thesis
    by (simp add: parseline_def Let_def)
qed

theorem C9_background_flag_witness:
  "blank '' '' \<and> line_ok sleep_line \<and> length ('' '' @ line_of sleep_line) < MAXLINE
   \<and> args_of sleep_line = [''sleep'', ''5 6'', ''&''] \<and> length (args_of sleep_line) < MAXARGS - 1
   \<and> length (infiles_of sleep_line) \<le> 1 \<and> length (outfiles_of sleep_line) \<le> 1
   \<and> '' '' @ line_of sleep_line = '' sleep '' @ [CHR 0x22] @ ''5 6'' @ [CHR 0x22] @ ''> out  &''
   \<and> parseline (Some ('' sleep '' @ [CHR 0x22] @ ''5 6'' @ [CHR 0x22] @ ''> out  &'')) =
        Inr (1, \<lparr>argv = [''sleep'', ''5 6''], infile = None, outfile = Some ''out'',
                  builtins = Some BUILTIN_NONE\<rparr>)
   \<and> blank [] \<and> line_ok ls_line \<and> length ([] @ line_of ls_line) < MAXLINE
   \<and> args_of ls_line = [''ls'', ''x&''] \<and> length (args_of ls_line) < MAXARGS - 1
   \<and> length (infiles_of ls_line) \<le> 1 \<and> length (outfiles_of ls_line) \<le> 1
   \<and> line_of ls_line = ''ls <names'' @ [CHR 0x09] @ ''x& ''
   \<and> parseline (Some (''ls <names'' @ [CHR 0x09] @ ''x& '')) =
        Inr (0, \<lparr>argv = [''ls'', ''x&''], infile = Some ''names'', outfile = None,
                  builtins = Some BUILTIN_NONE\<rparr>)"
proof -
  have a: "blank '' ''" "line_ok sleep_line" "length ('' '' @ line_of sleep_line) < MAXLINE"
    "args_of sleep_line \<noteq> []" "length (args_of sleep_line) < MAXARGS - 1"
    "length (infiles_of sleep_line) \<le> 1" "length (outfiles_of sleep_line) \<le> 1"
    by code_simp+
  have a': "args_of sleep_line = [''sleep'', ''5 6'', ''&'']" "infiles_of sleep_line = []"
    "outfiles_of sleep_line = [''out'']"
    "'' '' @ line_of sleep_line = '' sleep '' @ [CHR 0x22] @ ''5 6'' @ [CHR 0x22] @ ''> out  &''"
    by code_simp+
  have b: "blank []" "line_ok ls_line" "length ([] @ line_of ls_line) < MAXLINE"
    "args_of ls_line \<noteq> []" "length (args_of ls_line) < MAXARGS - 1"
    "length (infiles_of ls_line) \<le> 1" "length (outfiles_of ls_line) \<le> 1"
    by code_simp+
  have b': "args_of ls_line = [''ls'', ''x&'']" "infiles_of ls_line = [''names'']"
    "outfiles_of ls_line = []"
    "line_of ls_line = ''ls <names'' @ [CHR 0x09] @ ''x& ''"
    by code_simp+
  from C9_background_flag [OF a] have
    "parseline (Some ('' sleep '' @ [CHR 0x22] @ ''5 6'' @ [CHR 0x22] @ ''> out  &'')) =
        Inr (1, \<lparr>argv = [''sleep'', ''5 6''], infile = None, outfile = Some ''out'',
                  builtins = Some BUILTIN_NONE\<rparr>)"
    unfolding a' by (simp add: classify_def)
  moreover from C9_background_flag [OF b] have
    "parseline (Some (''ls <names'' @ [CHR 0x09] @ ''x& '')) =
        Inr (0, \<lparr>argv = [''ls'', ''x&''], infile = Some ''names'', outfile = None,
                  builtins = Some BUILTIN_NONE\<rparr>)"
    unfolding b' by (simp add: classify_def)
  ultimately show ?thesis
    using a b a' b' by simp
qed

text \<open>
  C9 as the specification states it fails. The last token of \<^verbatim>\<open>ls &x\<close> is not the single
  character \<^verbatim>\<open>&\<close>, and \<^verbatim>\<open>parseline\<close> returns 1 and removes the token. The last token of
  \<^verbatim>\<open>ls > &\<close> is the single character \<^verbatim>\<open>&\<close>, and \<^verbatim>\<open>parseline\<close> returns 0: the token is
  the redirection target. On a line of 126 words \<^verbatim>\<open>a\<close> followed by \<^verbatim>\<open>&\<close>, \<^verbatim>\<open>b\<close> and \<^verbatim>\<open>c\<close> the
  loop stops at the 127th token, and \<^verbatim>\<open>parseline\<close> returns 1 although the last token is
  \<^verbatim>\<open>c\<close>. On the empty line, which has no token, it returns 1.
\<close>

theorem C9_flag_differs_from_last_token:
  "parseline (Some ''ls &x'') =
     Inr (1, \<lparr>argv = [''ls''], infile = None, outfile = None, builtins = Some BUILTIN_NONE\<rparr>)
   \<and> parseline (Some ''ls > &'') =
     Inr (0, \<lparr>argv = [''ls''], infile = None, outfile = Some ''&'', builtins = Some BUILTIN_NONE\<rparr>)
   \<and> parseline (Some (join (replicate 126 ''a'' @ [''&'', ''b'', ''c'']))) =
     Inr (1, \<lparr>argv = replicate 126 ''a'', infile = None, outfile = None, builtins = Some BUILTIN_NONE\<rparr>)
   \<and> parseline (Some []) = Inr (1, empty_tok)"
  by code_simp
section \<open>The handler of \<^verbatim>\<open>SIGCHLD\<close>\<close>

lemma unix_errors_print_with: "unix_errors (final (print_with pre line p fd s)) = unix_errors s"
  by (simp add: print_with_def Let_def job_not_present_def write_fd_def andthen_def emit_def
      close_unless_stdout_def unix_errors_def log_call_def)

lemma job_list_print_with: "job_list (final (print_with pre line p fd s)) = job_list s"
  by (simp add: print_with_def Let_def job_not_present_def write_fd_def andthen_def emit_def
      close_unless_stdout_def log_call_def)

lemma nextjid_print_with: "nextjid (final (print_with pre line p fd s)) = nextjid s"
  by (simp add: print_with_def Let_def job_not_present_def write_fd_def andthen_def emit_def
      close_unless_stdout_def log_call_def)

lemma reap_notice_frame:
  "frame s (final (reap_notice p st s)) \<and> unix_errors (final (reap_notice p st s)) = unix_errors s
   \<and> job_list (final (reap_notice p st s)) = job_list s
   \<and> nextjid (final (reap_notice p st s)) = nextjid s"
  by (cases st)
     (simp_all add: reap_notice_def print_sigint_job_def unix_errors_print_with job_list_print_with
        nextjid_print_with print_with_stdout_frame frame_refl)

lemma job_list_deletejob_cong:
  "job_list s = job_list t \<Longrightarrow> job_list (snd (deletejob p s)) = job_list (snd (deletejob p t))"
  by (simp add: deletejob_def Let_def split: option.splits)

lemma job_list_reap_cong:
  "job_list s = job_list t \<Longrightarrow>
     job_list (fold (\<lambda>(p, st) s. snd (deletejob p s)) reaped s)
   = job_list (fold (\<lambda>(p, st) s. snd (deletejob p s)) reaped t)"
proof (induction reaped arbitrary: s t)
  case Nil
  then show ?case by simp
next
  case (Cons a reaped)
  obtain p st where a: "a = (p, st)" by (cases a)
  from Cons.prems have "job_list (snd (deletejob p s)) = job_list (snd (deletejob p t))"
    by (rule job_list_deletejob_cong)
  from Cons.IH [OF this] show ?case by (simp add: a)
qed

lemma sigchld_loop_reaped:
  assumes "\<forall>(p, st)\<in>set reaped. 0 < p"
  shows "\<exists>r. sigchld_loop (reaped_answers reaped e) s = Some r
           \<and> unix_errors (final r) = unix_errors s
           \<and> (\<forall>s'. r = Return s' \<longrightarrow>
                 errno s' = e
               \<and> map fst (trace s') = map fst (trace s) @ reap_calls reaped
               \<and> job_list s' = job_list (fold (\<lambda>(p, st) s. snd (deletejob p s)) reaped s))"
  using assms
proof (induction reaped arbitrary: s)
  case Nil
  then show ?case
    by (simp add: reaped_answers_def reap_calls_def log_call_def unix_errors_def)
next
  case (Cons a reaped)
  obtain p st where a: "a = (p, st)" by (cases a)
  with Cons.prems have p: "0 < p" and rest: "\<forall>(p, st)\<in>set reaped. 0 < p"
    by simp_all
  define s1 where "s1 = log_call (Waitpid (- 1) WNOHANG) s"
  have step: "sigchld_loop (reaped_answers (a # reaped) e) s =
     (case reap_notice p st s1 of
        Return s2 \<Rightarrow> sigchld_loop (reaped_answers reaped e) (snd (deletejob p (log_call (Deletejob p) s2)))
      | other \<Rightarrow> Some other)"
    using p by (simp add: reaped_answers_def a s1_def split: outcome.splits)
  note fr = reap_notice_frame [of s1 p st]
  have u1: "unix_errors s1 = unix_errors s" by (simp add: s1_def log_call_def unix_errors_def)
  show ?case
  proof (cases "reap_notice p st s1")
    case (Return s2)
    define s3 where "s3 = snd (deletejob p (log_call (Deletejob p) s2))"
    from fr Return have f2: "frame s1 s2" "unix_errors s2 = unix_errors s1" "job_list s2 = job_list s1"
      by simp_all
    have u3: "unix_errors s3 = unix_errors s"
      using f2(2) u1 deletejob_out [of p "log_call (Deletejob p) s2"]
      by (simp add: s3_def unix_errors_def log_call_def)
    have t3: "map fst (trace s3) = map fst (trace s) @ [Waitpid (- 1) WNOHANG, Deletejob p]"
      using f2(1) deletejob_frame [of "log_call (Deletejob p) s2" p]
      by (simp add: s3_def frame_def log_call_def s1_def)
    have j3: "job_list s3 = job_list (snd (deletejob p s))"
      using f2(3) by (simp add: s3_def s1_def log_call_def deletejob_def Let_def split: option.splits)
    from job_list_reap_cong [OF j3, of reaped]
    have n3: "job_list (fold (\<lambda>(p, st) s. snd (deletejob p s)) reaped s3)
        = job_list (fold (\<lambda>(p, st) s. snd (deletejob p s)) (a # reaped) s)"
      by (simp add: a)
    from Cons.IH [OF rest, of s3] obtain r where
      r: "sigchld_loop (reaped_answers reaped e) s3 = Some r" "unix_errors (final r) = unix_errors s3"
        "\<forall>s'. r = Return s' \<longrightarrow> errno s' = e
               \<and> map fst (trace s') = map fst (trace s3) @ reap_calls reaped
               \<and> job_list s' = job_list (fold (\<lambda>(p, st) s. snd (deletejob p s)) reaped s3)"
      by blast
    have "sigchld_loop (reaped_answers (a # reaped) e) s = Some r"
      using step Return r(1) by (simp add: s3_def)
    moreover have "unix_errors (final r) = unix_errors s"
      using r(2) u3 by simp
    moreover have "\<forall>s'. r = Return s' \<longrightarrow> errno s' = e
               \<and> map fst (trace s') = map fst (trace s) @ reap_calls (a # reaped)
               \<and> job_list s' = job_list (fold (\<lambda>(p, st) s. snd (deletejob p s)) (a # reaped) s)"
    proof (intro allI impI)
      fix s' assume "r = Return s'"
      with r(3) have e: "errno s' = e"
        and t: "map fst (trace s') = map fst (trace s3) @ reap_calls reaped"
        and j: "job_list s' = job_list (fold (\<lambda>(p, st) s. snd (deletejob p s)) reaped s3)"
        by blast+
      from t t3 have "map fst (trace s') = map fst (trace s) @ reap_calls (a # reaped)"
        by (simp add: reap_calls_def a)
      moreover from j n3
      have "job_list s' = job_list (fold (\<lambda>(p, st) s. snd (deletejob p s)) (a # reaped) s)"
        by (simp only:)
      ultimately show "errno s' = e
               \<and> map fst (trace s') = map fst (trace s) @ reap_calls (a # reaped)
               \<and> job_list s' = job_list (fold (\<lambda>(p, st) s. snd (deletejob p s)) (a # reaped) s)"
        using e by blast
    qed
    ultimately show ?thesis by blast
  next
    case (Exit n x)
    with step fr u1 show ?thesis by simp
  next
    case (Replaced x)
    with step fr u1 show ?thesis by simp
  next
    case (Undefined x)
    with step fr u1 show ?thesis by simp
  qed
qed


lemma sigchld_loop_known:
  assumes "\<forall>(p, st)\<in>set reaped. p \<in> set (map pid (job_list s)) \<and> 0 < p"
    and "distinct (map fst reaped)" "jid_inv s" "STDOUT_FILENO \<notin> bad_fds s"
  shows "\<exists>s'. sigchld_loop (reaped_answers reaped e) s = Some (Return s')"
  using assms
proof (induction reaped arbitrary: s)
  case Nil
  then show ?case by (simp add: reaped_answers_def)
next
  case (Cons a reaped)
  obtain p st where a: "a = (p, st)" by (cases a)
  with Cons.prems have p: "0 < p" and known: "p \<in> set (map pid (job_list s))"
    by simp_all
  define s1 where "s1 = log_call (Waitpid (- 1) WNOHANG) s"
  have j1: "job_list s1 = job_list s" "bad_fds s1 = bad_fds s"
    by (simp_all add: s1_def log_call_def)
  from known have "first_index (\<lambda>j. pid j = p) (job_list s) \<noteq> None"
    by (auto simp: first_index_None)
  then obtain i where i: "first_index (\<lambda>j. pid j = p) (job_list s) = Some i" by auto
  from first_index_Some [OF i] have ii: "i < length (job_list s)" "pid (job_list s ! i) = p"
    by simp_all
  from ii have mem: "job_list s ! i \<in> set (job_list s)" by simp
  with Cons.prems(3) ii(2) p have "1 \<le> jid (job_list s ! i)"
    unfolding jid_inv_def by (metis less_irrefl)
  with p i have k: "pid2jid p s1 \<noteq> 0" and k': "pid2jid p s1 = jid (job_list s ! i)"
    by (simp_all add: pid2jid_def j1)
  from mem k' have "\<exists>x\<in>set (job_list s1). jid x = pid2jid p s1"
    unfolding j1 by metis
  then have "first_index (\<lambda>j. jid j = pid2jid p s1) (job_list s1) \<noteq> None"
    unfolding first_index_None by blast
  then obtain m where m: "first_index (\<lambda>j. jid j = pid2jid p s1) (job_list s1) = Some m" by auto
  have w1: "STDOUT_FILENO \<notin> bad_fds s1" using Cons.prems(4) by (simp add: j1)
  from print_with_stdout [OF refl k m w1]
  have "\<exists>s2. reap_notice p st s1 = Return s2"
    by (cases st) (simp_all add: reap_notice_def print_sigint_job_def)
  then obtain s2 where s2: "reap_notice p st s1 = Return s2" by blast
  define s3 where "s3 = snd (deletejob p (log_call (Deletejob p) s2))"
  from reap_notice_frame [of s1 p st] s2
  have f2: "frame s1 s2" "job_list s2 = job_list s1" "nextjid s2 = nextjid s1" by simp_all
  have n1: "nextjid s1 = nextjid s" by (simp add: s1_def log_call_def)
  have inv2: "jid_inv (log_call (Deletejob p) s2)"
    using Cons.prems(3) f2 j1 n1 by (simp add: jid_inv_def log_call_def)
  have inv3: "jid_inv s3"
    unfolding s3_def using inv2 by (rule jid_inv_deletejob)
  have b3: "STDOUT_FILENO \<notin> bad_fds s3"
    using deletejob_frame [of "log_call (Deletejob p) s2" p] f2(1) w1
    by (simp add: s3_def frame_def log_call_def)
  have j3: "job_list s3 = (job_list s)[i := clearjob]"
    using p i f2(2) j1 by (simp add: s3_def deletejob_def Let_def log_call_def)
  have k3: "\<forall>(q, st)\<in>set reaped. q \<in> set (map pid (job_list s3)) \<and> 0 < q"
  proof (clarify)
    fix q st' assume q: "(q, st') \<in> set reaped"
    with Cons.prems(1) have qk: "q \<in> set (map pid (job_list s))" "0 < q" by auto
    from q Cons.prems(2) a have "q \<noteq> p" by force
    from qk(1) obtain n where n: "n < length (job_list s)" "pid (job_list s ! n) = q"
      by (auto simp: in_set_conv_nth)
    with \<open>q \<noteq> p\<close> ii have "n \<noteq> i" by auto
    with n have "n < length (job_list s3)" "pid (job_list s3 ! n) = q"
      by (simp_all add: j3)
    then have "q \<in> set (map pid (job_list s3))"
      by (metis length_map nth_map nth_mem)
    with qk(2) show "q \<in> set (map pid (job_list s3)) \<and> 0 < q" by simp
  qed
  from Cons.prems(2) have d3: "distinct (map fst reaped)" by simp
  from Cons.IH [OF k3 d3 inv3 b3] obtain s' where
    "sigchld_loop (reaped_answers reaped e) s3 = Some (Return s')" by blast
  with p s2 show ?case
    by (simp add: reaped_answers_def a s1_def s3_def)
qed


text \<open>
  The ending with no children. Let \<^verbatim>\<open>waitpid\<close> answer the handler with the children
  \<open>reaped\<close> (positive pids), one per call, and then with -1 and \<^verbatim>\<open>ECHILD\<close>. Then the
  handler ends, and it has not taken the path of \<^verbatim>\<open>unix_error\<close>, whatever the job list
  was. If it returns, it has called \<^verbatim>\<open>waitpid(-1, &status, WNOHANG)\<close> once for each reaped
  child and once more, and \<^verbatim>\<open>deletejob\<close> for each reaped child, in this order. And it does
  return when the reaped children are distinct jobs of the job list, in a state of a
  run of the job list (\<open>jid_inv\<close>) with a writable standard output.
\<close>

lemma sigchld_handler_no_children:
  assumes "\<forall>(p, st)\<in>set reaped. 0 < p"
  shows "\<exists>r. sigchld_handler (reaped_answers reaped ECHILD) s = Some r
           \<and> unix_errors (final r) = unix_errors s
           \<and> (\<forall>s'. r = Return s' \<longrightarrow>
                 errno s' = ECHILD
               \<and> map fst (trace s') = map fst (trace s) @ reap_calls reaped
               \<and> job_list s' = job_list (fold (\<lambda>(p, st) s. snd (deletejob p s)) reaped s))
           \<and> ((\<forall>(p, st)\<in>set reaped. p \<in> set (map pid (job_list s))) \<and> distinct (map fst reaped)
                \<and> jid_inv s \<and> STDOUT_FILENO \<notin> bad_fds s \<longrightarrow> (\<exists>s'. r = Return s'))"
proof -
  from sigchld_loop_reaped [OF assms, of ECHILD s] obtain r where
    r: "sigchld_loop (reaped_answers reaped ECHILD) s = Some r" "unix_errors (final r) = unix_errors s"
      "\<forall>s'. r = Return s' \<longrightarrow> errno s' = ECHILD
               \<and> map fst (trace s') = map fst (trace s) @ reap_calls reaped
               \<and> job_list s' = job_list (fold (\<lambda>(p, st) s. snd (deletejob p s)) reaped s)"
    by blast
  have h: "sigchld_handler (reaped_answers reaped ECHILD) s = Some r"
  proof (cases r)
    case (Return s1)
    with r(3) have "errno s1 = ECHILD" by blast
    with r(1) Return show ?thesis by (simp add: sigchld_handler_def)
  qed (use r(1) in \<open>simp_all add: sigchld_handler_def\<close>)
  have "\<exists>s'. r = Return s'"
    if k: "(\<forall>(p, st)\<in>set reaped. p \<in> set (map pid (job_list s))) \<and> distinct (map fst reaped)
                \<and> jid_inv s \<and> STDOUT_FILENO \<notin> bad_fds s"
  proof -
    from k assms have "\<forall>(p, st)\<in>set reaped. p \<in> set (map pid (job_list s)) \<and> 0 < p"
      by auto
    from sigchld_loop_known [OF this, of ECHILD] k r(1) show ?thesis
      by auto
  qed
  with h r(2,3) show ?thesis by blast
qed

lemma sigchld_handler_no_children_example:
  "list_all (\<lambda>(p, st). 0 < p) two_reaped
   \<and> list_all (\<lambda>(p, st). p \<in> set (map pid (job_list (run ops2 shell0)))) two_reaped
   \<and> distinct (map fst two_reaped) \<and> jid_inv (run ops2 shell0)
   \<and> STDOUT_FILENO \<notin> bad_fds (run ops2 shell0)
   \<and> (\<exists>s'. sigchld_handler (reaped_answers two_reaped ECHILD) (run ops2 shell0) = Some (Return s')
         \<and> errno s' = ECHILD \<and> unix_errors s' = []
         \<and> map fst (trace s') = [Waitpid (- 1) WNOHANG, Deletejob 101, Waitpid (- 1) WNOHANG,
                                  Deletejob 102, Waitpid (- 1) WNOHANG]
         \<and> job_list s' = job_list shell0)"
proof -
  have p: "\<forall>(p, st)\<in>set two_reaped. 0 < p"
    by (simp add: two_reaped_def)
  have k: "\<forall>(p, st)\<in>set two_reaped. p \<in> set (map pid (job_list (run ops2 shell0)))"
    unfolding two_reaped_def by code_simp
  have d: "distinct (map fst two_reaped)"
    by (simp add: two_reaped_def)
  have b: "STDOUT_FILENO \<notin> bad_fds (run ops2 shell0)"
    by code_simp
  have e: "unix_errors (run ops2 shell0) = []" "trace (run ops2 shell0) = []"
    "job_list (fold (\<lambda>(p, st) s. snd (deletejob p s)) two_reaped (run ops2 shell0)) = job_list shell0"
    "reap_calls two_reaped = [Waitpid (- 1) WNOHANG, Deletejob 101, Waitpid (- 1) WNOHANG,
                                  Deletejob 102, Waitpid (- 1) WNOHANG]"
    by code_simp+
  from sigchld_handler_no_children [OF p, of "run ops2 shell0"] obtain r where
    r: "sigchld_handler (reaped_answers two_reaped ECHILD) (run ops2 shell0) = Some r"
      "unix_errors (final r) = unix_errors (run ops2 shell0)"
      "\<forall>s'. r = Return s' \<longrightarrow>
                 errno s' = ECHILD
               \<and> map fst (trace s') = map fst (trace (run ops2 shell0)) @ reap_calls two_reaped
               \<and> job_list s' = job_list (fold (\<lambda>(p, st) s. snd (deletejob p s)) two_reaped (run ops2 shell0))"
      "(\<forall>(p, st)\<in>set two_reaped. p \<in> set (map pid (job_list (run ops2 shell0))))
          \<and> distinct (map fst two_reaped) \<and> jid_inv (run ops2 shell0)
          \<and> STDOUT_FILENO \<notin> bad_fds (run ops2 shell0) \<longrightarrow> (\<exists>s'. r = Return s')"
    by blast
  from r(4) k d jid_inv_run [of ops2] b obtain s' where s': "r = Return s'"
    by blast
  from r(3) s' have f: "errno s' = ECHILD"
    "map fst (trace s') = map fst (trace (run ops2 shell0)) @ reap_calls two_reaped"
    "job_list s' = job_list (fold (\<lambda>(p, st) s. snd (deletejob p s)) two_reaped (run ops2 shell0))"
    by blast+
  from r(2) s' have u: "unix_errors s' = []"
    by (simp add: e)
  have "sigchld_handler (reaped_answers two_reaped ECHILD) (run ops2 shell0) = Some (Return s')
         \<and> errno s' = ECHILD \<and> unix_errors s' = []
         \<and> map fst (trace s') = [Waitpid (- 1) WNOHANG, Deletejob 101, Waitpid (- 1) WNOHANG,
                                  Deletejob 102, Waitpid (- 1) WNOHANG]
         \<and> job_list s' = job_list shell0"
    using r(1) s' f u by (simp add: e)
  then have ex: "\<exists>s'. sigchld_handler (reaped_answers two_reaped ECHILD) (run ops2 shell0) = Some (Return s')
         \<and> errno s' = ECHILD \<and> unix_errors s' = []
         \<and> map fst (trace s') = [Waitpid (- 1) WNOHANG, Deletejob 101, Waitpid (- 1) WNOHANG,
                                  Deletejob 102, Waitpid (- 1) WNOHANG]
         \<and> job_list s' = job_list shell0"
    by (rule exI)
  have "list_all (\<lambda>(p, st). 0 < p) two_reaped"
    "list_all (\<lambda>(p, st). p \<in> set (map pid (job_list (run ops2 shell0)))) two_reaped"
    using p k by (simp_all add: list_all_iff)
  with d jid_inv_run [of ops2] b ex show ?thesis
    by (intro conjI)
qed

text \<open>
  The ending with children that run on. When \<^verbatim>\<open>waitpid\<close> answers 0 (children exist, none
  has changed state) it does not set \<^verbatim>\<open>errno\<close>, and the handler takes the path of
  \<^verbatim>\<open>unix_error\<close> unless \<^verbatim>\<open>errno\<close> was \<^verbatim>\<open>ECHILD\<close> before.
\<close>

lemma sigchld_handler_children_remain:
  "sigchld_handler [Wait_none] s =
     Some (if errno s \<noteq> ECHILD
           then unix_error ''waitpid error'' (log_call (Waitpid (- 1) WNOHANG) s)
           else Return (log_call (Waitpid (- 1) WNOHANG) s))"
  by (simp add: sigchld_handler_def log_call_def)

text \<open>
  C8. The code at a failing input of the claim: two background jobs are launched
  (pids 101 and 102), the first one exits, and the handler of \<^verbatim>\<open>SIGCHLD\<close> runs while the
  second one is running. The handler reaps the child 101 and removes its job; the
  second call of \<^verbatim>\<open>waitpid(-1, &status, WNOHANG)\<close> returns 0, since no other child has
  changed state, and leaves \<^verbatim>\<open>errno\<close> as it was. The handler then tests
  \<^verbatim>\<open>errno != ECHILD\<close> without testing the value that \<^verbatim>\<open>waitpid\<close> returned, and takes the
  path of \<^verbatim>\<open>unix_error\<close>: the shell prints the line of \<^verbatim>\<open>waitpid error\<close> and exits with
  status 1, the job of pid 102 still in its list.
\<close>

theorem C8_handler_exits_while_a_child_runs:
  "(case run_events one_exits shell0 of
      Some (Exit n s) \<Rightarrow> n = 1
        \<and> map pid (filter (\<lambda>j. pid j \<noteq> 0) (job_list s)) = [102]
        \<and> waits s = [Waitpid (- 1) WNOHANG, Waitpid (- 1) WNOHANG]
        \<and> unix_errors s = [Unix_error ''waitpid error'' 0]
    | _ \<Rightarrow> False)"
  by code_simp

section \<open>Unknown and invalid pids\<close>

lemma deletejob_absent:
  "p \<notin> set (map pid (job_list s)) \<Longrightarrow> deletejob p s = (0, s)"
proof -
  assume "p \<notin> set (map pid (job_list s))"
  then have "first_index (\<lambda>j. pid j = p) (job_list s) = None"
    by (auto simp: first_index_None)
  then show ?thesis by (simp add: deletejob_def)
qed

lemma pid2jid_absent:
  "p \<notin> set (map pid (job_list s)) \<Longrightarrow> pid2jid p s = 0"
proof -
  assume "p \<notin> set (map pid (job_list s))"
  then have "first_index (\<lambda>j. pid j = p) (job_list s) = None"
    by (auto simp: first_index_None)
  then show ?thesis by (simp add: pid2jid_def)
qed

text \<open>
  C1, as the code has it. For a pid that is below 1 or that no slot of the job list
  holds, \<^verbatim>\<open>deletejob\<close>
  returns 0 (not found) and leaves the whole shell state as it is; \<^verbatim>\<open>change_job_state\<close>
  changes no slot either, but it is fatal: it writes \<^verbatim>\<open>Job not present in job list\<close> to
  the standard error and the process exits with status 1.
\<close>

theorem C1_unknown_pid:
  assumes "p < 1 \<or> p \<notin> set (map pid (job_list s))"
  shows "deletejob p s = (0, s)
       \<and> change_job_state p new_state s
           = Exit 1 (emit (Stderr (''Job not present in job list'' @ [CHR 0x0A])) s)
       \<and> job_list (emit (Stderr (''Job not present in job list'' @ [CHR 0x0A])) s) = job_list s"
proof -
  have d: "deletejob p s = (0, s)"
    using assms by (auto simp: deletejob_absent) (simp add: deletejob_def)
  have j: "pid2jid p s = 0"
    using assms by (auto simp: pid2jid_absent) (simp add: pid2jid_def)
  show ?thesis
    using d j by (simp add: change_job_state_def job_not_present_def emit_def)
qed

theorem C1_unknown_pid_witness:
  "5 \<notin> set (map pid (job_list shell0))
   \<and> deletejob 5 shell0 = (0, shell0)
   \<and> change_job_state 5 ST shell0
       = Exit 1 (emit (Stderr (''Job not present in job list'' @ [CHR 0x0A])) shell0)
   \<and> job_list (emit (Stderr (''Job not present in job list'' @ [CHR 0x0A])) shell0)
       = job_list shell0"
proof -
  have h: "5 \<notin> set (map pid (job_list shell0))"
    by (simp add: shell0_def clearjob_def)
  from C1_unknown_pid [of 5 shell0 ST] h show ?thesis by simp
qed

text \<open>
  C1 as the specification states it fails: on the empty job list, setting the state of
  pid 5 (which no slot holds) does not return to the caller; the process exits.
\<close>

theorem C1_set_state_fatal:
  "5 \<notin> set (map pid (job_list shell0))
   \<and> (case change_job_state 5 ST shell0 of Exit n s \<Rightarrow> n = 1 | _ \<Rightarrow> False)"
proof -
  have h: "5 \<notin> set (map pid (job_list shell0))"
    by (simp add: shell0_def clearjob_def)
  from pid2jid_absent [OF h] h show ?thesis
    by (simp add: change_job_state_def job_not_present_def)
qed

text \<open>
  C10. For a pid below 1, \<^verbatim>\<open>addjob\<close> returns 0 and \<^verbatim>\<open>deletejob\<close> returns 0, and each leaves
  the whole shell state unchanged: the job list, the next job id, and the output.
\<close>

theorem C10_nonpositive_pid:
  "p < 1 \<Longrightarrow> addjob p st cl s = (0, s) \<and> deletejob p s = (0, s)"
  by (simp add: addjob_def deletejob_def)

theorem C10_nonpositive_pid_witness:
  "(-1::int) < 1 \<and> addjob (-1) BG ''ls'' shell0 = (0, shell0) \<and> deletejob (-1) shell0 = (0, shell0)"
  using C10_nonpositive_pid [of "-1" BG "''ls''" shell0] by simp

section \<open>The full job list\<close>

lemma first_index_fresh:
  assumes "0 \<notin> set ps" and m: "map pid js = ps @ 0 # r"
  shows "first_index (\<lambda>j. pid j = 0) js = Some (length ps)"
proof (rule first_index_eq)
  from m have len: "length js = length ps + Suc (length r)"
    by (metis length_map length_append length_Cons)
  then show "length ps < length js" by simp
  from m have "map pid js ! length ps = 0" by simp
  with len show "pid (js ! length ps) = 0" by simp
  show "\<forall>k<length ps. pid (js ! k) \<noteq> 0"
  proof (intro allI impI)
    fix k assume k: "k < length ps"
    with m have "map pid js ! k = ps ! k" by (simp add: nth_append)
    with k len have "pid (js ! k) = ps ! k" by simp
    with k assms(1) show "pid (js ! k) \<noteq> 0" by (metis nth_mem)
  qed
qed

lemma addjob_fills:
  assumes "map pid (job_list s) = ps @ replicate (Suc n) 0" "0 \<notin> set ps" "1 \<le> p" "verbose s = 0"
  shows "map pid (job_list (snd (addjob p st cl s))) = (ps @ [p]) @ replicate n 0
     \<and> bad_fds (snd (addjob p st cl s)) = bad_fds s \<and> out (snd (addjob p st cl s)) = out s
     \<and> verbose (snd (addjob p st cl s)) = 0"
proof -
  from assms(1) have m: "map pid (job_list s) = ps @ 0 # replicate n 0" by simp
  from first_index_fresh [OF assms(2) m]
  have f: "first_index (\<lambda>j. pid j = 0) (job_list s) = Some (length ps)" .
  have "map pid ((job_list s)[length ps := \<lparr>pid = p, jid = nextjid s, state = st, cmdline = cl\<rparr>])
      = (map pid (job_list s))[length ps := p]"
    by (simp add: map_update)
  also have "\<dots> = ps @ p # replicate n 0"
    unfolding m by simp
  finally show ?thesis
    using f assms(3,4) by (simp add: addjob_def Let_def emit_def)
qed

lemma addjob_full:
  assumes "1 \<le> p" "0 \<notin> set (map pid (job_list s))"
  shows "addjob p st cl s = (0, emit (Printf (''Tried to create too many jobs'' @ [CHR 0x0A])) s)"
proof -
  from assms(2) have "first_index (\<lambda>j. pid j = 0) (job_list s) = None"
    by (auto simp: first_index_None)
  with assms(1) show ?thesis by (simp add: addjob_def)
qed

text \<open>
  A background launch, in the process in which \<^verbatim>\<open>fork\<close> returned the child's pid: into a
  job list with a free slot (\<open>eval_bg_free\<close>), and into a full one (\<open>eval_bg_full\<close>).
\<close>

lemma eval_bg_external:
  assumes "parseline (Some cl) = Inr (1, tok)" "builtins tok = Some BUILTIN_NONE" "argv tok \<noteq> []"
    "fork_ret os = p" "p \<noteq> 0"
  shows "eval os cl s = printjob p STDOUT_FILENO (sigprocmask_unblock mask_sigs (sigprocmask_unblock mask2
           (snd (addjob p BG cl (log_call (Addjob p) (log_call (Fork p)
              (sigprocmask_block mask_sigs ((log_call Getpid s)\<lparr>tsh_pid := getpid_ret os\<rparr>))))))))"
  using assms by (simp add: eval_def eval_external_def Let_def)

lemma pid2jid_live:
  assumes "1 \<le> p" "p \<in> set (map pid (job_list s))" "jid_inv s"
  shows "pid2jid p s \<noteq> 0"
proof -
  from assms(2) have "first_index (\<lambda>j. pid j = p) (job_list s) \<noteq> None"
    by (auto simp: first_index_None)
  then obtain i where i: "first_index (\<lambda>j. pid j = p) (job_list s) = Some i"
    by auto
  from first_index_Some [OF i] have l: "i < length (job_list s)" "pid (job_list s ! i) = p"
    by simp_all
  from l(1) have "job_list s ! i \<in> set (job_list s)" by (rule nth_mem)
  with assms(3) l(2) assms(1) have "1 \<le> jid (job_list s ! i)"
    by (auto simp: jid_inv_def)
  with i assms(1) show ?thesis
    by (simp add: pid2jid_def)
qed

lemma print_with_returns:
  assumes "pid2jid p s \<noteq> 0" "STDOUT_FILENO \<notin> bad_fds s"
  shows "\<exists>s'. print_with pre line p STDOUT_FILENO s = Return s' \<and> job_list s' = job_list s
           \<and> nextjid s' = nextjid s \<and> verbose s' = verbose s \<and> bad_fds s' = bad_fds s"
  using assms
  by (simp add: print_with_def Let_def write_fd_def andthen_def emit_def close_unless_stdout_def)

lemma eval_bg_free:
  assumes parse: "parseline (Some cl) = Inr (1, tok)" "builtins tok = Some BUILTIN_NONE" "argv tok \<noteq> []"
    and fork: "fork_ret os = p" "1 \<le> p"
    and free: "map pid (job_list s) = ps @ replicate (Suc n) 0" "0 \<notin> set ps"
    and st: "verbose s = 0" "STDOUT_FILENO \<notin> bad_fds s" "jid_inv s"
  shows "\<exists>s'. eval os cl s = Return s' \<and> map pid (job_list s') = (ps @ [p]) @ replicate n 0
           \<and> verbose s' = 0 \<and> STDOUT_FILENO \<notin> bad_fds s' \<and> jid_inv s'"
proof -
  define s3 where "s3 = log_call (Addjob p) (log_call (Fork p)
              (sigprocmask_block mask_sigs ((log_call Getpid s)\<lparr>tsh_pid := getpid_ret os\<rparr>)))"
  define s4 where "s4 = snd (addjob p BG cl s3)"
  define s6 where "s6 = sigprocmask_unblock mask_sigs (sigprocmask_unblock mask2 s4)"
  from fork have p0: "p \<noteq> 0" by simp
  have ev: "eval os cl s = printjob p STDOUT_FILENO s6"
    unfolding s6_def s4_def s3_def using parse fork(1) p0 by (rule eval_bg_external)
  have j3: "map pid (job_list s3) = ps @ replicate (Suc n) 0" "verbose s3 = 0"
    "bad_fds s3 = bad_fds s" "same_table s3 s"
    using free(1) st(1) by (simp_all add: s3_def log_call_def sigprocmask_block_def same_table_def)
  from j3(4) st(3) have i3: "jid_inv s3" by (rule jid_inv_same_table)
  from addjob_fills [OF j3(1) free(2) fork(2) j3(2), of BG cl]
  have j4: "map pid (job_list s4) = (ps @ [p]) @ replicate n 0" "bad_fds s4 = bad_fds s3" "verbose s4 = 0"
    by (simp_all add: s4_def)
  from i3 have i4: "jid_inv s4" unfolding s4_def by (rule jid_inv_addjob)
  have j6: "job_list s6 = job_list s4" "bad_fds s6 = bad_fds s4" "verbose s6 = verbose s4" "same_table s6 s4"
    by (simp_all add: s6_def log_call_def sigprocmask_unblock_def same_table_def)
  from j6(4) i4 have i6: "jid_inv s6" by (rule jid_inv_same_table)
  from j4(1) j6(1) have "p \<in> set (map pid (job_list s6))" by simp
  from pid2jid_live [OF fork(2) this i6] have k: "pid2jid p s6 \<noteq> 0" .
  from st(2) j3(3) j4(2) j6(2) have b: "STDOUT_FILENO \<notin> bad_fds s6" by simp
  from print_with_returns [OF k b, of "''[''" "\<lambda>j. cmdline j @ [CHR 0x0A]"] obtain s' where
    s': "printjob p STDOUT_FILENO s6 = Return s'" "job_list s' = job_list s6" "nextjid s' = nextjid s6"
      "verbose s' = verbose s6" "bad_fds s' = bad_fds s6"
    by (auto simp: printjob_def)
  from s'(2,3) have "same_table s' s6" by (simp add: same_table_def)
  from this i6 have "jid_inv s'" by (rule jid_inv_same_table)
  with ev s' j4 j6 b show ?thesis by simp
qed

lemma eval_bg_full:
  assumes parse: "parseline (Some cl) = Inr (1, tok)" "builtins tok = Some BUILTIN_NONE" "argv tok \<noteq> []"
    and fork: "1 \<le> fork_ret os" "fork_ret os \<notin> set (map pid (job_list s))"
    and full: "0 \<notin> set (map pid (job_list s))"
  shows "\<exists>s'. eval os cl s = Exit 1 s' \<and> job_list s' = job_list s \<and> nextjid s' = nextjid s
           \<and> out s' = out s @ [Printf (''Tried to create too many jobs'' @ [CHR 0x0A]),
                               Stderr (''Job not present in job list'' @ [CHR 0x0A])]"
proof -
  define p where "p = fork_ret os"
  define s3 where "s3 = log_call (Addjob p) (log_call (Fork p)
              (sigprocmask_block mask_sigs ((log_call Getpid s)\<lparr>tsh_pid := getpid_ret os\<rparr>)))"
  define s6 where "s6 = sigprocmask_unblock mask_sigs (sigprocmask_unblock mask2 (snd (addjob p BG cl s3)))"
  from fork have p: "1 \<le> p" "p \<noteq> 0" "fork_ret os = p" by (simp_all add: p_def)
  have ev: "eval os cl s = printjob p STDOUT_FILENO s6"
    unfolding s6_def s3_def using parse p(3,2) by (rule eval_bg_external)
  have j3: "job_list s3 = job_list s" "nextjid s3 = nextjid s" "out s3 = out s"
    by (simp_all add: s3_def log_call_def sigprocmask_block_def)
  from full j3(1) have "0 \<notin> set (map pid (job_list s3))" by simp
  from addjob_full [OF p(1) this, of BG cl]
  have a: "addjob p BG cl s3 = (0, emit (Printf (''Tried to create too many jobs'' @ [CHR 0x0A])) s3)" .
  have j6: "job_list s6 = job_list s" "nextjid s6 = nextjid s"
    "out s6 = out s @ [Printf (''Tried to create too many jobs'' @ [CHR 0x0A])]"
    using j3 by (simp_all add: s6_def a emit_def log_call_def sigprocmask_unblock_def)
  from fork(2) j6(1) have "p \<notin> set (map pid (job_list s6))" by (simp add: p_def)
  then have "pid2jid p s6 = 0" by (rule pid2jid_absent)
  then have "printjob p STDOUT_FILENO s6
      = Exit 1 (emit (Stderr (''Job not present in job list'' @ [CHR 0x0A])) s6)"
    by (simp add: printjob_def print_with_def job_not_present_def)
  with ev j6 show ?thesis
    by (simp add: emit_def)
qed

text \<open>Launches in a row from the initial state.\<close>

lemma run_events_append:
  "run_events es s = Some (Return s') \<Longrightarrow> run_events (es @ fs) s = run_events fs s'"
proof (induction es arbitrary: s)
  case Nil
  then show ?case by simp
next
  case (Cons e es)
  then show ?case
    by (auto split: option.splits outcome.splits)
qed

lemma run_events_exit:
  "run_events es s = Some (Exit n s') \<Longrightarrow> run_events (es @ fs) s = Some (Exit n s')"
proof (induction es arbitrary: s)
  case Nil
  then show ?case by simp
next
  case (Cons e es)
  then show ?case
    by (auto split: option.splits outcome.splits)
qed

lemma run_launches_fill:
  assumes parse: "parseline (Some cl) = Inr (1, tok)" "builtins tok = Some BUILTIN_NONE" "argv tok \<noteq> []"
    and pos: "\<forall>q\<in>set qs. 1 \<le> q"
    and free: "map pid (job_list s) = ps @ replicate (length qs + n) 0" "0 \<notin> set ps"
    and st: "verbose s = 0" "STDOUT_FILENO \<notin> bad_fds s" "jid_inv s"
  shows "\<exists>s'. run_events (launches os cl qs) s = Some (Return s')
           \<and> map pid (job_list s') = ps @ qs @ replicate n 0
           \<and> verbose s' = 0 \<and> STDOUT_FILENO \<notin> bad_fds s' \<and> jid_inv s'"
  using pos free st
proof (induction qs arbitrary: ps s)
  case Nil
  then show ?case by (simp add: launches_def)
next
  case (Cons q qs)
  from Cons.prems have q: "1 \<le> q" and m: "map pid (job_list s) = ps @ replicate (Suc (length qs + n)) 0"
    by simp_all
  have f: "fork_ret (os\<lparr>fork_ret := q\<rparr>) = q" by simp
  from eval_bg_free [OF parse f q m Cons.prems(3,4,5,6)] obtain s1 where
    s1: "eval (os\<lparr>fork_ret := q\<rparr>) cl s = Return s1"
      "map pid (job_list s1) = (ps @ [q]) @ replicate (length qs + n) 0"
      "verbose s1 = 0" "STDOUT_FILENO \<notin> bad_fds s1" "jid_inv s1"
    by blast
  from q Cons.prems(3) have z: "0 \<notin> set (ps @ [q])" by auto
  from Cons.prems(1) have pos': "\<forall>q\<in>set qs. 1 \<le> q" by simp
  from Cons.IH [OF pos' s1(2) z s1(3,4,5)] obtain s' where
    "run_events (launches os cl qs) s1 = Some (Return s')"
    "map pid (job_list s') = (ps @ [q]) @ qs @ replicate n 0"
    "verbose s' = 0" "STDOUT_FILENO \<notin> bad_fds s'" "jid_inv s'"
    by blast
  with s1(1) show ?case
    by (simp add: launches_def)
qed

lemma one_launch_too_many:
  assumes parse: "parseline (Some cl) = Inr (1, tok)" "builtins tok = Some BUILTIN_NONE" "argv tok \<noteq> []"
    and qs: "int (length qs) = MAXJOBS" "\<forall>q\<in>set qs. 1 \<le> q"
    and p: "1 \<le> p" "p \<notin> set qs"
  shows "\<exists>s16 s'. run_events (launches os cl qs) shell0 = Some (Return s16)
           \<and> map pid (job_list s16) = qs
           \<and> run_events (launches os cl (qs @ [p]) @ later) shell0 = Some (Exit 1 s')
           \<and> job_list s' = job_list s16
           \<and> out s' = out s16 @ [Printf (''Tried to create too many jobs'' @ [CHR 0x0A]),
                                   Stderr (''Job not present in job list'' @ [CHR 0x0A])]"
proof -
  from qs(1) have "map pid (job_list shell0) = [] @ replicate (length qs + 0) 0"
    by (simp add: shell0_def clearjob_def)
  from run_launches_fill [OF parse qs(2) this, of os] jid_inv_shell0 obtain s16 where
    s16: "run_events (launches os cl qs) shell0 = Some (Return s16)" "map pid (job_list s16) = qs"
    by (auto simp: shell0_def)
  from qs(2) have "0 \<notin> set qs" by auto
  with s16(2) p(2) have full: "0 \<notin> set (map pid (job_list s16))"
    and fresh: "fork_ret (os\<lparr>fork_ret := p\<rparr>) \<notin> set (map pid (job_list s16))"
    by simp_all
  from p(1) have "1 \<le> fork_ret (os\<lparr>fork_ret := p\<rparr>)" by simp
  from eval_bg_full [OF parse this fresh full] obtain s' where
    s': "eval (os\<lparr>fork_ret := p\<rparr>) cl s16 = Exit 1 s'" "job_list s' = job_list s16"
      "out s' = out s16 @ [Printf (''Tried to create too many jobs'' @ [CHR 0x0A]),
                           Stderr (''Job not present in job list'' @ [CHR 0x0A])]"
    by blast
  from s'(1) have "run_events (launches os cl [p]) s16 = Some (Exit 1 s')"
    by (simp add: launches_def)
  with run_events_append [OF s16(1), of "launches os cl [p]"]
  have "run_events (launches os cl (qs @ [p])) shell0 = Some (Exit 1 s')"
    by (simp add: launches_def)
  then have "run_events (launches os cl (qs @ [p]) @ later) shell0 = Some (Exit 1 s')"
    by (rule run_events_exit)
  with s16 s'(2,3) show ?thesis by blast
qed

text \<open>
  C6, as the code has it. On a job list without a free slot, an insertion with a pid of
  at least 1 returns 0, prints \<^verbatim>\<open>Tried to create too many jobs\<close>, and leaves the job list
  and \<^verbatim>\<open>nextjid\<close> as they are; an insertion with a pid below 1 returns 0 and changes
  nothing, so it prints no diagnostic. A background launch on such a job list (the
  command line is a background command that is not a builtin, \<^verbatim>\<open>fork\<close> returns a pid of
  at least 1 that no entry has) is rejected in this way, and then the shell prints
  \<^verbatim>\<open>Job not present in job list\<close> and exits with status 1, in \<^verbatim>\<open>printjob\<close>; the job list
  and \<^verbatim>\<open>nextjid\<close> are unchanged when it exits. So for \<open>MAXJOBS\<close> + 1 background launches
  in a row from the initial state, no signal being handled in between (sixteen pids
  \<open>qs\<close> of at least 1, then a pid \<open>r\<close> of at least 1 that is not among them): the first
  sixteen return and fill the job list with \<open>qs\<close>, in order; the last one prints the
  two lines and ends the shell with status 1, with the job list of the sixteen jobs;
  and whatever command lines and signals were to follow (\<open>later\<close>) are not handled, so
  that no listing is made.
\<close>

theorem C6_full_table:
  assumes "0 \<notin> set (map pid (job_list s))"
  shows "(1 \<le> p \<longrightarrow>
            fst (addjob p st c s) = 0
          \<and> job_list (snd (addjob p st c s)) = job_list s
          \<and> nextjid (snd (addjob p st c s)) = nextjid s
          \<and> out (snd (addjob p st c s)) = out s @ [Printf (''Tried to create too many jobs'' @ [CHR 0x0A])])
       \<and> (p < 1 \<longrightarrow> addjob p st c s = (0, s))
       \<and> (parseline (Some cl) = Inr (1, tok) \<and> builtins tok = Some BUILTIN_NONE \<and> argv tok \<noteq> []
            \<and> 1 \<le> fork_ret os \<and> fork_ret os \<notin> set (map pid (job_list s)) \<longrightarrow>
            (\<exists>s'. eval os cl s = Exit 1 s' \<and> job_list s' = job_list s \<and> nextjid s' = nextjid s
               \<and> out s' = out s @ [Printf (''Tried to create too many jobs'' @ [CHR 0x0A]),
                                   Stderr (''Job not present in job list'' @ [CHR 0x0A])]))
       \<and> (parseline (Some cl) = Inr (1, tok) \<and> builtins tok = Some BUILTIN_NONE \<and> argv tok \<noteq> []
            \<and> int (length qs) = MAXJOBS \<and> (\<forall>q\<in>set qs. 1 \<le> q) \<and> 1 \<le> r \<and> r \<notin> set qs \<longrightarrow>
            (\<exists>s16 s'. run_events (launches os cl qs) shell0 = Some (Return s16)
               \<and> map pid (job_list s16) = qs
               \<and> run_events (launches os cl (qs @ [r]) @ later) shell0 = Some (Exit 1 s')
               \<and> job_list s' = job_list s16
               \<and> out s' = out s16 @ [Printf (''Tried to create too many jobs'' @ [CHR 0x0A]),
                                       Stderr (''Job not present in job list'' @ [CHR 0x0A])]))"
proof (intro conjI impI)
  assume "1 \<le> p"
  from addjob_full [OF this assms, of st c]
  have a: "addjob p st c s = (0, emit (Printf (''Tried to create too many jobs'' @ [CHR 0x0A])) s)" .
  show "fst (addjob p st c s) = 0" "job_list (snd (addjob p st c s)) = job_list s"
    "nextjid (snd (addjob p st c s)) = nextjid s"
    "out (snd (addjob p st c s)) = out s @ [Printf (''Tried to create too many jobs'' @ [CHR 0x0A])]"
    by (simp_all add: a emit_def)
next
  assume "p < 1"
  then show "addjob p st c s = (0, s)"
    by (simp add: addjob_def)
next
  assume "parseline (Some cl) = Inr (1, tok) \<and> builtins tok = Some BUILTIN_NONE \<and> argv tok \<noteq> []
            \<and> 1 \<le> fork_ret os \<and> fork_ret os \<notin> set (map pid (job_list s))"
  then show "\<exists>s'. eval os cl s = Exit 1 s' \<and> job_list s' = job_list s \<and> nextjid s' = nextjid s
               \<and> out s' = out s @ [Printf (''Tried to create too many jobs'' @ [CHR 0x0A]),
                                   Stderr (''Job not present in job list'' @ [CHR 0x0A])]"
    using eval_bg_full [of cl tok os s] assms by blast
next
  assume "parseline (Some cl) = Inr (1, tok) \<and> builtins tok = Some BUILTIN_NONE \<and> argv tok \<noteq> []
            \<and> int (length qs) = MAXJOBS \<and> (\<forall>q\<in>set qs. 1 \<le> q) \<and> 1 \<le> r \<and> r \<notin> set qs"
  then show "\<exists>s16 s'. run_events (launches os cl qs) shell0 = Some (Return s16)
               \<and> map pid (job_list s16) = qs
               \<and> run_events (launches os cl (qs @ [r]) @ later) shell0 = Some (Exit 1 s')
               \<and> job_list s' = job_list s16
               \<and> out s' = out s16 @ [Printf (''Tried to create too many jobs'' @ [CHR 0x0A]),
                                       Stderr (''Job not present in job list'' @ [CHR 0x0A])]"
    using one_launch_too_many [of cl tok qs r os later] by blast
qed

theorem C6_full_table_witness:
  "0 \<notin> set (map pid (job_list full_shell))
   \<and> (1::int) \<le> 117
   \<and> fst (addjob 117 BG ''sleep 9 &'' full_shell) = 0
   \<and> map pid (job_list (snd (addjob 117 BG ''sleep 9 &'' full_shell))) = sixteen
   \<and> nextjid (snd (addjob 117 BG ''sleep 9 &'' full_shell)) = nextjid full_shell
   \<and> out (snd (addjob 117 BG ''sleep 9 &'' full_shell))
       = out full_shell @ [Printf (''Tried to create too many jobs'' @ [CHR 0x0A])]
   \<and> (0::int) < 1
   \<and> addjob 0 BG ''sleep 9 &'' full_shell = (0, full_shell)
   \<and> parseline (Some ''sleep 9 &'') = Inr (1, tok_sleep)
   \<and> builtins tok_sleep = Some BUILTIN_NONE \<and> argv tok_sleep \<noteq> []
   \<and> 1 \<le> fork_ret (os0\<lparr>fork_ret := 117\<rparr>)
   \<and> fork_ret (os0\<lparr>fork_ret := 117\<rparr>) \<notin> set (map pid (job_list full_shell))
   \<and> (\<exists>s'. eval (os0\<lparr>fork_ret := 117\<rparr>) ''sleep 9 &'' full_shell = Exit 1 s'
         \<and> map pid (job_list s') = sixteen
         \<and> out s' = out full_shell @ [Printf (''Tried to create too many jobs'' @ [CHR 0x0A]),
                                        Stderr (''Job not present in job list'' @ [CHR 0x0A])])
   \<and> int (length sixteen) = MAXJOBS \<and> list_all (\<lambda>q. 1 \<le> q) sixteen \<and> 117 \<notin> set sixteen
   \<and> run_events (launches os0 ''sleep 9 &'' sixteen) shell0 = Some (Return full_shell)
   \<and> (\<exists>s'. run_events (launches os0 ''sleep 9 &'' (sixteen @ [117]) @ [Command os0 ''jobs'']) shell0
              = Some (Exit 1 s')
         \<and> map pid (job_list s') = sixteen
         \<and> out s' = out full_shell @ [Printf (''Tried to create too many jobs'' @ [CHR 0x0A]),
                                        Stderr (''Job not present in job list'' @ [CHR 0x0A])])"
proof -
  have full: "0 \<notin> set (map pid (job_list full_shell))"
    by code_simp
  have m: "map pid (job_list full_shell) = sixteen"
    by code_simp
  have parse: "parseline (Some ''sleep 9 &'') = Inr (1, tok_sleep)"
    "builtins tok_sleep = Some BUILTIN_NONE" "argv tok_sleep \<noteq> []"
    by code_simp+
  have fork: "1 \<le> fork_ret (os0\<lparr>fork_ret := 117\<rparr>)"
    "fork_ret (os0\<lparr>fork_ret := 117\<rparr>) \<notin> set (map pid (job_list full_shell))"
    unfolding m by (simp_all add: sixteen_def)
  have qs: "int (length sixteen) = MAXJOBS" "\<forall>q\<in>set sixteen. 1 \<le> q" "(117::int) \<notin> set sixteen"
    by (simp_all add: sixteen_def)
  have one: "(1::int) \<le> 117" "(0::int) < 1"
    by simp_all
  note t = C6_full_table [OF full, where st = BG and c = "''sleep 9 &''" and cl = "''sleep 9 &''"
      and tok = tok_sleep and qs = sixteen and r = 117 and later = "[Command os0 ''jobs'']"]
  from t [where p = 117] one(1) have a: "fst (addjob 117 BG ''sleep 9 &'' full_shell) = 0"
    "job_list (snd (addjob 117 BG ''sleep 9 &'' full_shell)) = job_list full_shell"
    "nextjid (snd (addjob 117 BG ''sleep 9 &'' full_shell)) = nextjid full_shell"
    "out (snd (addjob 117 BG ''sleep 9 &'' full_shell))
       = out full_shell @ [Printf (''Tried to create too many jobs'' @ [CHR 0x0A])]"
    by blast+
  from t [where p = 0] one(2) have b: "addjob 0 BG ''sleep 9 &'' full_shell = (0, full_shell)"
    by blast
  from t [where os = "os0\<lparr>fork_ret := 117\<rparr>"] parse fork obtain s1 where
    s1: "eval (os0\<lparr>fork_ret := 117\<rparr>) ''sleep 9 &'' full_shell = Exit 1 s1"
      "job_list s1 = job_list full_shell"
      "out s1 = out full_shell @ [Printf (''Tried to create too many jobs'' @ [CHR 0x0A]),
                                  Stderr (''Job not present in job list'' @ [CHR 0x0A])]"
    by blast
  from t [where os = os0] parse qs one(1) obtain s16 s2 where
    s2: "run_events (launches os0 ''sleep 9 &'' sixteen) shell0 = Some (Return s16)"
      "run_events (launches os0 ''sleep 9 &'' (sixteen @ [117]) @ [Command os0 ''jobs'']) shell0
         = Some (Exit 1 s2)"
      "job_list s2 = job_list s16"
      "out s2 = out s16 @ [Printf (''Tried to create too many jobs'' @ [CHR 0x0A]),
                           Stderr (''Job not present in job list'' @ [CHR 0x0A])]"
    by blast
  have "launches os0 ''sleep 9 &'' sixteen = map bg_launch sixteen"
    by (simp add: launches_def bg_launch_def)
  with s2(1) have f: "full_shell = s16"
    by (simp add: full_shell_def after_def)
  have e1: "\<exists>s'. eval (os0\<lparr>fork_ret := 117\<rparr>) ''sleep 9 &'' full_shell = Exit 1 s'
         \<and> map pid (job_list s') = sixteen
         \<and> out s' = out full_shell @ [Printf (''Tried to create too many jobs'' @ [CHR 0x0A]),
                                        Stderr (''Job not present in job list'' @ [CHR 0x0A])]"
    using s1 m by simp
  have e2: "\<exists>s'. run_events (launches os0 ''sleep 9 &'' (sixteen @ [117]) @ [Command os0 ''jobs'']) shell0
              = Some (Exit 1 s')
         \<and> map pid (job_list s') = sixteen
         \<and> out s' = out full_shell @ [Printf (''Tried to create too many jobs'' @ [CHR 0x0A]),
                                        Stderr (''Job not present in job list'' @ [CHR 0x0A])]"
    using s2 m f by simp
  have e3: "run_events (launches os0 ''sleep 9 &'' sixteen) shell0 = Some (Return full_shell)"
    using s2(1) f by simp
  have l: "list_all (\<lambda>q. 1 \<le> q) sixteen"
    using qs(2) by (simp add: list_all_iff)
  have am: "map pid (job_list (snd (addjob 117 BG ''sleep 9 &'' full_shell))) = sixteen"
    using a(2) m by simp
  show ?thesis
    using full one a(1) am a(3,4) b parse fork e1 qs(1) l qs(3) e3 e2 by (intro conjI)
qed

text \<open>
  C6 as the specification states it fails. After sixteen background launches and a
  seventeenth, the command line \<^verbatim>\<open>jobs\<close> is not evaluated and nothing is listed: the shell
  has exited with status 1 at the seventeenth launch, after the two lines of the
  rejection. And an insertion with the pid -1 into the full job list prints no
  diagnostic: it returns 0 and the state is as it was.
\<close>

theorem C6_rejected_launch_ends_the_shell:
  "(case run_events (map bg_launch (sixteen @ [117]) @ [Command os0 ''jobs'']) shell0 of
      Some (Exit n s) \<Rightarrow> n = 1 \<and> map pid (job_list s) = sixteen
        \<and> drop (length (out full_shell)) (out s)
            = [Printf (''Tried to create too many jobs'' @ [CHR 0x0A]),
               Stderr (''Job not present in job list'' @ [CHR 0x0A])]
    | _ \<Rightarrow> False)
   \<and> 0 \<notin> set (map pid (job_list full_shell))
   \<and> addjob (- 1) BG ''sleep 9 &'' full_shell = (0, full_shell)"
proof -
  have "(case run_events (map bg_launch (sixteen @ [117]) @ [Command os0 ''jobs'']) shell0 of
      Some (Exit n s) \<Rightarrow> n = 1 \<and> map pid (job_list s) = sixteen
        \<and> drop (length (out full_shell)) (out s)
            = [Printf (''Tried to create too many jobs'' @ [CHR 0x0A]),
               Stderr (''Job not present in job list'' @ [CHR 0x0A])]
    | _ \<Rightarrow> False)"
    by code_simp
  moreover have "0 \<notin> set (map pid (job_list full_shell))"
    by code_simp
  moreover have "addjob (- 1) BG ''sleep 9 &'' full_shell = (0, full_shell)"
    by (simp add: addjob_def)
  ultimately show ?thesis by blast
qed

end
